(* ===== verification/Prelude.thy ===== *)
theory Prelude
  imports Main "HOL-Library.Word"
begin

text \<open>
  The vocabulary shared by every component: the fixed-width integers of the C++ code as words,
  byte vectors as lists of 8-bit words, the conversions between \<open>char\<close> and byte, the pieces of
  the C and C++ standard library that several components use (\<open>std::string::c_str\<close>,
  \<open>std::to_string\<close>, \<open>std::vector::max_size\<close>), and list lemmas.

  Read before the component theories: a \<open>std::vector\<close> is a list, so its size is the natural
  number \<open>length\<close>; arithmetic on sizes is done on natural numbers wherever a bound shows that it
  cannot leave 64 bits, and on \<open>u64\<close> words where the code subtracts sizes.
\<close>

unbundle bit_operations_syntax

section \<open>Types\<close>

type_synonym u8 = "8 word"
type_synonym u16 = "16 word"
type_synonym u32 = "32 word"
type_synonym u64 = "64 word"
type_synonym bytes = "u8 list"

text \<open>\<open>std::vector::max_size()\<close> for one-byte elements on a 64-bit target: \<open>PTRDIFF_MAX\<close>.\<close>

definition vector_max_size :: nat where
  "vector_max_size = 2 ^ 63 - 1"

text \<open>The standard exceptions that reach the program's own code, with the text it gives them.\<close>

datatype std_exception =
    length_error
  | invalid_argument
  | out_of_range
  | runtime_error string

section \<open>Rule collections\<close>

named_theorems byte_simps \<open>bits and bytes of words\<close>
named_theorems packet_simps \<open>unfolding of the packet accessors and setters\<close>
named_theorems kernel_simps \<open>system calls and the event log\<close>

section \<open>Characters and bytes\<close>

text \<open>A character literal stored into a \<open>std::uint8_t\<close>, and \<open>static_cast<char>\<close> of a byte.\<close>

definition byte_of_char :: "char \<Rightarrow> u8" where
  "byte_of_char c = word_of_nat (of_char c)"

definition char_of_byte :: "u8 \<Rightarrow> char" where
  "char_of_byte b = char_of (unat b)"

definition bytes_of_string :: "string \<Rightarrow> bytes" where
  "bytes_of_string s = map byte_of_char s"

definition string_of_bytes :: "bytes \<Rightarrow> string" where
  "string_of_bytes bs = map char_of_byte bs"

lemma char_of_byte_of_char [simp]: "char_of_byte (byte_of_char c) = c"
  by (simp add: char_of_byte_def byte_of_char_def unat_of_nat)

lemma string_of_bytes_of_string [simp]: "string_of_bytes (bytes_of_string s) = s"
  by (simp add: string_of_bytes_def bytes_of_string_def map_idI)

lemma length_bytes_of_string [simp]: "length (bytes_of_string s) = length s"
  by (simp add: bytes_of_string_def)

text \<open>
  \<open>std::string::c_str()\<close> handed to a C function: the C string ends at the first NUL, so a
  \<open>std::string\<close> with an embedded NUL is cut there.
\<close>

definition c_str :: "string \<Rightarrow> string" where
  "c_str s = takeWhile (\<lambda>c. c \<noteq> CHR 0x00) s"

lemma c_str_id: "CHR 0x00 \<notin> set s \<Longrightarrow> c_str s = s"
  by (auto simp: c_str_def takeWhile_eq_all_conv)

text \<open>The newline that \<open>'\n'\<close> and \<open>std::endl\<close> write.\<close>

definition endl :: string where
  "endl = [CHR 0x0A]"

section \<open>Numerals\<close>

text \<open>
  \<open>std::to_string\<close> and \<open>operator<<\<close> of an integer: decimal digits after an optional sign.
  \<open>digits\<close> is used on numbers that are not negative.
\<close>

definition digit_char :: "int \<Rightarrow> char" where
  "digit_char d = char_of (if d < 10 then 48 + d else 87 + d)"

function digits :: "int \<Rightarrow> int \<Rightarrow> string" where
  "digits base n =
     (if n < base \<or> base < 2 then [digit_char n]
      else digits base (n div base) @ [digit_char (n mod base)])"
  by pat_completeness auto
termination
  by (relation "measure (\<lambda>(base, n). nat n)")
    (auto simp: nat_less_iff zdiv_mono2 int_div_less_self)

declare digits.simps [simp del]

definition to_string :: "int \<Rightarrow> string" where
  "to_string n = (if n < 0 then ''-'' @ digits 10 (- n) else digits 10 n)"

text \<open>An unsigned value written under \<open>std::hex\<close>.\<close>

definition to_hex :: "int \<Rightarrow> string" where
  "to_hex n = digits 16 n"

text \<open>Digits as \<open>std::isdigit\<close> knows them, and the number they write.\<close>

definition isdigit :: "char \<Rightarrow> bool" where
  "isdigit c \<longleftrightarrow> 48 \<le> (of_char c :: int) \<and> (of_char c :: int) \<le> 57"

definition digits_value :: "string \<Rightarrow> int" where
  "digits_value ds = foldl (\<lambda>n c. 10 * n + (of_char c - 48)) 0 ds"

lemma digit_char_10: "0 \<le> d \<Longrightarrow> d < 10 \<Longrightarrow> isdigit (digit_char d) \<and> (of_char (digit_char d) :: int) = 48 + d"
  by (simp add: digit_char_def isdigit_def of_char_of)

lemma digits_value_snoc: "digits_value (ds @ [c]) = 10 * digits_value ds + (of_char c - 48)"
  by (simp add: digits_value_def)

lemma digits_10: "0 \<le> n \<Longrightarrow> list_all isdigit (digits 10 n) \<and> digits_value (digits 10 n) = n \<and> digits 10 n \<noteq> []"
proof (induction "10 :: int" n rule: digits.induct)
  case (1 n)
  show ?case
  proof (cases "n < 10")
    case True
    then have d: "digits 10 n = [digit_char n]" by (subst digits.simps) simp
    show ?thesis using 1(2) True digit_char_10 [of n] by (simp add: d digits_value_def)
  next
    case False
    then have d: "digits 10 n = digits 10 (n div 10) @ [digit_char (n mod 10)]" by (subst digits.simps) simp
    have "list_all isdigit (digits 10 (n div 10)) \<and> digits_value (digits 10 (n div 10)) = n div 10"
      using 1 False by simp
    then show ?thesis using digit_char_10 [of "n mod 10"] by (simp add: d digits_value_snoc)
  qed
qed

lemma digits_inj: "0 \<le> m \<Longrightarrow> 0 \<le> n \<Longrightarrow> digits 10 m = digits 10 n \<Longrightarrow> m = n"
  by (metis digits_10)

lemma digits_no_sign: "0 \<le> n \<Longrightarrow> digits 10 n \<noteq> CHR ''-'' # s"
  using digits_10 [of n] by (auto simp: isdigit_def)

lemma to_string_inj: "to_string m = to_string n \<longleftrightarrow> m = n"
proof
  assume e: "to_string m = to_string n"
  have "m < 0 \<longleftrightarrow> n < 0"
    using e digits_no_sign unfolding to_string_def by (metis append_Cons append_Nil not_less)
  then show "m = n" using e digits_inj [of m n] digits_inj [of "- m" "- n"] by (auto simp: to_string_def split: if_splits)
qed simp

section \<open>Lists\<close>

lemma take_drop_append_overwrite [simp]:
  "length xs = n \<Longrightarrow> take n (xs @ ys) = xs"
  by simp

lemma length_4_cases:
  assumes "length xs = 4"
  obtains a b c d where "xs = [a, b, c, d]"
  using assms by (auto simp: numeral_eq_Suc length_Suc_conv)

lemma concat_snoc: "concat (xss @ [xs]) = concat xss @ xs"
  by simp

end
