(* ===== verification/Endian.thy ===== *)
theory Endian
  imports Prelude
begin

text \<open>
  \<open>packetforge::common::Endian\<close> (\<open>include/common/endian.hpp\<close>, \<open>src/common/endian.cpp\<close>) and the
  object representation of integers that \<open>memcpy\<close> and \<open>reinterpret_cast\<close> expose.

  The machine's own byte order, \<open>std::endian::native\<close>, is an argument of every definition, so that
  one statement can be about two machines of different order. The locale \<open>wire_codec\<close> is the
  contract the encoder and the decoder rely on; it is interpreted for the three widths the code
  converts.
\<close>

section \<open>The code\<close>

datatype endianness = Little | Big

definition hostEndianness :: "endianness \<Rightarrow> endianness" where
  "hostEndianness native = (if native = Little then Little else Big)"

text \<open>
  A \<open>uint16_t\<close> operand is promoted to \<open>int\<close> before it is shifted; the result is cut to 16 bits by
  the return type.
\<close>

definition swap16 :: "u16 \<Rightarrow> u16" where
  "swap16 value = ucast (drop_bit 8 (ucast value :: u32) OR push_bit 8 (ucast value :: u32))"

definition swap32 :: "u32 \<Rightarrow> u32" where
  "swap32 value =
     push_bit 24 (value AND 0x000000FF) OR
     push_bit 8 (value AND 0x0000FF00) OR
     drop_bit 8 (value AND 0x00FF0000) OR
     drop_bit 24 (value AND 0xFF000000)"

definition swap64 :: "u64 \<Rightarrow> u64" where
  "swap64 value =
     push_bit 56 (value AND 0x00000000000000FF) OR
     push_bit 40 (value AND 0x000000000000FF00) OR
     push_bit 24 (value AND 0x0000000000FF0000) OR
     push_bit 8 (value AND 0x00000000FF000000) OR
     drop_bit 8 (value AND 0x000000FF00000000) OR
     drop_bit 24 (value AND 0x0000FF0000000000) OR
     drop_bit 40 (value AND 0x00FF000000000000) OR
     drop_bit 56 (value AND 0xFF00000000000000)"

definition hostToNetwork16 :: "endianness \<Rightarrow> u16 \<Rightarrow> u16" where
  "hostToNetwork16 native value =
     (if hostEndianness native = Little then swap16 value else value)"

definition hostToNetwork32 :: "endianness \<Rightarrow> u32 \<Rightarrow> u32" where
  "hostToNetwork32 native value =
     (if hostEndianness native = Little then swap32 value else value)"

definition hostToNetwork64 :: "endianness \<Rightarrow> u64 \<Rightarrow> u64" where
  "hostToNetwork64 native value =
     (if hostEndianness native = Little then swap64 value else value)"

definition networkToHost16 :: "endianness \<Rightarrow> u16 \<Rightarrow> u16" where
  "networkToHost16 native value = hostToNetwork16 native value"

definition networkToHost32 :: "endianness \<Rightarrow> u32 \<Rightarrow> u32" where
  "networkToHost32 native value = hostToNetwork32 native value"

definition networkToHost64 :: "endianness \<Rightarrow> u64 \<Rightarrow> u64" where
  "networkToHost64 native value = hostToNetwork64 native value"

section \<open>Integers in memory\<close>

text \<open>
  The bytes of an integer object, least significant first, and the integer read back from bytes;
  \<open>store_native\<close> and \<open>load_native\<close> are what \<open>reinterpret_cast<const uint8_t*>(&value)\<close> and
  \<open>memcpy(&value, p, sizeof value)\<close> see on a machine of the given byte order.
\<close>

definition byte_of :: "nat \<Rightarrow> 'a::len word \<Rightarrow> u8" where
  "byte_of i v = ucast (drop_bit (8 * i) v)"

definition store_le :: "'a::len word \<Rightarrow> bytes" where
  "store_le v = map (\<lambda>i. byte_of i v) [0..<LENGTH('a) div 8]"

fun load_le :: "bytes \<Rightarrow> 'a::len word" where
  "load_le [] = 0"
| "load_le (b # bs) = push_bit 8 (load_le bs) OR ucast b"

definition store_native :: "endianness \<Rightarrow> 'a::len word \<Rightarrow> bytes" where
  "store_native native v = (if native = Little then store_le v else rev (store_le v))"

definition load_native :: "endianness \<Rightarrow> bytes \<Rightarrow> 'a::len word" where
  "load_native native bs = (if native = Little then load_le bs else load_le (rev bs))"

text \<open>
  The reference for network byte order, independent of words: the number a byte sequence denotes,
  most significant byte first.
\<close>

definition be_value :: "bytes \<Rightarrow> nat" where
  "be_value bs = foldl (\<lambda>acc b. 256 * acc + unat b) 0 bs"

section \<open>Bits\<close>

lemma bit_byte_mask:
  "bit (push_bit k (mask 8) :: 'a::len word) n \<longleftrightarrow> k \<le> n \<and> n < k + 8 \<and> n < LENGTH('a)"
  by (auto simp: bit_simps)

lemma masks32:
  "(0xFF::u32) = push_bit 0 (mask 8)" "(0xFF00::u32) = push_bit 8 (mask 8)"
  "(0xFF0000::u32) = push_bit 16 (mask 8)" "(0xFF000000::u32) = push_bit 24 (mask 8)"
  by (simp_all add: mask_eq_exp_minus_1 push_bit_eq_mult)

lemma masks64:
  "(0xFF::u64) = push_bit 0 (mask 8)" "(0xFF00::u64) = push_bit 8 (mask 8)"
  "(0xFF0000::u64) = push_bit 16 (mask 8)" "(0xFF000000::u64) = push_bit 24 (mask 8)"
  "(0xFF00000000::u64) = push_bit 32 (mask 8)" "(0xFF0000000000::u64) = push_bit 40 (mask 8)"
  "(0xFF000000000000::u64) = push_bit 48 (mask 8)" "(0xFF00000000000000::u64) = push_bit 56 (mask 8)"
  by (simp_all add: mask_eq_exp_minus_1 push_bit_eq_mult)

lemma bit_masks32:
  "bit (0xFF::u32) n \<longleftrightarrow> n < 8" "bit (0xFF00::u32) n \<longleftrightarrow> 8 \<le> n \<and> n < 16"
  "bit (0xFF0000::u32) n \<longleftrightarrow> 16 \<le> n \<and> n < 24" "bit (0xFF000000::u32) n \<longleftrightarrow> 24 \<le> n \<and> n < 32"
  by (simp only: masks32 bit_byte_mask; simp; arith)+

lemma bit_masks64:
  "bit (0xFF::u64) n \<longleftrightarrow> n < 8" "bit (0xFF00::u64) n \<longleftrightarrow> 8 \<le> n \<and> n < 16"
  "bit (0xFF0000::u64) n \<longleftrightarrow> 16 \<le> n \<and> n < 24" "bit (0xFF000000::u64) n \<longleftrightarrow> 24 \<le> n \<and> n < 32"
  "bit (0xFF00000000::u64) n \<longleftrightarrow> 32 \<le> n \<and> n < 40"
  "bit (0xFF0000000000::u64) n \<longleftrightarrow> 40 \<le> n \<and> n < 48"
  "bit (0xFF000000000000::u64) n \<longleftrightarrow> 48 \<le> n \<and> n < 56"
  "bit (0xFF00000000000000::u64) n \<longleftrightarrow> 56 \<le> n \<and> n < 64"
  by (simp only: masks64 bit_byte_mask; simp; arith)+

lemma bit_swap16:
  assumes "m < 8"
  shows "bit (swap16 v) m = bit v (8 + m)" "bit (swap16 v) (8 + m) = bit v m"
  using assms by (auto simp: swap16_def bit_simps dest: bit_imp_le_length)

lemma bit_swap32:
  assumes "m < 8"
  shows "bit (swap32 v) m = bit v (24 + m)" "bit (swap32 v) (8 + m) = bit v (16 + m)"
    "bit (swap32 v) (16 + m) = bit v (8 + m)" "bit (swap32 v) (24 + m) = bit v m"
  using assms
  by (simp_all only: swap32_def bit_or_iff bit_push_bit_iff bit_drop_bit_eq bit_and_iff
        bit_masks32 comp_def) auto

lemma bit_swap64:
  assumes "m < 8"
  shows "bit (swap64 v) m = bit v (56 + m)" "bit (swap64 v) (8 + m) = bit v (48 + m)"
    "bit (swap64 v) (16 + m) = bit v (40 + m)" "bit (swap64 v) (24 + m) = bit v (32 + m)"
    "bit (swap64 v) (32 + m) = bit v (24 + m)" "bit (swap64 v) (40 + m) = bit v (16 + m)"
    "bit (swap64 v) (48 + m) = bit v (8 + m)" "bit (swap64 v) (56 + m) = bit v m"
  using assms
  by (simp_all only: swap64_def bit_or_iff bit_push_bit_iff bit_drop_bit_eq bit_and_iff
        bit_masks64 comp_def) auto

section \<open>Bytes\<close>

lemma bit_byte_of [byte_simps]: "bit (byte_of i v) n \<longleftrightarrow> n < 8 \<and> bit v (8 * i + n)"
  by (auto simp: byte_of_def bit_simps)

lemma byte_of_eqI:
  "(\<And>m. m < 8 \<Longrightarrow> bit v (8 * i + m) = bit w (8 * j + m)) \<Longrightarrow> byte_of i v = byte_of j w"
  by (rule bit_word_eqI) (simp add: bit_byte_of)

lemma byte_of_swap16: "byte_of 0 (swap16 v) = byte_of 1 v" "byte_of 1 (swap16 v) = byte_of 0 v"
  by (auto intro!: byte_of_eqI simp: bit_swap16)

lemma byte_of_swap32:
  "byte_of 0 (swap32 v) = byte_of 3 v" "byte_of 1 (swap32 v) = byte_of 2 v"
  "byte_of 2 (swap32 v) = byte_of 1 v" "byte_of 3 (swap32 v) = byte_of 0 v"
  by (auto intro!: byte_of_eqI simp: bit_swap32)

lemma byte_of_swap64:
  "byte_of 0 (swap64 v) = byte_of 7 v" "byte_of 1 (swap64 v) = byte_of 6 v"
  "byte_of 2 (swap64 v) = byte_of 5 v" "byte_of 3 (swap64 v) = byte_of 4 v"
  "byte_of 4 (swap64 v) = byte_of 3 v" "byte_of 5 (swap64 v) = byte_of 2 v"
  "byte_of 6 (swap64 v) = byte_of 1 v" "byte_of 7 (swap64 v) = byte_of 0 v"
  by (auto intro!: byte_of_eqI simp: bit_swap64)

lemma length_store_le [simp]: "length (store_le (v :: 'a::len word)) = LENGTH('a) div 8"
  by (simp add: store_le_def)

lemma store_le_swap16: "store_le (swap16 v) = rev (store_le v)"
proof -
  have "[0..<2] = [0, 1::nat]" by (simp add: upt_rec)
  then show ?thesis by (simp add: store_le_def byte_of_swap16 flip: One_nat_def)
qed

lemma store_le_swap32: "store_le (swap32 v) = rev (store_le v)"
proof -
  have "[0..<4] = [0, 1, 2, 3::nat]" by (simp add: upt_rec)
  then show ?thesis by (simp add: store_le_def byte_of_swap32 flip: One_nat_def)
qed

lemma store_le_swap64: "store_le (swap64 v) = rev (store_le v)"
proof -
  have "[0..<8] = [0, 1, 2, 3, 4, 5, 6, 7::nat]" by (simp add: upt_rec)
  then show ?thesis by (simp add: store_le_def byte_of_swap64 flip: One_nat_def)
qed

lemma bit_load_le [byte_simps]:
  "bit (load_le bs :: 'a::len word) n \<longleftrightarrow>
     n < LENGTH('a) \<and> n div 8 < length bs \<and> bit (bs ! (n div 8)) (n mod 8)"
proof (induction bs arbitrary: n)
  case Nil
  then show ?case by simp
next
  case (Cons b bs)
  show ?case
  proof (cases "n < 8")
    case True
    then show ?thesis by (auto simp: bit_simps)
  next
    case False
    then have "\<not> bit (ucast b :: 'a word) n"
      by (auto simp: bit_simps dest: bit_imp_le_length)
    moreover have "n div 8 = Suc ((n - 8) div 8)" "(n - 8) mod 8 = n mod 8"
      using False by (simp_all add: le_div_geq le_mod_geq)
    ultimately show ?thesis using False by (auto simp: bit_simps Cons.IH)
  qed
qed

lemma load_store_le:
  assumes "LENGTH('a::len) = 8 * k"
  shows "load_le (store_le v) = (v :: 'a word)"
proof (rule bit_word_eqI)
  fix n assume n: "n < LENGTH('a)"
  with assms have "n < k * 8" by simp
  then have "n div 8 < k" by (rule less_mult_imp_div_less)
  moreover have "8 * (n div 8) + n mod 8 = n" by simp
  ultimately show "bit (load_le (store_le v) :: 'a word) n = bit v n"
    using n assms by (simp add: byte_simps store_le_def less_mult_imp_div_less)
qed

lemma store_load_le:
  assumes "LENGTH('a::len) = 8 * k" "length bs = k"
  shows "store_le (load_le bs :: 'a word) = bs"
proof (rule nth_equalityI)
  show "length (store_le (load_le bs :: 'a word)) = length bs" using assms by simp
next
  fix i assume "i < length (store_le (load_le bs :: 'a word))"
  with assms have i: "i < k" by simp
  show "store_le (load_le bs :: 'a word) ! i = bs ! i"
  proof (rule bit_word_eqI)
    fix m assume "m < LENGTH(8)"
    with i assms show "bit (store_le (load_le bs :: 'a word) ! i) m = bit (bs ! i) m"
      by (simp add: byte_simps store_le_def)
  qed
qed

section \<open>Bytes and numbers\<close>

lemma be_value_snoc: "be_value (bs @ [b]) = 256 * be_value bs + unat b"
  by (simp add: be_value_def)

lemma be_value_bound: "be_value bs < 256 ^ length bs"
proof (induction bs rule: rev_induct)
  case Nil
  then show ?case by (simp add: be_value_def)
next
  case (snoc b bs)
  have "unat b < 256" using unsigned_less [of b] by simp
  with snoc show ?case by (simp add: be_value_snoc)
qed

lemma unat_load_le:
  "8 * length bs \<le> LENGTH('a::len) \<Longrightarrow> unat (load_le bs :: 'a word) = be_value (rev bs)"
proof (induction bs)
  case Nil
  then show ?case by (simp add: be_value_def)
next
  case (Cons b bs)
  let ?x = "load_le bs :: 'a word"
  have IH: "unat ?x = be_value (rev bs)" using Cons by simp
  have "be_value (rev bs) * 256 + 255 < 256 ^ length (b # bs)"
    using be_value_bound [of "rev bs"] by simp
  also have "256 ^ length (b # bs) = (2::nat) ^ (8 * length (b # bs))"
    by (simp add: power_mult power_add)
  also have "\<dots> \<le> 2 ^ LENGTH('a)" using Cons.prems by (intro power_increasing) auto
  finally have bound: "unat ?x * 256 + 255 < 2 ^ LENGTH('a)" by (simp add: IH)
  have b: "unat b < 256" using unsigned_less [of b] by simp
  have "bit (push_bit 8 ?x) n \<Longrightarrow> \<not> bit (ucast b :: 'a word) n" for n
    by (auto simp: bit_simps dest: bit_imp_le_length)
  then have "push_bit 8 ?x OR ucast b = push_bit 8 ?x + ucast b"
    by (intro disjunctive_add [symmetric]) auto
  moreover have "unat (ucast b :: 'a word) = unat b"
    using b bound by (simp add: unsigned_ucast_eq take_bit_nat_eq_self)
  moreover have "unat (push_bit 8 ?x) = unat ?x * 256"
    using bound by (simp only: unsigned_push_bit_eq) (simp add: push_bit_eq_mult take_bit_nat_eq_self)
  ultimately show ?case using bound b by (simp add: unat_word_ariths be_value_snoc IH)
qed

section \<open>The contract of a wire codec\<close>

text \<open>
  What the encoder and the decoder need of one integer width: converting to network order and then
  taking the bytes in memory gives the same bytes on every machine, and reading them back on any
  machine gives the value.
\<close>

locale wire_codec =
  fixes swap :: "'a::len word \<Rightarrow> 'a word"
    and hton :: "endianness \<Rightarrow> 'a word \<Rightarrow> 'a word"
    and width :: nat
  assumes bits_width: "LENGTH('a) = 8 * width"
    and swap_reverses: "store_le (swap v) = rev (store_le v)"
    and hton_by_host: "hton h v = (if hostEndianness h = Little then swap v else v)"
begin

lemma wire_bytes: "store_native h (hton h v) = rev (store_le v)"
  by (cases h) (simp_all add: store_native_def hton_by_host swap_reverses hostEndianness_def)

lemma wire_value: "be_value (store_native h (hton h v)) = unat v"
  using unat_load_le [where 'a = 'a, of "store_le v"] bits_width
  by (simp add: wire_bytes load_store_le [OF bits_width])

lemma length_wire [simp]: "length (store_native h (v :: 'a word)) = width"
  using bits_width by (simp add: store_native_def)

lemma swap_swap: "swap (swap v) = v"
  by (metis load_store_le [OF bits_width] rev_rev_ident swap_reverses)

lemma hton_hton: "hton h (hton h v) = v"
  by (simp add: hton_by_host swap_swap)

lemma load_store: "load_native h (store_native h v) = (v :: 'a word)"
  by (simp add: load_native_def store_native_def load_store_le [OF bits_width])

lemma store_load: "length bs = width \<Longrightarrow> store_native h (load_native h bs :: 'a word) = bs"
  by (simp add: load_native_def store_native_def store_load_le [OF bits_width])

lemma get_put: "hton h' (load_native h' (store_native h (hton h v))) = v"
  by (metis hton_hton load_store wire_bytes)

lemma put_get:
  "length bs = width \<Longrightarrow> store_native h (hton h (hton h' (load_native h' bs))) = bs"
  by (metis hton_hton store_load wire_bytes)

end

interpretation wire16: wire_codec swap16 hostToNetwork16 2
  by unfold_locales (simp_all add: store_le_swap16 hostToNetwork16_def)

interpretation wire32: wire_codec swap32 hostToNetwork32 4
  by unfold_locales (simp_all add: store_le_swap32 hostToNetwork32_def)

interpretation wire64: wire_codec swap64 hostToNetwork64 8
  by unfold_locales (simp_all add: store_le_swap64 hostToNetwork64_def)

section \<open>Properties\<close>

text \<open>
  C40. Network byte order. For each of the three widths, the bytes in memory of a value converted
  with \<open>hostToNetwork\<close> are the value in big-endian order on either kind of machine, and a machine of
  any byte order that loads them and applies \<open>networkToHost\<close> gets the value back.
\<close>

theorem network_byte_order:
  "be_value (store_native h (hostToNetwork16 h v16)) = unat v16 \<and>
   be_value (store_native h (hostToNetwork32 h v32)) = unat v32 \<and>
   be_value (store_native h (hostToNetwork64 h v64)) = unat v64 \<and>
   networkToHost16 h' (load_native h' (store_native h (hostToNetwork16 h v16))) = v16 \<and>
   networkToHost32 h' (load_native h' (store_native h (hostToNetwork32 h v32))) = v32 \<and>
   networkToHost64 h' (load_native h' (store_native h (hostToNetwork64 h v64))) = v64"
  by (simp add: networkToHost16_def networkToHost32_def networkToHost64_def
        wire16.wire_value wire32.wire_value wire64.wire_value
        wire16.get_put wire32.get_put wire64.get_put)

end
