(* ===== verification/Errors.thy ===== *)
theory Errors
  imports Prelude
begin

text \<open>
  \<open>packetforge::common::Error\<close> (\<open>include/common/error.hpp\<close>, \<open>src/common/error.cpp\<close>): the value
  every operation of the library returns. The constructors of \<open>error_code\<close> are the source's
  enumerators; where another enumeration of the program has the same enumerator, that other one
  carries a prefix (see \<open>Opcodes\<close>).
\<close>

datatype error_code =
    Success
  | UnknownError
  | InvalidArgument
  | ConnectionFailed
  | ConnectionClosed
  | SocketError
  | Timeout
  | InvalidPacket
  | SerializationError
  | DeserializationError
  | ProtocolError

text \<open>\<open>static_cast<int>\<close> of an enumerator.\<close>

fun error_code_value :: "error_code \<Rightarrow> int" where
  "error_code_value Success = 0"
| "error_code_value UnknownError = 1"
| "error_code_value InvalidArgument = 2"
| "error_code_value ConnectionFailed = 3"
| "error_code_value ConnectionClosed = 4"
| "error_code_value SocketError = 5"
| "error_code_value Timeout = 6"
| "error_code_value InvalidPacket = 7"
| "error_code_value SerializationError = 8"
| "error_code_value DeserializationError = 9"
| "error_code_value ProtocolError = 10"

record error =
  err_code :: error_code
  err_message :: string

text \<open>The constructor \<open>Error::Error\<close> and the observers.\<close>

definition Error :: "error_code \<Rightarrow> string \<Rightarrow> error" where
  "Error c msg = \<lparr>err_code = c, err_message = msg\<rparr>"

definition error_code :: "error \<Rightarrow> error_code" where
  "error_code e = err_code e"

definition error_message :: "error \<Rightarrow> string" where
  "error_message e = err_message e"

definition error_ok :: "error \<Rightarrow> bool" where
  "error_ok e \<longleftrightarrow> err_code e = Success"

text \<open>The value every operation returns on success: \<open>Error(ErrorCode::Success, "")\<close>.\<close>

abbreviation ok_result :: error where
  "ok_result \<equiv> Error Success ''''"

lemma error_code_Error [simp]: "error_code (Error c msg) = c"
  by (simp add: error_code_def Error_def)

lemma error_message_Error [simp]: "error_message (Error c msg) = msg"
  by (simp add: error_message_def Error_def)

lemma error_ok_Error [simp]: "error_ok (Error c msg) \<longleftrightarrow> c = Success"
  by (simp add: error_ok_def Error_def)

lemma error_ok_iff: "error_ok e \<longleftrightarrow> error_code e = Success"
  by (simp add: error_ok_def error_code_def)

lemma Error_inject [simp]: "Error c m = Error c' m' \<longleftrightarrow> c = c' \<and> m = m'"
  by (simp add: Error_def)

lemma Error_exhaust:
  obtains c m where "e = Error c m"
  by (metis Error_def error.surjective unit.exhaust)

end
