(* ===== verification/Platform.thy ===== *)
theory Platform
  imports Endian Errors "HOL-Library.Multiset"
begin

text \<open>
  The operating system as the code sees it. Nothing under \<open>src/\<close> says how the kernel answers a
  system call, so the kernel is a parameter: a \<open>platform\<close> holds the function that answers requests
  on an arbitrary kernel state, the machine's byte order, \<open>inet_pton\<close> and the delivery of signals.
  Every request and answer and every line of output is recorded in the \<open>log\<close> of the world, which is
  what the theorems about effects talk about.

  \<open>kernel_ok\<close> is the only hypothesis about the kernel in the theorems about the library and the
  applications: the bounds POSIX documents for the results of \<open>socket\<close>, \<open>send\<close> and \<open>recv\<close>. \<open>delivers\<close> describes a connection whose peer has
  sent given bytes, cut into pieces of any size.
\<close>

section \<open>Requests, answers, worlds\<close>

text \<open>
  \<open>SysSetReuseAddr\<close> is \<open>setsockopt(SO_REUSEADDR, 1)\<close>, \<open>SysSetLinger\<close> is \<open>setsockopt(SO_LINGER, {1, 0})\<close>, which
  makes the next \<open>close\<close> reset the connection, \<open>SysShutdown\<close> is \<open>shutdown(SHUT_WR)\<close> and \<open>SysIgnoreSigpipe\<close> is
  \<open>std::signal(SIGPIPE, SIG_IGN)\<close>, whose \<open>SIG_ERR\<close> is -1. \<open>SysGetfd\<close> is \<open>fcntl(fd, F_GETFD)\<close>.
\<close>

text \<open>\<open>sockaddr_in\<close>; \<open>sin_family\<close> is always \<open>AF_INET\<close>. \<open>sin_port\<close> is in network byte order.\<close>

record sockaddr_in =
  sin_addr :: u32
  sin_port :: u16

datatype request =
    SysSocket
  | SysSetReuseAddr int
  | SysSetLinger int
  | SysBind int sockaddr_in
  | SysListen int int
  | SysAccept int
  | SysConnect int sockaddr_in
  | SysGetsockname int
  | SysSend int bytes
  | SysRecv int nat
  | SysShutdown int
  | SysIgnoreSigpipe
  | SysGetfd int
  | SysClose int
  | ReadStdin

text \<open>
  An answer: the return value, the text \<open>strerror(errno)\<close> gives after the call, whether \<open>errno\<close> is
  \<open>EINTR\<close> or \<open>ECONNRESET\<close> then, the bytes \<open>recv\<close> stored and the port \<open>getsockname\<close> stored (network byte
  order).
\<close>

record reply =
  ret :: int
  err_text :: string
  err_EINTR :: bool
  err_ECONNRESET :: bool
  stored :: bytes
  stored_port :: u16

datatype event =
    Sys request reply
  | Out string
  | Err string

record 'w world =
  kernel :: 'w
  log :: "event list"

record 'w platform =
  native :: endianness
  serve :: "request \<Rightarrow> 'w \<Rightarrow> reply \<times> 'w"
  inet_pton :: "string \<Rightarrow> u32 option"
  interrupted :: "'w \<Rightarrow> bool \<times> 'w"

definition syscall :: "'w platform \<Rightarrow> request \<Rightarrow> 'w world \<Rightarrow> reply \<times> 'w world" where
  "syscall P c w =
     (case serve P c (kernel w) of (r, k) \<Rightarrow> (r, \<lparr>kernel = k, log = log w @ [Sys c r]\<rparr>))"

text \<open>Text written to \<open>std::cout\<close> and \<open>std::cerr\<close>.\<close>

definition cout :: "string \<Rightarrow> 'w world \<Rightarrow> 'w world" where
  "cout s w = w\<lparr>log := log w @ [Out s]\<rparr>"

definition cerr :: "string \<Rightarrow> 'w world \<Rightarrow> 'w world" where
  "cerr s w = w\<lparr>log := log w @ [Err s]\<rparr>"

text \<open>\<open>htons\<close> and \<open>ntohs\<close> of the C library: the value whose bytes in memory are big-endian.\<close>

definition htons :: "endianness \<Rightarrow> u16 \<Rightarrow> u16" where
  "htons h p = load_native h (rev (store_le p))"

definition ntohs :: "endianness \<Rightarrow> u16 \<Rightarrow> u16" where
  "ntohs h p = load_le (rev (store_native h p))"

definition htonl :: "endianness \<Rightarrow> u32 \<Rightarrow> u32" where
  "htonl h p = load_native h (rev (store_le p))"

definition ntohl :: "endianness \<Rightarrow> u32 \<Rightarrow> u32" where
  "ntohl h p = load_le (rev (store_native h p))"

lemma ntohs_htons [simp]: "ntohs h (htons h p) = p"
  using wire16.store_load [of "rev (store_le p)"] wire16.bits_width
  by (simp add: ntohs_def htons_def load_store_le)

section \<open>What POSIX documents\<close>

text \<open>
  \<open>socket\<close> returns -1 or a descriptor, which is not negative; \<open>send\<close> returns -1 or the number of
  bytes it accepted, \<open>recv\<close> returns -1 or the number of bytes it stored, neither more than was asked
  for; nothing is said about which of them happens.
\<close>

definition reply_ok :: "request \<Rightarrow> reply \<Rightarrow> bool" where
  "reply_ok c r \<longleftrightarrow>
     (case c of
        SysSocket \<Rightarrow> -1 \<le> ret r
      | SysSend fd bs \<Rightarrow> ret r \<le> int (length bs)
      | SysRecv fd n \<Rightarrow> ret r \<le> int n \<and> (0 \<le> ret r \<longrightarrow> int (length (stored r)) = ret r)
      | _ \<Rightarrow> True)"

definition kernel_ok :: "'w platform \<Rightarrow> bool" where
  "kernel_ok P \<longleftrightarrow> (\<forall>c k. reply_ok c (fst (serve P c k)))"

text \<open>
  The kernel state \<open>k\<close> will hand out the bytes \<open>bs\<close> on descriptor \<open>fd\<close>: as long as some are left,
  every \<open>recv\<close> stores between one and the number asked for.
\<close>

inductive delivers :: "'w platform \<Rightarrow> int \<Rightarrow> bytes \<Rightarrow> 'w \<Rightarrow> bool" for P fd where
  nothing_left: "delivers P fd [] k"
| next_piece: "delivers P fd bs k"
    if "\<And>n. 0 < n \<Longrightarrow> \<exists>m r k'. serve P (SysRecv fd n) k = (r, k') \<and> ret r = int m \<and> 0 < m \<and> m \<le> n
          \<and> m \<le> length bs \<and> stored r = take m bs \<and> delivers P fd (drop m bs) k'"

lemma delivers_recv:
  assumes "delivers P fd bs k" "bs \<noteq> []" "0 < n"
  obtains m r k' where "serve P (SysRecv fd n) k = (r, k')" "ret r = int m" "0 < m" "m \<le> n"
    "m \<le> length bs" "stored r = take m bs" "delivers P fd (drop m bs) k'"
  using assms by (auto elim!: delivers.cases) blast

section \<open>Reading the log\<close>

text \<open>The bytes the kernel accepted from, and handed to, the program on a descriptor.\<close>

fun sent_by :: "int \<Rightarrow> event \<Rightarrow> bytes" where
  "sent_by fd (Sys (SysSend f bs) r) = (if f = fd then take (nat (ret r)) bs else [])"
| "sent_by fd _ = []"

fun received_by :: "int \<Rightarrow> event \<Rightarrow> bytes" where
  "received_by fd (Sys (SysRecv f n) r) = (if f = fd \<and> 0 \<le> ret r then stored r else [])"
| "received_by fd _ = []"

definition sent :: "int \<Rightarrow> event list \<Rightarrow> bytes" where
  "sent fd es = concat (map (sent_by fd) es)"

definition received :: "int \<Rightarrow> event list \<Rightarrow> bytes" where
  "received fd es = concat (map (received_by fd) es)"

text \<open>The lines written to \<open>std::cerr\<close>.\<close>

fun error_line :: "event \<Rightarrow> string list" where
  "error_line (Err s) = [s]"
| "error_line _ = []"

definition diagnostics :: "event list \<Rightarrow> string list" where
  "diagnostics es = concat (map error_line es)"

text \<open>
  Ownership of descriptors. \<open>fd_step\<close> follows one event: \<open>socket\<close> and \<open>accept\<close> add the descriptor
  they return, \<open>close\<close> removes one that is held, and every other call on a descriptor needs it to be
  held, except \<open>fcntl(fd, F_GETFD)\<close>, which a test uses to ask whether it is open. \<open>held H es\<close> is the multiset held after the events \<open>es\<close> started from \<open>H\<close>, and \<open>None\<close> as soon
  as one event uses or closes a descriptor that is not held.
\<close>

fun fd_step :: "event \<Rightarrow> int multiset \<Rightarrow> int multiset option" where
  "fd_step (Sys SysSocket r) H = Some (if ret r = -1 then H else add_mset (ret r) H)"
| "fd_step (Sys (SysAccept f) r) H =
     (if f \<in># H then Some (if ret r < 0 then H else add_mset (ret r) H) else None)"
| "fd_step (Sys (SysClose f) r) H = (if f \<in># H then Some (H - {#f#}) else None)"
| "fd_step (Sys (SysSetReuseAddr f) r) H = (if f \<in># H then Some H else None)"
| "fd_step (Sys (SysSetLinger f) r) H = (if f \<in># H then Some H else None)"
| "fd_step (Sys (SysShutdown f) r) H = (if f \<in># H then Some H else None)"
| "fd_step (Sys (SysBind f a) r) H = (if f \<in># H then Some H else None)"
| "fd_step (Sys (SysListen f b) r) H = (if f \<in># H then Some H else None)"
| "fd_step (Sys (SysConnect f a) r) H = (if f \<in># H then Some H else None)"
| "fd_step (Sys (SysGetsockname f) r) H = (if f \<in># H then Some H else None)"
| "fd_step (Sys (SysSend f bs) r) H = (if f \<in># H then Some H else None)"
| "fd_step (Sys (SysRecv f n) r) H = (if f \<in># H then Some H else None)"
| "fd_step (Sys ReadStdin r) H = Some H"
| "fd_step (Sys SysIgnoreSigpipe r) H = Some H"
| "fd_step (Sys (SysGetfd f) r) H = Some H"
| "fd_step (Out s) H = Some H"
| "fd_step (Err s) H = Some H"

fun held :: "int multiset \<Rightarrow> event list \<Rightarrow> int multiset option" where
  "held H [] = Some H"
| "held H (e # es) = (case fd_step e H of None \<Rightarrow> None | Some H' \<Rightarrow> held H' es)"

lemma sent_simps [kernel_simps]:
  "sent fd [] = []" "sent fd (es @ es') = sent fd es @ sent fd es'"
  "sent fd [e] = sent_by fd e"
  by (simp_all add: sent_def)

lemma received_simps [kernel_simps]:
  "received fd [] = []" "received fd (es @ es') = received fd es @ received fd es'"
  "received fd [e] = received_by fd e"
  by (simp_all add: received_def)

lemma diagnostics_simps [kernel_simps]:
  "diagnostics [] = []" "diagnostics (es @ es') = diagnostics es @ diagnostics es'"
  "diagnostics [e] = error_line e"
  by (simp_all add: diagnostics_def)

lemma held_append:
  "held H (es @ es') = (case held H es of None \<Rightarrow> None | Some H' \<Rightarrow> held H' es')"
  by (induction es arbitrary: H) (auto split: option.splits)

lemma fd_step_frame: "fd_step e H = Some H' \<Longrightarrow> fd_step e (H + F) = Some (H' + F)"
  by (cases "(e, H)" rule: fd_step.cases) (auto split: if_splits)

section \<open>Transfer of ownership\<close>

text \<open>
  \<open>transfers R w R' w'\<close>: between the worlds \<open>w\<close> and \<open>w'\<close> the program only appended to the log, and
  what it appended turns the held descriptors \<open>R\<close> into \<open>R'\<close> without touching any other descriptor:
  the statement holds in every frame \<open>F\<close>.
\<close>

definition transfers :: "int multiset \<Rightarrow> 'w world \<Rightarrow> int multiset \<Rightarrow> 'w world \<Rightarrow> bool" where
  "transfers R w R' w' \<longleftrightarrow>
     (\<exists>es. log w' = log w @ es \<and> (\<forall>F. held (R + F) es = Some (R' + F)))"

lemma transfers_refl [simp, intro]: "transfers R w R w"
  by (simp add: transfers_def)

lemma transfers_trans [trans]:
  "transfers R w R' w' \<Longrightarrow> transfers R' w' R'' w'' \<Longrightarrow> transfers R w R'' w''"
  unfolding transfers_def by (elim exE conjE) (auto simp: held_append)

lemma transfers_frame: "transfers R w R' w' \<Longrightarrow> transfers (R + F) w (R' + F) w'"
  unfolding transfers_def by (auto simp: add.assoc)

lemma transfers_held:
  "transfers R w R' w' \<Longrightarrow> held H (log w) = Some (R + F) \<Longrightarrow> held H (log w') = Some (R' + F)"
  unfolding transfers_def by (auto simp: held_append)

lemma transfers_same_log: "transfers R w R' w1 \<Longrightarrow> log w2 = log w1 \<Longrightarrow> transfers R w R' w2"
  by (simp add: transfers_def)

lemma transfers_log: "transfers R w R' w' \<Longrightarrow> \<exists>es. log w' = log w @ es"
  by (auto simp: transfers_def)

lemma syscall_transfers:
  assumes "syscall P c w = (r, w')" "fd_step (Sys c r) R = Some R'"
  shows "transfers R w R' w'"
  using assms fd_step_frame [OF assms(2)]
  by (auto simp: syscall_def transfers_def split: prod.splits)

lemma close_transfers [intro]: "transfers {#fd#} w {#} (snd (syscall P (SysClose fd) w))"
  by (rule syscall_transfers [OF prod.collapse [symmetric]]) simp

text \<open>A call on a held descriptor that neither opens nor closes one, for forward reasoning.\<close>

lemma syscall_keeps:
  "syscall P (SysSetReuseAddr f) w = (r, w') \<Longrightarrow> transfers {#f#} w {#f#} w'"
  "syscall P (SysBind f a) w = (r, w') \<Longrightarrow> transfers {#f#} w {#f#} w'"
  "syscall P (SysListen f b) w = (r, w') \<Longrightarrow> transfers {#f#} w {#f#} w'"
  "syscall P (SysConnect f a) w = (r, w') \<Longrightarrow> transfers {#f#} w {#f#} w'"
  "syscall P (SysGetsockname f) w = (r, w') \<Longrightarrow> transfers {#f#} w {#f#} w'"
  "syscall P (SysSend f bs) w = (r, w') \<Longrightarrow> transfers {#f#} w {#f#} w'"
  "syscall P (SysRecv f n) w = (r, w') \<Longrightarrow> transfers {#f#} w {#f#} w'"
  "syscall P (SysSetLinger f) w = (r, w') \<Longrightarrow> transfers {#f#} w {#f#} w'"
  "syscall P (SysShutdown f) w = (r, w') \<Longrightarrow> transfers {#f#} w {#f#} w'"
  by (auto intro: syscall_transfers)

lemma syscall_stdin_transfers: "syscall P ReadStdin w = (r, w') \<Longrightarrow> transfers R w R w'"
  and syscall_sigpipe_transfers: "syscall P SysIgnoreSigpipe w = (r, w') \<Longrightarrow> transfers R w R w'"
  by (auto intro: syscall_transfers)

lemma syscall_log [kernel_simps]:
  "syscall P c w = (r, w') \<Longrightarrow> log w' = log w @ [Sys c r]"
  by (auto simp: syscall_def split: prod.splits)

lemma syscall_diagnostics:
  "syscall P c w = (r, w') \<Longrightarrow> diagnostics (log w') = diagnostics (log w)"
  by (simp add: kernel_simps)

lemma syscall_ok: "kernel_ok P \<Longrightarrow> syscall P c w = (r, w') \<Longrightarrow> reply_ok c r"
  unfolding syscall_def kernel_ok_def by (metis (no_types, lifting) fst_conv prod.case_eq_if)

lemma log_cout [kernel_simps]: "log (cout s w) = log w @ [Out s]"
  and log_cerr [kernel_simps]: "log (cerr s w) = log w @ [Err s]"
  and kernel_cout [kernel_simps]: "kernel (cout s w) = kernel w"
  and kernel_cerr [kernel_simps]: "kernel (cerr s w) = kernel w"
  by (simp_all add: cout_def cerr_def)

lemma cout_diagnostics [simp]: "diagnostics (log (cout s w)) = diagnostics (log w)"
  and cerr_diagnostics [simp]: "diagnostics (log (cerr s w)) = diagnostics (log w) @ [s]"
  by (simp_all add: kernel_simps)

lemma cout_transfers [intro]: "transfers R w R' w' \<Longrightarrow> transfers R w R' (cout s w')"
  and cerr_transfers [intro]: "transfers R w R' w' \<Longrightarrow> transfers R w R' (cerr s w')"
  by (auto simp: transfers_def kernel_simps held_append)

text \<open>Output and waiting for input change neither direction of a stream.\<close>

lemma stdin_streams:
  "sent f (log (snd (syscall P ReadStdin w))) = sent f (log w)"
  "received f (log (snd (syscall P ReadStdin w))) = received f (log w)"
  by (simp_all add: syscall_log [OF prod.collapse [symmetric]] kernel_simps)

lemma output_streams [simp]:
  "sent f (log (cout s w)) = sent f (log w)" "received f (log (cout s w)) = received f (log w)"
  "sent f (log (cerr s w)) = sent f (log w)" "received f (log (cerr s w)) = received f (log w)"
  by (simp_all add: kernel_simps)

text \<open>Between two worlds the program only wrote to \<open>std::cout\<close>.\<close>

definition prints :: "'w world \<Rightarrow> 'w world \<Rightarrow> bool" where
  "prints w w' \<longleftrightarrow> kernel w' = kernel w \<and> (\<exists>ss. log w' = log w @ map Out ss)"

lemma prints_refl [intro]: "prints w w"
  by (auto simp: prints_def)

lemma prints_cout [intro]: "prints w w' \<Longrightarrow> prints w (cout s w')"
  unfolding prints_def by (auto simp: kernel_simps intro: exI [of _ "ss @ [s]" for ss])

lemma Out_frame:
  "diagnostics (map Out ss) = []" "sent f (map Out ss) = []" "received f (map Out ss) = []"
  "held H (map Out ss) = Some H"
  by (induction ss) (simp_all add: diagnostics_def sent_def received_def)

lemma prints_transfers: "prints w1 w2 \<Longrightarrow> transfers R w R' w1 \<Longrightarrow> transfers R w R' w2"
  by (auto simp: prints_def transfers_def held_append Out_frame)

lemma prints_frame:
  assumes "prints w w'"
  shows "kernel w' = kernel w" "diagnostics (log w') = diagnostics (log w)"
    "sent f (log w') = sent f (log w)" "received f (log w') = received f (log w)"
  using assms by (auto simp: prints_def kernel_simps Out_frame)

end
