(* ===== verification/Resource.thy ===== *)
theory Resource
  imports Platform
begin

text \<open>
  The contract shared by the classes that own file descriptors (\<open>Socket\<close>, \<open>Connection\<close>,
  \<open>Transport\<close>, \<open>Client\<close>, \<open>Server\<close>): what their destructor-like operation, their move constructor
  and their move assignment do to the descriptors they own. The component theories interpret the
  two locales on the model of each class.
\<close>

locale owned_resource =
  fixes owned :: "'r \<Rightarrow> int multiset"
    and inv :: "'r \<Rightarrow> bool"
    and fresh :: 'r
    and release :: "'w platform \<Rightarrow> 'r \<Rightarrow> 'w world \<Rightarrow> 'r \<times> 'w world"
  assumes fresh_inv: "inv fresh"
    and owned_fresh: "owned fresh = {#}"
    and release_fresh: "inv r \<Longrightarrow> fst (release P r w) = fresh"
    and release_idle: "inv r \<Longrightarrow> owned r = {#} \<Longrightarrow> snd (release P r w) = w"
    and release_transfers: "inv r \<Longrightarrow> transfers (owned r) w {#} (snd (release P r w))"
begin

lemma release_twice:
  assumes "inv r" "release P r w = (r1, w1)"
  shows "release P r1 w1 = (r1, w1)"
proof -
  have "r1 = fresh" using assms release_fresh [of r P w] by simp
  then show ?thesis
    using release_fresh [of r1 P w1] release_idle [of r1 P w1] fresh_inv owned_fresh
    by (simp add: prod_eq_iff)
qed

lemma release_owned: "inv r \<Longrightarrow> release P r w = (r', w') \<Longrightarrow> owned r' = {#} \<and> inv r'"
  using release_fresh [of r P w] owned_fresh fresh_inv by auto

lemma release_transfers_pair:
  "inv r \<Longrightarrow> release P r w = (r', w') \<Longrightarrow> transfers (owned r) w {#} w'"
  using release_transfers [of r w P] by simp

end

text \<open>
  Moving. \<open>move\<close> returns the new object and what is left in the source; assigning by move first
  releases the target.
\<close>

locale movable_resource = owned_resource +
  fixes move :: "'r \<Rightarrow> 'r \<times> 'r"
    and assign :: "'w platform \<Rightarrow> 'r \<Rightarrow> 'r \<Rightarrow> 'w world \<Rightarrow> 'r \<times> 'r \<times> 'w world"
  assumes move_takes: "inv r \<Longrightarrow> move r = (r, fresh)"
    and assign_releases: "inv this \<Longrightarrow> inv other \<Longrightarrow>
      assign P this other w = (fst (move other), snd (move other), snd (release P this w))"
begin

lemma assign_eq:
  "inv this \<Longrightarrow> inv other \<Longrightarrow> assign P this other w = (other, fresh, snd (release P this w))"
  by (simp add: assign_releases move_takes)

lemma move_conserves: "inv r \<Longrightarrow> move r = (r', rest) \<Longrightarrow> owned r' + owned rest = owned r"
  using owned_fresh by (auto simp: move_takes)

lemma assign_transfers:
  assumes "inv this" "inv other" "assign P this other w = (this', other', w')"
  shows "transfers (owned this + owned other) w (owned this' + owned other') w'"
proof -
  have "this' = other" "other' = fresh" "w' = snd (release P this w)"
    using assms assign_eq [of this other P w] by simp_all
  then show ?thesis
    using transfers_frame [OF release_transfers [OF \<open>inv this\<close>, of w P], of "owned other"]
    by (simp add: owned_fresh)
qed

end

end
