(* ===== verification/Sockets.thy ===== *)
theory Sockets
  imports Resource
begin

text \<open>
  \<open>packetforge::network::Socket\<close> (\<open>include/network/socket.hpp\<close>, \<open>src/network/socket.cpp\<close>): the owner
  of one file descriptor, -1 when it owns none. Every operation takes the platform and the world
  and returns its \<open>Error\<close>, the objects it changed and the world after it.
\<close>

section \<open>State and operations\<close>

record socket =
  socket_fd :: int

definition Socket :: socket where
  "Socket = \<lparr>socket_fd = -1\<rparr>"

definition socket_isOpen :: "socket \<Rightarrow> bool" where
  "socket_isOpen s \<longleftrightarrow> socket_fd s \<noteq> -1"

definition socket_nativeHandle :: "socket \<Rightarrow> int" where
  "socket_nativeHandle s = socket_fd s"

definition socket_close :: "'w platform \<Rightarrow> socket \<Rightarrow> 'w world \<Rightarrow> socket \<times> 'w world" where
  "socket_close P s w =
     (if socket_fd s \<noteq> -1
      then (s\<lparr>socket_fd := -1\<rparr>, snd (syscall P (SysClose (socket_fd s)) w))
      else (s, w))"

text \<open>The destructor.\<close>

definition socket_destroy :: "'w platform \<Rightarrow> socket \<Rightarrow> 'w world \<Rightarrow> 'w world" where
  "socket_destroy P s w = snd (socket_close P s w)"

text \<open>Move construction: the new object and what is left in \<open>other\<close>.\<close>

definition socket_move :: "socket \<Rightarrow> socket \<times> socket" where
  "socket_move other = (\<lparr>socket_fd = socket_fd other\<rparr>, other\<lparr>socket_fd := -1\<rparr>)"

text \<open>
  Move assignment. \<open>same\<close> is the comparison \<open>this == &other\<close>; the objects are distinct otherwise.
\<close>

definition socket_assign ::
    "bool \<Rightarrow> 'w platform \<Rightarrow> socket \<Rightarrow> socket \<Rightarrow> 'w world \<Rightarrow> socket \<times> socket \<times> 'w world" where
  "socket_assign same P this other w =
     (if \<not> same
      then (case socket_close P this w of (this1, w1) \<Rightarrow>
              (this1\<lparr>socket_fd := socket_fd other\<rparr>, other\<lparr>socket_fd := -1\<rparr>, w1))
      else (this, other, w))"

definition socket_create :: "'w platform \<Rightarrow> socket \<Rightarrow> 'w world \<Rightarrow> error \<times> socket \<times> 'w world" where
  "socket_create P s w =
     (if socket_isOpen s then (Error Success '''', s, w)
      else (case syscall P SysSocket w of (r, w1) \<Rightarrow>
        let s1 = s\<lparr>socket_fd := ret r\<rparr> in
        if socket_fd s1 = -1 then (Error SocketError (err_text r), s1, w1)
        else (Error Success '''', s1, w1)))"

text \<open>\<open>bind\<close> after the descriptor is there: \<open>setsockopt\<close>, \<open>inet_pton\<close>, \<open>::bind\<close>.\<close>

definition socket_bind_open ::
    "'w platform \<Rightarrow> socket \<Rightarrow> string \<Rightarrow> u16 \<Rightarrow> 'w world \<Rightarrow> error \<times> socket \<times> 'w world" where
  "socket_bind_open P s address port w =
     (case syscall P (SysSetReuseAddr (socket_fd s)) w of (r, w1) \<Rightarrow>
        if ret r < 0 then (Error SocketError (err_text r), s, w1)
        else (case inet_pton P (c_str address) of
            None \<Rightarrow> (Error InvalidArgument ''Invalid IPv4 address'', s, w1)
          | Some addr \<Rightarrow>
              (case syscall P
                  (SysBind (socket_fd s) \<lparr>sin_addr = addr, sin_port = htons (native P) port\<rparr>) w1
               of (r2, w2) \<Rightarrow>
                 if ret r2 < 0 then (Error SocketError (err_text r2), s, w2)
                 else (Error Success '''', s, w2))))"

definition socket_bind ::
    "'w platform \<Rightarrow> socket \<Rightarrow> string \<Rightarrow> u16 \<Rightarrow> 'w world \<Rightarrow> error \<times> socket \<times> 'w world" where
  "socket_bind P s address port w =
     (if \<not> socket_isOpen s
      then (case socket_create P s w of (e, s1, w1) \<Rightarrow>
              if \<not> error_ok e then (e, s1, w1) else socket_bind_open P s1 address port w1)
      else socket_bind_open P s address port w)"

definition socket_listen :: "'w platform \<Rightarrow> socket \<Rightarrow> int \<Rightarrow> 'w world \<Rightarrow> error \<times> 'w world" where
  "socket_listen P s backlog w =
     (if \<not> socket_isOpen s then (Error SocketError ''Socket is not open'', w)
      else if backlog \<le> 0 then (Error InvalidArgument ''Invalid listen backlog'', w)
      else (case syscall P (SysListen (socket_fd s) backlog) w of (r, w1) \<Rightarrow>
        if ret r < 0 then (Error SocketError (err_text r), w1) else (Error Success '''', w1)))"

text \<open>\<open>s.accept(client)\<close>: the accepted descriptor replaces the one \<open>client\<close> had.\<close>

definition socket_accept ::
    "'w platform \<Rightarrow> socket \<Rightarrow> socket \<Rightarrow> 'w world \<Rightarrow> error \<times> socket \<times> 'w world" where
  "socket_accept P s client w =
     (if \<not> socket_isOpen s then (Error SocketError ''Socket is not open'', client, w)
      else (case syscall P (SysAccept (socket_fd s)) w of (r, w1) \<Rightarrow>
        if ret r < 0 then (Error SocketError (err_text r), client, w1)
        else (case socket_close P client w1 of (client1, w2) \<Rightarrow>
          (Error Success '''', client1\<lparr>socket_fd := ret r\<rparr>, w2))))"

section \<open>Ownership\<close>

definition socket_owned :: "socket \<Rightarrow> int multiset" where
  "socket_owned s = (if socket_isOpen s then {#socket_fd s#} else {#})"

lemmas socket_defs = Socket_def socket_isOpen_def socket_close_def socket_owned_def

lemma socket_close_eq: "fst (socket_close P s w) = Socket"
  by (simp add: socket_defs)

lemma socket_owned_closed [simp]: "socket_owned Socket = {#}"
  by (simp add: socket_defs)

lemma socket_close_transfers: "transfers (socket_owned s) w {#} (snd (socket_close P s w))"
  by (auto simp: socket_defs)

interpretation sock: movable_resource socket_owned "\<lambda>_. True" Socket socket_close
  socket_move "socket_assign False"
  by unfold_locales
    (auto simp: socket_move_def socket_assign_def socket_defs split: if_splits)

lemma socket_create_transfers:
  assumes "socket_create P s w = (e, s', w')"
  shows "transfers (socket_owned s) w (socket_owned s') w'"
  using assms
  by (auto simp: socket_create_def socket_owned_def socket_isOpen_def Let_def
        split: if_splits prod.splits intro!: syscall_transfers)

lemma socket_create_ok:
  assumes "socket_create P s w = (e, s', w')"
  shows "error_ok e \<longleftrightarrow> socket_isOpen s'"
  using assms
  by (auto simp: socket_create_def socket_isOpen_def Let_def split: if_splits prod.splits)

lemma socket_bind_open_transfers:
  assumes "socket_bind_open P s address port w = (e, s', w')" "socket_isOpen s"
  shows "transfers (socket_owned s) w (socket_owned s') w' \<and> s' = s"
  using assms
  by (auto simp: socket_bind_open_def socket_owned_def
        split: if_splits prod.splits option.splits
        dest!: syscall_keeps intro: transfers_trans)

lemma socket_bind_transfers:
  assumes "socket_bind P s address port w = (e, s', w')"
  shows "transfers (socket_owned s) w (socket_owned s') w'"
  using assms
  by (auto simp: socket_bind_def socket_create_ok split: if_splits prod.splits
        dest: socket_create_transfers socket_bind_open_transfers intro: transfers_trans)

lemma socket_listen_transfers:
  assumes "socket_listen P s backlog w = (e, w')"
  shows "transfers (socket_owned s) w (socket_owned s) w'"
  using assms
  by (auto simp: socket_listen_def socket_owned_def split: if_splits prod.splits
        dest!: syscall_keeps)

lemma socket_accept_transfers:
  assumes "socket_accept P s client w = (e, client', w')"
  shows "transfers (socket_owned s + socket_owned client) w (socket_owned s + socket_owned client') w'"
proof (cases "socket_isOpen s \<and> 0 \<le> ret (fst (syscall P (SysAccept (socket_fd s)) w))")
  case False
  then show ?thesis
    using assms
    by (auto simp: socket_accept_def socket_owned_def split: if_splits prod.splits
          intro!: syscall_transfers)
next
  case True
  obtain r w1 where acc: "syscall P (SysAccept (socket_fd s)) w = (r, w1)" by force
  have "transfers (socket_owned s) w (socket_owned s + {#ret r#}) w1"
    using acc True by (auto simp: socket_owned_def intro!: syscall_transfers)
  note opened = transfers_frame [OF this, of "socket_owned client"]
  have "transfers (socket_owned client) w1 {#} w'"
    using assms acc True socket_close_transfers [of client w1 P]
    by (auto simp: socket_accept_def split: prod.splits)
  note closed = transfers_frame [OF this, of "socket_owned s + {#ret r#}"]
  have "socket_owned client' = {#ret r#}"
    using assms acc True by (auto simp: socket_accept_def socket_owned_def socket_isOpen_def split: prod.splits)
  with transfers_trans [OF opened, of "socket_owned s + {#ret r#}"] closed
  show ?thesis by (simp add: ac_simps)
qed


section \<open>The library prints nothing\<close>

lemma socket_close_diagnostics [simp]:
  "diagnostics (log (snd (socket_close P s w))) = diagnostics (log w)"
  by (simp add: socket_close_def syscall_diagnostics [OF prod.collapse [symmetric]])

lemma socket_close_pair_diagnostics:
  "socket_close P s w = (s', w') \<Longrightarrow> diagnostics (log w') = diagnostics (log w)"
  using socket_close_diagnostics [of P s w] by simp

lemma socket_create_diagnostics:
  "socket_create P s w = (e, s', w') \<Longrightarrow> diagnostics (log w') = diagnostics (log w)"
  by (auto simp: socket_create_def Let_def split: if_splits prod.splits dest!: syscall_diagnostics)

lemma socket_bind_diagnostics:
  "socket_bind P s address port w = (e, s', w') \<Longrightarrow> diagnostics (log w') = diagnostics (log w)"
  by (auto simp: socket_bind_def socket_bind_open_def split: if_splits prod.splits option.splits
        dest!: syscall_diagnostics socket_create_diagnostics)

lemma socket_listen_diagnostics:
  "socket_listen P s backlog w = (e, w') \<Longrightarrow> diagnostics (log w') = diagnostics (log w)"
  by (auto simp: socket_listen_def split: if_splits prod.splits dest!: syscall_diagnostics)

lemma socket_accept_diagnostics:
  "socket_accept P s client w = (e, client', w') \<Longrightarrow> diagnostics (log w') = diagnostics (log w)"
  by (auto simp: socket_accept_def split: if_splits prod.splits
        dest!: syscall_diagnostics socket_close_pair_diagnostics)

end
