(* ===== verification/Connections.thy ===== *)
theory Connections
  imports Sockets
begin

text \<open>
  \<open>packetforge::network::Connection\<close> (\<open>include/network/connection.hpp\<close>,
  \<open>src/network/connection.cpp\<close>): a socket with the logical connection state. Its invariant
  \<open>connection_inv\<close> says that a connected connection has an open socket; every operation keeps it,
  and every operation transfers the ownership of exactly the descriptors it opens and closes.
\<close>

section \<open>State and operations\<close>

record connection =
  conn_socket :: socket
  conn_connected :: bool

definition Connection :: connection where
  "Connection = \<lparr>conn_socket = Socket, conn_connected = False\<rparr>"

definition connection_isConnected :: "connection \<Rightarrow> bool" where
  "connection_isConnected c = conn_connected c"

definition connection_disconnect ::
    "'w platform \<Rightarrow> connection \<Rightarrow> 'w world \<Rightarrow> connection \<times> 'w world" where
  "connection_disconnect P c w =
     (case (if socket_isOpen (conn_socket c) then socket_close P (conn_socket c) w
            else (conn_socket c, w)) of
        (s1, w1) \<Rightarrow> (c\<lparr>conn_socket := s1, conn_connected := False\<rparr>, w1))"

text \<open>The destructor: \<open>disconnect()\<close>, then the destructor of the socket member.\<close>

definition connection_destroy :: "'w platform \<Rightarrow> connection \<Rightarrow> 'w world \<Rightarrow> 'w world" where
  "connection_destroy P c w =
     (case connection_disconnect P c w of (c1, w1) \<Rightarrow> socket_destroy P (conn_socket c1) w1)"

definition connection_move :: "connection \<Rightarrow> connection \<times> connection" where
  "connection_move other =
     (case socket_move (conn_socket other) of (s, rest) \<Rightarrow>
        (\<lparr>conn_socket = s, conn_connected = conn_connected other\<rparr>,
         other\<lparr>conn_socket := rest, conn_connected := False\<rparr>))"

definition connection_assign ::
    "bool \<Rightarrow> 'w platform \<Rightarrow> connection \<Rightarrow> connection \<Rightarrow> 'w world
       \<Rightarrow> connection \<times> connection \<times> 'w world" where
  "connection_assign same P this other w =
     (if \<not> same
      then (case connection_disconnect P this w of (this1, w1) \<Rightarrow>
        (case socket_assign False P (conn_socket this1) (conn_socket other) w1 of (s, rest, w2) \<Rightarrow>
          (this1\<lparr>conn_socket := s, conn_connected := conn_connected other\<rparr>,
           other\<lparr>conn_socket := rest, conn_connected := False\<rparr>, w2)))
      else (this, other, w))"

definition connection_open ::
    "'w platform \<Rightarrow> connection \<Rightarrow> 'w world \<Rightarrow> error \<times> connection \<times> 'w world" where
  "connection_open P c w =
     (case socket_create P (conn_socket c) w of (e, s1, w1) \<Rightarrow> (e, c\<lparr>conn_socket := s1\<rparr>, w1))"

text \<open>\<open>connect\<close> after the socket is open.\<close>

definition connection_connect_open ::
    "'w platform \<Rightarrow> connection \<Rightarrow> string \<Rightarrow> u16 \<Rightarrow> 'w world \<Rightarrow> error \<times> connection \<times> 'w world" where
  "connection_connect_open P c address port w =
     (case inet_pton P (c_str address) of
        None \<Rightarrow> (Error InvalidArgument ''Invalid IPv4 address'', c, w)
      | Some addr \<Rightarrow>
          (case syscall P
              (SysConnect (socket_nativeHandle (conn_socket c))
                 \<lparr>sin_addr = addr, sin_port = htons (native P) port\<rparr>) w
           of (r, w1) \<Rightarrow>
             if ret r < 0 then (Error ConnectionFailed (err_text r), c, w1)
             else (Error Success '''', c\<lparr>conn_connected := True\<rparr>, w1)))"

definition connection_connect ::
    "'w platform \<Rightarrow> connection \<Rightarrow> string \<Rightarrow> u16 \<Rightarrow> 'w world \<Rightarrow> error \<times> connection \<times> 'w world" where
  "connection_connect P c address port w =
     (if \<not> socket_isOpen (conn_socket c)
      then (case socket_create P (conn_socket c) w of (e, s1, w1) \<Rightarrow>
        if \<not> error_ok e then (e, c\<lparr>conn_socket := s1\<rparr>, w1)
        else connection_connect_open P (c\<lparr>conn_socket := s1\<rparr>) address port w1)
      else connection_connect_open P c address port w)"

definition connection_accept ::
    "'w platform \<Rightarrow> connection \<Rightarrow> socket \<Rightarrow> 'w world \<Rightarrow> error \<times> connection \<times> 'w world" where
  "connection_accept P c listening w =
     (if \<not> socket_isOpen listening then (Error SocketError ''Listening socket is not open'', c, w)
      else if conn_connected c
      then (Error ConnectionFailed ''Connection is already established'', c, w)
      else (case socket_accept P listening (conn_socket c) w of (e, s1, w1) \<Rightarrow>
        if \<not> error_ok e then (e, c\<lparr>conn_socket := s1\<rparr>, w1)
        else (Error Success '''', c\<lparr>conn_socket := s1, conn_connected := True\<rparr>, w1)))"

section \<open>Invariant and ownership\<close>

definition connection_inv :: "connection \<Rightarrow> bool" where
  "connection_inv c \<longleftrightarrow> (conn_connected c \<longrightarrow> socket_isOpen (conn_socket c))"

definition connection_owned :: "connection \<Rightarrow> int multiset" where
  "connection_owned c = socket_owned (conn_socket c)"

lemmas connection_defs = Connection_def connection_inv_def connection_owned_def
  connection_isConnected_def

lemma socket_closed_iff: "\<not> socket_isOpen s \<longleftrightarrow> s = Socket"
  by (cases s) (simp add: socket_isOpen_def Socket_def)

lemma connection_disconnect_eq:
  "connection_disconnect P c w = (Connection, snd (socket_close P (conn_socket c) w))"
  by (cases c) (auto simp: connection_disconnect_def Connection_def socket_defs
    split: prod.splits if_splits)

lemma connection_move_eq: "connection_move c = (c, Connection)"
  by (cases c; cases "conn_socket c") (simp add: connection_move_def socket_move_def Connection_def Socket_def)

interpretation conn: movable_resource connection_owned connection_inv Connection
  connection_disconnect connection_move "connection_assign False"
proof unfold_locales
  fix r :: connection and P :: "'b platform" and w
  show "connection_inv Connection" "connection_owned Connection = {#}"
    by (simp_all add: connection_defs)
  show "fst (connection_disconnect P r w) = Connection" by (simp add: connection_disconnect_eq)
  show "snd (connection_disconnect P r w) = w" if "connection_owned r = {#}"
    using that by (simp add: connection_disconnect_eq connection_owned_def sock.release_idle)
  show "transfers (connection_owned r) w {#} (snd (connection_disconnect P r w))"
    by (simp add: connection_disconnect_eq connection_owned_def socket_close_transfers)
  show "connection_move r = (r, Connection)" by (rule connection_move_eq)
next
  fix this other :: connection and P :: "'b platform" and w
  have idle: "socket_close P Socket u = (Socket, u)" for u
    by (simp add: socket_defs)
  show "connection_assign False P this other w =
      (fst (connection_move other), snd (connection_move other), snd (connection_disconnect P this w))"
    unfolding connection_move_eq connection_assign_def connection_disconnect_eq
    by (simp add: socket_assign_def Connection_def idle) (simp add: Socket_def)
qed

lemma connection_destroy_eq: "connection_destroy P c w = snd (connection_disconnect P c w)"
  by (simp add: connection_destroy_def connection_disconnect_eq Connection_def socket_destroy_def
        socket_defs)

lemma connection_open_transfers:
  assumes "connection_open P c w = (e, c', w')"
  shows "transfers (connection_owned c) w (connection_owned c') w'"
  using assms
  by (auto simp: connection_open_def connection_owned_def split: prod.splits
        dest: socket_create_transfers)

lemma connection_connect_open_transfers:
  assumes "connection_connect_open P c address port w = (e, c', w')" "socket_isOpen (conn_socket c)"
  shows "transfers (connection_owned c) w (connection_owned c') w'"
  using assms
  by (auto simp: connection_connect_open_def connection_owned_def socket_owned_def
        socket_nativeHandle_def split: option.splits prod.splits if_splits dest!: syscall_keeps)

lemma connection_connect_transfers:
  assumes "connection_connect P c address port w = (e, c', w')"
  shows "transfers (connection_owned c) w (connection_owned c') w'"
proof (cases "socket_isOpen (conn_socket c)")
  case True
  then show ?thesis
    using assms by (auto simp: connection_connect_def dest: connection_connect_open_transfers)
next
  case False
  obtain e1 s1 w1 where cr: "socket_create P (conn_socket c) w = (e1, s1, w1)"
    by (metis prod_cases3)
  from socket_create_transfers [OF cr]
  have t: "transfers (connection_owned c) w (connection_owned (c\<lparr>conn_socket := s1\<rparr>)) w1"
    by (simp add: connection_owned_def)
  show ?thesis
  proof (cases "error_ok e1")
    case True
    then have "socket_isOpen s1" using socket_create_ok [OF cr] by simp
    with True show ?thesis
      using assms False cr t
      by (auto simp: connection_connect_def intro: transfers_trans [OF t]
            dest!: connection_connect_open_transfers)
  next
    case False
    then show ?thesis using assms \<open>\<not> socket_isOpen (conn_socket c)\<close> cr t
      by (simp add: connection_connect_def)
  qed
qed

lemma connection_accept_transfers:
  assumes "connection_accept P c s w = (e, c', w')"
  shows "transfers (socket_owned s + connection_owned c) w (socket_owned s + connection_owned c') w'"
  using assms
  by (auto simp: connection_accept_def connection_owned_def split: if_splits prod.splits
        dest!: socket_accept_transfers)

section \<open>The invariant is kept\<close>

lemma socket_accept_result:
  assumes "socket_accept P s client w = (e, client', w')"
  shows "if error_ok e then socket_isOpen client' else client' = client"
  using assms
  by (auto simp: socket_accept_def socket_isOpen_def split: if_splits prod.splits)

lemma connection_open_inv:
  "connection_inv c \<Longrightarrow> connection_open P c w = (e, c', w') \<Longrightarrow> connection_inv c'"
  by (auto simp: connection_open_def connection_inv_def socket_create_def split: prod.splits if_splits)

lemma connection_connect_open_result:
  assumes "connection_connect_open P c address port w = (e, c', w')"
  shows "conn_socket c' = conn_socket c \<and> conn_connected c' = (conn_connected c \<or> error_ok e)"
  using assms by (auto simp: connection_connect_open_def split: option.splits prod.splits if_splits)

lemma connection_connect_result:
  assumes "connection_connect P c address port w = (e, c', w')"
  shows "conn_connected c' = (conn_connected c \<or> error_ok e) \<and>
    (error_ok e \<longrightarrow> socket_isOpen (conn_socket c')) \<and>
    (socket_isOpen (conn_socket c) \<longrightarrow> conn_socket c' = conn_socket c)"
  using assms
  by (auto simp: connection_connect_def split: if_splits prod.splits
        dest!: connection_connect_open_result dest: socket_create_ok)

lemma connection_connect_inv:
  "connection_inv c \<Longrightarrow> connection_connect P c address port w = (e, c', w') \<Longrightarrow> connection_inv c'"
  by (auto simp: connection_inv_def dest: connection_connect_result)

lemma connection_accept_result:
  assumes "connection_accept P c s w = (e, c', w')"
  shows "if error_ok e then connection_isConnected c' \<and> socket_isOpen (conn_socket c') else c' = c"
  using assms
  by (auto simp: connection_accept_def connection_isConnected_def split: if_splits prod.splits
        dest!: socket_accept_result)

lemma connection_accept_inv:
  "connection_inv c \<Longrightarrow> connection_accept P c s w = (e, c', w') \<Longrightarrow> connection_inv c'"
  by (drule connection_accept_result) (auto simp: connection_defs split: if_splits)

lemma connection_disconnect_inv: "connection_inv (fst (connection_disconnect P c w))"
  by (simp add: connection_disconnect_eq conn.fresh_inv)

lemma connection_disconnected:
  "connection_disconnect P c w = (c', w') \<Longrightarrow> \<not> connection_isConnected c' \<and> c' = Connection"
  by (auto simp: connection_disconnect_eq connection_defs)


lemma connection_disconnect_diagnostics [simp]:
  "diagnostics (log (snd (connection_disconnect P c w))) = diagnostics (log w)"
  by (simp add: connection_disconnect_eq)

lemma connection_accept_diagnostics:
  "connection_accept P c s w = (e, c', w') \<Longrightarrow> diagnostics (log w') = diagnostics (log w)"
  by (auto simp: connection_accept_def split: if_splits prod.splits dest!: socket_accept_diagnostics)

lemma connection_connect_diagnostics:
  "connection_connect P c host port w = (e, c', w') \<Longrightarrow> diagnostics (log w') = diagnostics (log w)"
  by (auto simp: connection_connect_def connection_connect_open_def
        split: if_splits prod.splits option.splits
        dest!: syscall_diagnostics socket_create_diagnostics)

end
