(* ===== verification/Simulation.thy ===== *)
theory Simulation
  imports Platform
begin

text \<open>
  One concrete kernel, on which the witnesses evaluate the model: it keeps the documented bounds
  (\<open>sim_kernel_ok\<close>), hands out the pieces of an inbox one \<open>recv\<close> at a time and reports an orderly
  close when the inbox is empty, accepts at most \<open>window\<close> bytes per \<open>send\<close> (none: \<open>send\<close> fails), and
  answers the other calls from a list of return values, then with 0. No theorem depends on it
  except the witnesses.
\<close>

record sim =
  rets :: "int list"
  inbox :: "bytes list"
  window :: nat
  signals :: "bool list"

definition sim_reply :: "endianness \<Rightarrow> int \<Rightarrow> bytes \<Rightarrow> reply" where
  "sim_reply h n bs =
     \<lparr>ret = n, err_text = ''simulated failure'', err_EINTR = False, err_ECONNRESET = True,
       stored = bs, stored_port = htons h 9090\<rparr>"

definition sim_recv :: "endianness \<Rightarrow> nat \<Rightarrow> sim \<Rightarrow> reply \<times> sim" where
  "sim_recv h n k =
     (case inbox k of
        [] \<Rightarrow> (sim_reply h 0 [], k)
      | p # ps \<Rightarrow>
          (sim_reply h (int (length (take n p))) (take n p),
           k\<lparr>inbox := (if drop n p = [] then ps else drop n p # ps)\<rparr>))"

fun sim_serve :: "endianness \<Rightarrow> request \<Rightarrow> sim \<Rightarrow> reply \<times> sim" where
  "sim_serve h (SysSend fd bs) k =
     (sim_reply h (if window k = 0 then -1 else int (min (window k) (length bs))) [], k)"
| "sim_serve h (SysRecv fd n) k = sim_recv h n k"
| "sim_serve h c k =
     (case rets k of
        [] \<Rightarrow> (sim_reply h 0 [], k)
      | r # rs \<Rightarrow> (sim_reply h (max (-1) r) [], k\<lparr>rets := rs\<rparr>))"

definition sim_inet_pton :: "string \<Rightarrow> u32 option" where
  "sim_inet_pton s = (if s = ''127.0.0.1'' then Some 0x0100007F else None)"

definition sim_interrupted :: "sim \<Rightarrow> bool \<times> sim" where
  "sim_interrupted k =
     (case signals k of [] \<Rightarrow> (False, k) | b # bs \<Rightarrow> (b, k\<lparr>signals := bs\<rparr>))"

definition sim_platform :: "endianness \<Rightarrow> sim platform" where
  "sim_platform h = \<lparr>native = h, serve = sim_serve h, inet_pton = sim_inet_pton,
     interrupted = sim_interrupted\<rparr>"

definition sim_world :: "int list \<Rightarrow> bytes list \<Rightarrow> nat \<Rightarrow> bool list \<Rightarrow> sim world" where
  "sim_world rs ps n sigs =
     \<lparr>kernel = \<lparr>rets = rs, inbox = ps, window = n, signals = sigs\<rparr>, log = []\<rparr>"

lemma sim_reply_simps [simp]:
  "ret (sim_reply h n bs) = n" "stored (sim_reply h n bs) = bs"
  "err_text (sim_reply h n bs) = ''simulated failure''" "stored_port (sim_reply h n bs) = htons h 9090"
  by (simp_all add: sim_reply_def)

lemma sim_reply_ok: "reply_ok c (fst (sim_serve h c k))"
  by (cases "(h, c, k)" rule: sim_serve.cases)
    (auto simp: reply_ok_def sim_recv_def split: list.splits)

lemma sim_kernel_ok: "kernel_ok (sim_platform h)"
  by (simp add: kernel_ok_def sim_platform_def sim_reply_ok)

text \<open>An inbox of non-empty pieces delivers their concatenation.\<close>

lemma sim_delivers:
  "\<forall>p \<in> set (inbox k). p \<noteq> [] \<Longrightarrow> delivers (sim_platform h) fd (concat (inbox k)) k"
proof (induction "length (concat (inbox k))" arbitrary: k rule: less_induct)
  case less
  show ?case
  proof (cases "inbox k")
    case Nil
    then show ?thesis by (simp add: delivers.nothing_left)
  next
    case (Cons p ps)
    have p: "p \<noteq> []" using less.prems Cons by simp
    show ?thesis
    proof (rule delivers.next_piece)
      fix n :: nat assume n: "0 < n"
      let ?k = "k\<lparr>inbox := (if drop n p = [] then ps else drop n p # ps)\<rparr>"
      let ?m = "length (take n p)"
      have dr: "concat (inbox ?k) = drop ?m (concat (inbox k))"
        using Cons by (auto simp: min_def)
      have "length (concat (inbox ?k)) < length (concat (inbox k))"
        using n p Cons unfolding dr by (auto simp: min_def)
      moreover have "\<forall>q \<in> set (inbox ?k). q \<noteq> []" using less.prems Cons by auto
      ultimately have "delivers (sim_platform h) fd (concat (inbox ?k)) ?k" by (rule less.hyps)
      then show "\<exists>m r k'. serve (sim_platform h) (SysRecv fd n) k = (r, k') \<and> ret r = int m \<and>
          0 < m \<and> m \<le> n \<and> m \<le> length (concat (inbox k)) \<and> stored r = take m (concat (inbox k)) \<and>
          delivers (sim_platform h) fd (drop m (concat (inbox k))) k'"
        using n p Cons dr
        by (intro exI [of _ ?m] exI [of _ "sim_reply h (int ?m) (take n p)"] exI [of _ ?k])
          (auto simp: sim_platform_def sim_recv_def min_def)
    qed
  qed
qed

end
