(* ===== verification/Servers.thy ===== *)
theory Servers
  imports Connections Simulation
begin

text \<open>
  \<open>packetforge::server::Server\<close> (\<open>include/server/server.hpp\<close>, \<open>src/server/server.cpp\<close>): a listening
  socket, whether it runs, and the port the kernel gave it. \<open>server_inv\<close> ties the three: the server
  runs exactly when its socket is open, and a server that does not run reports port 0.
\<close>

record server =
  sv_socket :: socket
  sv_running :: bool
  sv_port :: u16

definition Server :: server where
  "Server = \<lparr>sv_socket = Socket, sv_running = False, sv_port = 0\<rparr>"

text \<open>\<open>SOMAXCONN\<close> of the Linux headers.\<close>

definition SOMAXCONN :: int where
  "SOMAXCONN = 4096"

definition server_stop :: "'w platform \<Rightarrow> server \<Rightarrow> 'w world \<Rightarrow> server \<times> 'w world" where
  "server_stop P s w =
     (case (if socket_isOpen (sv_socket s) then socket_close P (sv_socket s) w
            else (sv_socket s, w)) of
        (s1, w1) \<Rightarrow> (s\<lparr>sv_socket := s1, sv_running := False, sv_port := 0\<rparr>, w1))"

text \<open>The destructor: \<open>stop()\<close>, then the destructor of the socket member.\<close>

definition server_destroy :: "'w platform \<Rightarrow> server \<Rightarrow> 'w world \<Rightarrow> 'w world" where
  "server_destroy P s w =
     (case server_stop P s w of (s1, w1) \<Rightarrow> socket_destroy P (sv_socket s1) w1)"

definition server_move :: "server \<Rightarrow> server \<times> server" where
  "server_move other =
     (case socket_move (sv_socket other) of (s, rest) \<Rightarrow>
        (\<lparr>sv_socket = s, sv_running = sv_running other, sv_port = sv_port other\<rparr>,
         other\<lparr>sv_socket := rest, sv_running := False, sv_port := 0\<rparr>))"

definition server_assign ::
    "bool \<Rightarrow> 'w platform \<Rightarrow> server \<Rightarrow> server \<Rightarrow> 'w world \<Rightarrow> server \<times> server \<times> 'w world" where
  "server_assign same P this other w =
     (if \<not> same
      then (case server_stop P this w of (this1, w1) \<Rightarrow>
        (case socket_assign False P (sv_socket this1) (sv_socket other) w1 of (s, rest, w2) \<Rightarrow>
          (this1\<lparr>sv_socket := s, sv_running := sv_running other, sv_port := sv_port other\<rparr>,
           other\<lparr>sv_socket := rest, sv_running := False, sv_port := 0\<rparr>, w2)))
      else (this, other, w))"

text \<open>The failure branches of \<open>start\<close> after the socket exists: close it, forget the port.\<close>

definition server_start_failed ::
    "'w platform \<Rightarrow> server \<Rightarrow> error \<Rightarrow> 'w world \<Rightarrow> error \<times> server \<times> 'w world" where
  "server_start_failed P s e w =
     (case socket_close P (sv_socket s) w of (s1, w1) \<Rightarrow>
        (e, s\<lparr>sv_socket := s1, sv_port := 0\<rparr>, w1))"

text \<open>\<open>start\<close> after \<open>create\<close> and \<open>bind\<close>: \<open>listen\<close>, \<open>getsockname\<close>, and the running state.\<close>

definition server_start_listening ::
    "'w platform \<Rightarrow> server \<Rightarrow> 'w world \<Rightarrow> error \<times> server \<times> 'w world" where
  "server_start_listening P s w =
     (case socket_listen P (sv_socket s) SOMAXCONN w of (e, w1) \<Rightarrow>
        if \<not> error_ok e then server_start_failed P s e w1
        else (case syscall P (SysGetsockname (socket_nativeHandle (sv_socket s))) w1 of (r, w2) \<Rightarrow>
          if ret r < 0 then server_start_failed P s (Error SocketError (err_text r)) w2
          else (Error Success '''',
            s\<lparr>sv_port := ntohs (native P) (stored_port r), sv_running := True\<rparr>, w2)))"

definition server_start ::
    "'w platform \<Rightarrow> server \<Rightarrow> string \<Rightarrow> u16 \<Rightarrow> 'w world \<Rightarrow> error \<times> server \<times> 'w world" where
  "server_start P s address port w =
     (if sv_running s then (Error SocketError ''Server is already running'', s, w)
      else (case socket_create P (sv_socket s) w of (e, sock, w1) \<Rightarrow>
        let s1 = s\<lparr>sv_socket := sock\<rparr> in
        if \<not> error_ok e then (e, s1\<lparr>sv_port := 0\<rparr>, w1)
        else (case socket_bind P (sv_socket s1) address port w1 of (e2, sock2, w2) \<Rightarrow>
          let s2 = s1\<lparr>sv_socket := sock2\<rparr> in
          if \<not> error_ok e2 then server_start_failed P s2 e2 w2
          else server_start_listening P s2 w2)))"

definition server_isRunning :: "server \<Rightarrow> bool" where
  "server_isRunning s = sv_running s"

text \<open>\<open>Server::port()\<close>; its name here avoids the one of the port argument.\<close>

definition server_port :: "server \<Rightarrow> u16" where
  "server_port s = sv_port s"

definition server_accept ::
    "'w platform \<Rightarrow> server \<Rightarrow> connection \<Rightarrow> 'w world \<Rightarrow> error \<times> connection \<times> 'w world" where
  "server_accept P s c w =
     (if \<not> sv_running s then (Error ConnectionFailed ''Server is not running'', c, w)
      else connection_accept P c (sv_socket s) w)"

section \<open>Invariant and ownership\<close>

definition server_inv :: "server \<Rightarrow> bool" where
  "server_inv s \<longleftrightarrow> (sv_running s \<longleftrightarrow> socket_isOpen (sv_socket s)) \<and> (\<not> sv_running s \<longrightarrow> sv_port s = 0)"

definition server_owned :: "server \<Rightarrow> int multiset" where
  "server_owned s = socket_owned (sv_socket s)"

lemmas server_defs = Server_def server_inv_def server_owned_def

lemma server_stop_eq: "server_stop P s w = (Server, snd (socket_close P (sv_socket s) w))"
  by (cases s) (auto simp: server_stop_def Server_def socket_defs split: prod.splits if_splits)

lemma server_move_eq: "server_move s = (s, Server)"
  by (cases s; cases "sv_socket s") (simp add: server_move_def socket_move_def Server_def Socket_def)

interpretation srv: movable_resource server_owned server_inv Server
  server_stop server_move "server_assign False"
proof unfold_locales
  fix r this other :: server and P :: "'b platform" and w
  have idle: "socket_close P Socket u = (Socket, u)" for u
    by (simp add: socket_defs)
  show "server_inv Server" "server_owned Server = {#}"
    by (simp_all add: server_defs socket_isOpen_def Socket_def socket_owned_def)
  show "fst (server_stop P r w) = Server" by (simp add: server_stop_eq)
  show "server_move r = (r, Server)" by (rule server_move_eq)
  show "snd (server_stop P r w) = w" if "server_owned r = {#}"
    using that by (simp add: server_stop_eq server_owned_def sock.release_idle)
  show "transfers (server_owned r) w {#} (snd (server_stop P r w))"
    by (simp add: server_stop_eq server_owned_def socket_close_transfers)
  show "server_assign False P this other w =
      (fst (server_move other), snd (server_move other), snd (server_stop P this w))"
    unfolding server_move_eq server_assign_def server_stop_eq
    by (simp add: socket_assign_def Server_def idle) (simp add: Socket_def)
qed

lemma server_destroy_eq: "server_destroy P s w = snd (server_stop P s w)"
  by (simp add: server_destroy_def server_stop_eq Server_def socket_destroy_def socket_defs)

lemma server_start_failed_transfers:
  "server_start_failed P s e w = (e', s', w') \<Longrightarrow> transfers (server_owned s) w {#} w' \<and> e' = e \<and>
    s' = s\<lparr>sv_socket := Socket, sv_port := 0\<rparr>"
  using socket_close_transfers [of "sv_socket s" w P] socket_close_eq [of P "sv_socket s" w]
  by (auto simp: server_start_failed_def server_owned_def split: prod.splits)

lemma server_start_failed_reset:
  assumes "server_start_failed P s e w = (e', s', w')" "\<not> sv_running s"
  shows "e' = e \<and> s' = Server \<and> transfers (server_owned s) w (server_owned s') w'"
  using server_start_failed_transfers [OF assms(1)] assms(2) srv.owned_fresh
  by (cases s) (auto simp: Server_def)

lemma server_start_listening_result:
  assumes "server_start_listening P s w = (e, s', w')" "\<not> sv_running s" "socket_isOpen (sv_socket s)"
  shows "transfers (server_owned s) w (server_owned s') w' \<and>
    (if error_ok e
     then sv_running s' \<and> sv_socket s' = sv_socket s \<and>
       (\<exists>es r. log w' = es @ [Sys (SysGetsockname (socket_fd (sv_socket s))) r] \<and>
          server_port s' = ntohs (native P) (stored_port r))
     else s' = Server)"
proof -
  obtain e1 w1 where l: "socket_listen P (sv_socket s) SOMAXCONN w = (e1, w1)" by force
  obtain r w2 where g: "syscall P (SysGetsockname (socket_nativeHandle (sv_socket s))) w1 = (r, w2)"
    by force
  have t1: "transfers (server_owned s) w (server_owned s) w1"
    using socket_listen_transfers [OF l] by (simp add: server_owned_def)
  have t2: "transfers (server_owned s) w (server_owned s) w2"
    using transfers_trans [OF t1] syscall_keeps(5) [OF g] assms(3)
    by (simp add: server_owned_def socket_owned_def socket_nativeHandle_def)
  show ?thesis
    using assms l g t1 t2 transfers_trans [OF t1] transfers_trans [OF t2]
    by (auto simp: server_start_listening_def server_owned_def server_port_def kernel_simps
          socket_nativeHandle_def split: if_splits dest!: server_start_failed_reset)
qed

lemma socket_bind_open_keeps:
  "socket_isOpen s \<Longrightarrow> socket_bind P s address port w = (e, s', w') \<Longrightarrow> s' = s"
  by (auto simp: socket_bind_def dest: socket_bind_open_transfers)

lemma server_start_result:
  assumes "server_start P s address port w = (e, s', w')" "server_inv s"
  shows "transfers (server_owned s) w (server_owned s') w' \<and>
    (if sv_running s then \<not> error_ok e \<and> s' = s
     else if error_ok e
     then sv_running s' \<and> socket_isOpen (sv_socket s') \<and>
       (\<exists>es r. log w' = es @ [Sys (SysGetsockname (socket_fd (sv_socket s'))) r] \<and>
          server_port s' = ntohs (native P) (stored_port r))
     else s' = Server)"
proof (cases "sv_running s")
  case True
  then show ?thesis using assms(1) by (auto simp: server_start_def)
next
  case False
  then have s: "s = Server"
    using assms(2) by (cases s) (auto simp: server_inv_def Server_def socket_closed_iff)
  obtain e1 s1 w1 where c: "socket_create P Socket w = (e1, s1, w1)" by (metis prod_cases3)
  note ct = socket_create_transfers [OF c] and co = socket_create_ok [OF c]
  show ?thesis
  proof (cases "error_ok e1")
    case ok1: False
    then have "s1 = Socket" using co socket_closed_iff by blast
    then show ?thesis
      using assms(1) c ct ok1 s by (auto simp: server_start_def Server_def server_owned_def)
  next
    case ok1: True
    obtain e2 s2 w2 where b: "socket_bind P s1 address port w1 = (e2, s2, w2)" by (metis prod_cases3)
    have s2: "s2 = s1" "socket_isOpen s1" using socket_bind_open_keeps [OF _ b] ok1 co by auto
    have t2: "transfers (server_owned s) w (socket_owned s1) w2"
      using transfers_trans [OF ct socket_bind_transfers [OF b]] s s2
      by (simp add: Server_def server_owned_def)
    have "transfers (server_owned (Server\<lparr>sv_socket := s1\<rparr>)) w2 (server_owned s') w' \<and>
      (if error_ok e
       then sv_running s' \<and> sv_socket s' = s1 \<and>
         (\<exists>es r. log w' = es @ [Sys (SysGetsockname (socket_fd s1)) r] \<and>
            server_port s' = ntohs (native P) (stored_port r))
       else s' = Server)"
      using assms(1) c ok1 b s s2
        server_start_listening_result [of P "Server\<lparr>sv_socket := s1\<rparr>" w2 e s' w']
        server_start_failed_reset [of P "Server\<lparr>sv_socket := s1\<rparr>" e2 w2 e s' w']
      by (auto simp: server_start_def Server_def Let_def split: if_splits)
    then show ?thesis
      using transfers_trans [OF t2] s s2 by (auto simp: server_owned_def Server_def split: if_splits)
  qed
qed

lemma server_start_inv:
  "server_start P s address port w = (e, s', w') \<Longrightarrow> server_inv s \<Longrightarrow> server_inv s'"
  using server_start_result [of P s address port w e s' w'] srv.fresh_inv
  by (auto simp: server_inv_def split: if_splits)

lemma server_stop_inv: "server_inv (fst (server_stop P s w))"
  by (simp add: server_stop_eq srv.fresh_inv)

lemma server_accept_transfers:
  assumes "server_accept P s c w = (e, c', w')"
  shows "transfers (server_owned s + connection_owned c) w (server_owned s + connection_owned c') w'"
  using assms connection_accept_transfers [of P c "sv_socket s" w e c' w']
  by (auto simp: server_accept_def server_owned_def split: if_splits)

lemma server_accept_result:
  assumes "server_accept P s c w = (e, c', w')"
  shows "if error_ok e then sv_running s \<and> connection_isConnected c' \<and> connection_inv c' else c' = c"
  using assms connection_accept_result [of P c "sv_socket s" w e c' w']
  by (auto simp: server_accept_def connection_inv_def split: if_splits)


lemma server_start_failed_diagnostics:
  "server_start_failed P s e w = (e', s', w') \<Longrightarrow> diagnostics (log w') = diagnostics (log w)"
  by (auto simp: server_start_failed_def split: prod.splits dest: socket_close_pair_diagnostics)

lemma server_start_diagnostics:
  "server_start P s address port w = (e, s', w') \<Longrightarrow> diagnostics (log w') = diagnostics (log w)"
  by (auto simp: server_start_def server_start_listening_def Let_def split: if_splits prod.splits
        dest!: server_start_failed_diagnostics socket_create_diagnostics socket_bind_diagnostics
          socket_listen_diagnostics syscall_diagnostics)

lemma server_accept_diagnostics:
  "server_accept P s c w = (e, c', w') \<Longrightarrow> diagnostics (log w') = diagnostics (log w)"
  by (auto simp: server_accept_def split: if_splits dest: connection_accept_diagnostics)

section \<open>Properties\<close>

text \<open>
  Starting a server has three outcomes. A running server refuses and nothing happens. On \<open>Success\<close>
  the server runs on one new open listening socket, and its port is the one \<open>getsockname\<close> stored,
  read from network byte order (so binding to port 0 reports the port the kernel chose). On any
  failure the server is back in its initial state and every descriptor that was opened is closed.
\<close>

theorem server_start_outcomes:
  assumes "server_inv s" "server_start P s address port w = (e, s', w')"
  shows "if server_isRunning s
    then e = Error SocketError ''Server is already running'' \<and> s' = s \<and> w' = w
    else if error_ok e
    then server_isRunning s' \<and> server_inv s' \<and>
      transfers {#} w {#socket_fd (sv_socket s')#} w' \<and>
      (\<exists>es r. log w' = es @ [Sys (SysGetsockname (socket_fd (sv_socket s'))) r] \<and>
         server_port s' = ntohs (native P) (stored_port r))
    else s' = Server \<and> transfers {#} w {#} w'"
proof (cases "server_isRunning s")
  case True
  then show ?thesis using assms(2) by (simp add: server_start_def server_isRunning_def)
next
  case False
  have o: "server_owned s = {#}"
    using assms(1) False by (simp add: server_defs server_isRunning_def socket_owned_def)
  show ?thesis
    using server_start_result [OF assms(2,1)] server_start_inv [OF assms(2,1)] False srv.owned_fresh
    unfolding o
    by (auto simp: server_isRunning_def server_owned_def socket_owned_def split: if_splits)
qed

theorem server_start_outcomes_witness:
  "\<exists>s' w'. server_start (sim_platform Little) Server ''127.0.0.1'' 0 (sim_world [7] [] 0 []) =
      (Error Success '''', s', w') \<and> server_isRunning s' \<and> server_port s' = 9090 \<and>
      transfers {#} (sim_world [7] [] 0 []) {#7#} w'"
proof -
  let ?r = "server_start (sim_platform Little) Server ''127.0.0.1'' 0 (sim_world [7] [] 0 [])"
  have r: "?r = (Error Success '''',
      \<lparr>sv_socket = \<lparr>socket_fd = 7\<rparr>, sv_running = True, sv_port = 9090\<rparr>, snd (snd ?r))"
    by code_simp
  have "\<not> server_isRunning Server" by (simp add: server_isRunning_def Server_def)
  with server_start_outcomes [OF srv.fresh_inv r]
  have "transfers {#} (sim_world [7] [] 0 []) {#7#} (snd (snd ?r))" by simp
  with r show ?thesis by (intro exI conjI) (auto simp: server_isRunning_def server_port_def)
qed

text \<open>
  C36. Accepting. A server that does not run refuses without a system call. Otherwise \<open>Success\<close> gives
  a connected connection with an open socket, on a descriptor that nothing else owns; every failure
  leaves the caller's connection as it was. The listening socket is never touched.
\<close>

theorem server_accept_outcomes:
  assumes "connection_inv c" "server_accept P s c w = (e, c', w')"
  shows "connection_inv c' \<and>
    transfers (server_owned s + connection_owned c) w (server_owned s + connection_owned c') w' \<and>
    (if \<not> server_isRunning s
     then e = Error ConnectionFailed ''Server is not running'' \<and> c' = c \<and> w' = w
     else if error_ok e then connection_isConnected c' else c' = c)"
  using assms server_accept_transfers [OF assms(2)] server_accept_result [OF assms(2)]
  by (auto simp: server_accept_def server_isRunning_def split: if_splits)

theorem server_accept_outcomes_witness:
  "\<exists>w'. server_accept (sim_platform Big)
      \<lparr>sv_socket = \<lparr>socket_fd = 7\<rparr>, sv_running = True, sv_port = 9090\<rparr> Connection (sim_world [8] [] 0 []) =
      (Error Success '''', \<lparr>conn_socket = \<lparr>socket_fd = 8\<rparr>, conn_connected = True\<rparr>, w') \<and>
    transfers {#7#} (sim_world [8] [] 0 []) {#7, 8#} w'"
proof -
  let ?s = "\<lparr>sv_socket = \<lparr>socket_fd = 7\<rparr>, sv_running = True, sv_port = 9090\<rparr>"
  let ?r = "server_accept (sim_platform Big) ?s Connection (sim_world [8] [] 0 [])"
  have r: "?r = (Error Success '''', \<lparr>conn_socket = \<lparr>socket_fd = 8\<rparr>, conn_connected = True\<rparr>,
      snd (snd ?r))"
    by code_simp
  from server_accept_outcomes [OF conn.fresh_inv r] r show ?thesis
    by (auto simp: server_owned_def connection_owned_def socket_owned_def socket_isOpen_def
        Connection_def Socket_def add_mset_commute)
qed

text \<open>
  Stopping and moving servers loses no descriptor. \<open>stop\<close> gives the initial state and closes what
  the server owned; a second \<open>stop\<close> does nothing; the destructor does what \<open>stop\<close> does. Move
  construction hands everything over, and move assignment first stops the target; after either, the
  source is a server that can be started again.
\<close>

theorem server_stop_and_move:
  "server_stop P s w = (Server, server_destroy P s w) \<and>
   transfers (server_owned s) w {#} (server_destroy P s w) \<and>
   server_stop P Server w = (Server, w) \<and>
   server_move s = (s, Server) \<and>
   server_assign False P target s w = (s, Server, server_destroy P target w) \<and>
   server_assign True P s s w = (s, s, w)"
proof (intro conjI)
  have idle: "socket_close P Socket u = (Socket, u)" for u
    by (simp add: socket_defs)
  show "server_stop P s w = (Server, server_destroy P s w)"
    by (simp add: server_destroy_eq server_stop_eq)
  show "transfers (server_owned s) w {#} (server_destroy P s w)"
    by (simp add: server_destroy_eq server_stop_eq server_owned_def socket_close_transfers)
  show "server_stop P Server w = (Server, w)"
    by (simp add: server_stop_eq Server_def idle)
  show "server_move s = (s, Server)" by (rule server_move_eq)
  show "server_assign False P target s w = (s, Server, server_destroy P target w)"
    unfolding server_assign_def server_stop_eq server_destroy_eq
    by (cases s) (simp add: socket_assign_def Server_def idle, simp add: Socket_def)
  show "server_assign True P s s w = (s, s, w)" by (simp add: server_assign_def)
qed

end
