(* ===== verification/Byte_Stream.thy ===== *)
theory Byte_Stream
  imports Platform
begin

text \<open>
  The contract between the packet layer and what carries its bytes: \<open>put\<close> sends a whole block, \<open>get\<close>
  receives a block of a given size, and the log tells which bytes went over the wire. The packet
  layer's lemmas about consecutive blocks are proved here once; \<open>Transports\<close> interprets the locale
  on the model of \<open>network::Transport\<close>.
\<close>

locale byte_stream =
  fixes handle :: "'t \<Rightarrow> int"
    and connected :: "'t \<Rightarrow> bool"
    and put :: "'w platform \<Rightarrow> 't \<Rightarrow> bytes \<Rightarrow> 'w world \<Rightarrow> error \<times> 'w world"
    and get :: "'w platform \<Rightarrow> 't \<Rightarrow> bytes \<Rightarrow> nat \<Rightarrow> 'w world \<Rightarrow> error \<times> bytes \<times> 't \<times> 'w world"
  assumes put_ok: "kernel_ok P \<Longrightarrow> put P t bs w = (e, w') \<Longrightarrow> error_ok e \<Longrightarrow>
      connected t \<and> sent (handle t) (log w') = sent (handle t) (log w) @ bs"
    and put_fails: "put P t bs w = (e, w') \<Longrightarrow> \<not> error_ok e \<Longrightarrow>
      error_code e = (if connected t then SocketError else ConnectionFailed)"
    and get_ok: "kernel_ok P \<Longrightarrow> get P t [] n w = (e, bs, t', w') \<Longrightarrow> error_ok e \<Longrightarrow>
      connected t \<and> t' = t \<and> length bs = n \<and>
      received (handle t) (log w') = received (handle t) (log w) @ bs"
    and get_fails: "get P t [] n w = (e, bs, t', w') \<Longrightarrow> \<not> error_ok e \<Longrightarrow>
      error_code e \<in> {SocketError, ConnectionClosed, ConnectionFailed}"
    and get_delivers: "connected t \<Longrightarrow> delivers P (handle t) bs (kernel w) \<Longrightarrow> n \<le> length bs \<Longrightarrow>
      \<exists>w'. get P t [] n w = (Error Success '''', take n bs, t, w') \<and>
        delivers P (handle t) (drop n bs) (kernel w')"
begin

lemma get_two:
  assumes "kernel_ok P" "get P t [] n w = (e, bs, t1, w1)" "error_ok e"
    "get P t1 [] m w1 = (e', bs', t2, w2)" "error_ok e'"
  shows "t2 = t \<and> length (bs @ bs') = n + m \<and>
    received (handle t) (log w2) = received (handle t) (log w) @ bs @ bs'"
  using get_ok [OF assms(1-3)] get_ok [OF assms(1,4,5)] by simp

lemma get_two_delivers:
  assumes "connected t" "delivers P (handle t) bs (kernel w)" "n + m \<le> length bs"
  shows "\<exists>w1 w2. get P t [] n w = (Error Success '''', take n bs, t, w1) \<and>
    get P t [] m w1 = (Error Success '''', take m (drop n bs), t, w2) \<and>
    delivers P (handle t) (drop (n + m) bs) (kernel w2)"
proof -
  from get_delivers [OF assms(1,2), of n] assms(3) obtain w1 where
    1: "get P t [] n w = (Error Success '''', take n bs, t, w1)"
      "delivers P (handle t) (drop n bs) (kernel w1)" by auto
  have "m \<le> length (drop n bs)" using assms(3) by simp
  from get_delivers [OF assms(1) 1(2) this] obtain w2 where
    2: "get P t [] m w1 = (Error Success '''', take m (drop n bs), t, w2)"
      "delivers P (handle t) (drop m (drop n bs)) (kernel w2)" by blast
  show ?thesis using 1 2 by (auto simp: add.commute)
qed

end

end
