(* ===== verification/Transports.thy ===== *)
theory Transports
  imports Connections Byte_Stream Simulation
begin

text \<open>
  \<open>packetforge::network::Transport\<close> (\<open>include/network/transport.hpp\<close>,
  \<open>src/network/transport.cpp\<close>): the owner of one connection that sends and receives whole byte
  blocks by looping over the partial \<open>send\<close> and \<open>recv\<close> of the kernel. The loops recurse on the
  number of bytes still to go.
\<close>

section \<open>State and operations\<close>

record transport =
  tr_connection :: connection

definition Transport :: transport where
  "Transport = \<lparr>tr_connection = Connection\<rparr>"

text \<open>
  \<open>Transport(Connection)\<close>, with its by-value parameter constructed from \<open>std::move\<close> of the
  caller's object: the transport, and what is left in the caller's connection.
\<close>

definition transport_of_connection :: "connection \<Rightarrow> transport \<times> connection" where
  "transport_of_connection c =
     (case connection_move c of (param, rest) \<Rightarrow>
       (case connection_move param of (member, _) \<Rightarrow> (\<lparr>tr_connection = member\<rparr>, rest)))"

definition transport_move :: "transport \<Rightarrow> transport \<times> transport" where
  "transport_move other =
     (case connection_move (tr_connection other) of (c, rest) \<Rightarrow>
        (\<lparr>tr_connection = c\<rparr>, other\<lparr>tr_connection := rest\<rparr>))"

definition transport_assign ::
    "bool \<Rightarrow> 'w platform \<Rightarrow> transport \<Rightarrow> transport \<Rightarrow> 'w world \<Rightarrow> transport \<times> transport \<times> 'w world" where
  "transport_assign same P this other w =
     (if \<not> same
      then (case connection_assign False P (tr_connection this) (tr_connection other) w of
              (c, rest, w1) \<Rightarrow> (this\<lparr>tr_connection := c\<rparr>, other\<lparr>tr_connection := rest\<rparr>, w1))
      else (this, other, w))"

definition transport_isConnected :: "transport \<Rightarrow> bool" where
  "transport_isConnected t = connection_isConnected (tr_connection t)"

text \<open>\<open>transport.connection().disconnect()\<close>, and the destructor.\<close>

definition transport_disconnect ::
    "'w platform \<Rightarrow> transport \<Rightarrow> 'w world \<Rightarrow> transport \<times> 'w world" where
  "transport_disconnect P t w =
     (case connection_disconnect P (tr_connection t) w of (c, w1) \<Rightarrow> (t\<lparr>tr_connection := c\<rparr>, w1))"

definition transport_destroy :: "'w platform \<Rightarrow> transport \<Rightarrow> 'w world \<Rightarrow> 'w world" where
  "transport_destroy P t w = connection_destroy P (tr_connection t) w"

definition transport_handle :: "transport \<Rightarrow> int" where
  "transport_handle t = socket_nativeHandle (conn_socket (tr_connection t))"

text \<open>The loop of \<open>Transport::send\<close>.\<close>

function send_loop :: "'w platform \<Rightarrow> int \<Rightarrow> bytes \<Rightarrow> nat \<Rightarrow> 'w world \<Rightarrow> error \<times> 'w world" where
  "send_loop P fd data totalSent w =
     (if totalSent < length data
      then (case syscall P (SysSend fd (drop totalSent data)) w of (result, w1) \<Rightarrow>
        if ret result < 0 then (Error SocketError ''Send failed'', w1)
        else if ret result = 0 then (Error SocketError ''Send failed: connection closed'', w1)
        else send_loop P fd data (totalSent + nat (ret result)) w1)
      else (Error Success '''', w))"
  by pat_completeness auto
termination
  by (relation "measure (\<lambda>(P, fd, data, totalSent, w). length data - totalSent)") auto

declare send_loop.simps [simp del]

definition transport_send ::
    "'w platform \<Rightarrow> transport \<Rightarrow> bytes \<Rightarrow> 'w world \<Rightarrow> error \<times> 'w world" where
  "transport_send P t data w =
     (if \<not> connection_isConnected (tr_connection t)
      then (Error ConnectionFailed ''Connection not established'', w)
      else send_loop P (transport_handle t) data 0 w)"

text \<open>\<open>std::vector::resize\<close> to a size, new elements zero, and \<open>recv\<close> storing into the vector.\<close>

definition vector_resize :: "nat \<Rightarrow> bytes \<Rightarrow> bytes" where
  "vector_resize n bs = take n bs @ replicate (n - length bs) 0"

definition store_at :: "nat \<Rightarrow> bytes \<Rightarrow> bytes \<Rightarrow> bytes" where
  "store_at off new bs = take off bs @ new @ drop (off + length new) bs"

text \<open>
  The loop of \<open>Transport::receive\<close>. The result carries the vector and the transport, which the
  branch for a closed peer disconnects.
\<close>

function receive_loop ::
    "'w platform \<Rightarrow> transport \<Rightarrow> bytes \<Rightarrow> nat \<Rightarrow> nat \<Rightarrow> 'w world
       \<Rightarrow> error \<times> bytes \<times> transport \<times> 'w world" where
  "receive_loop P t data len totalReceived w =
     (if totalReceived < len
      then (case syscall P (SysRecv (transport_handle t) (len - totalReceived)) w of (result, w1) \<Rightarrow>
        let data1 = (if 0 \<le> ret result then store_at totalReceived (stored result) data else data) in
        if ret result < 0 then (Error SocketError ''Receive failed'', [], t, w1)
        else if ret result = 0
        then (case transport_disconnect P t w1 of (t1, w2) \<Rightarrow>
                (Error ConnectionClosed ''Connection closed by peer'', [], t1, w2))
        else receive_loop P t data1 len (totalReceived + nat (ret result)) w1)
      else (Error Success '''', data, t, w))"
  by pat_completeness auto
termination
  by (relation "measure (\<lambda>(P, t, data, len, totalReceived, w). len - totalReceived)") auto

declare receive_loop.simps [simp del]

definition transport_receive ::
    "'w platform \<Rightarrow> transport \<Rightarrow> bytes \<Rightarrow> nat \<Rightarrow> 'w world \<Rightarrow> error \<times> bytes \<times> transport \<times> 'w world" where
  "transport_receive P t data len w =
     (if \<not> connection_isConnected (tr_connection t)
      then (Error ConnectionFailed ''Connection not established'', data, t, w)
      else receive_loop P t (vector_resize len data) len 0 w)"

section \<open>Ownership\<close>

definition transport_inv :: "transport \<Rightarrow> bool" where
  "transport_inv t = connection_inv (tr_connection t)"

definition transport_owned :: "transport \<Rightarrow> int multiset" where
  "transport_owned t = connection_owned (tr_connection t)"

lemmas transport_defs = Transport_def transport_inv_def transport_owned_def
  transport_isConnected_def

lemma transport_disconnect_eq:
  "transport_disconnect P t w = (Transport, snd (connection_disconnect P (tr_connection t) w))"
  by (cases t) (simp add: transport_disconnect_def connection_disconnect_eq Transport_def)

lemma transport_of_connection_eq: "transport_of_connection c = (\<lparr>tr_connection = c\<rparr>, Connection)"
  by (simp add: transport_of_connection_def connection_move_eq)

interpretation trans: movable_resource transport_owned transport_inv Transport
  transport_disconnect transport_move "transport_assign False"
proof unfold_locales
  fix r this other :: transport and P :: "'b platform" and w
  show "transport_inv Transport" "transport_owned Transport = {#}"
    by (simp_all add: transport_defs conn.fresh_inv conn.owned_fresh)
  show "fst (transport_disconnect P r w) = Transport" by (simp add: transport_disconnect_eq)
  show "transport_move r = (r, Transport)"
    by (cases r) (simp add: transport_move_def connection_move_eq Transport_def)
  show "snd (transport_disconnect P r w) = w" if "transport_inv r" "transport_owned r = {#}"
    using that by (simp add: transport_disconnect_eq transport_defs conn.release_idle)
  show "transfers (transport_owned r) w {#} (snd (transport_disconnect P r w))" if "transport_inv r"
    using that by (simp add: transport_disconnect_eq transport_defs conn.release_transfers)
  show "transport_assign False P this other w =
      (fst (transport_move other), snd (transport_move other), snd (transport_disconnect P this w))"
    if "transport_inv this" "transport_inv other"
    using that
    by (cases this; cases other)
      (simp add: transport_assign_def transport_move_def transport_disconnect_eq transport_defs
         conn.assign_eq connection_move_eq)
qed

lemma transport_handle_owned:
  "transport_inv t \<Longrightarrow> transport_isConnected t \<Longrightarrow> transport_owned t = {#transport_handle t#}"
  by (simp add: transport_defs connection_defs socket_owned_def transport_handle_def
        socket_nativeHandle_def)

section \<open>The loops\<close>

lemma send_loop_done: "length data \<le> n \<Longrightarrow> send_loop P fd data n w = (Error Success '''', w)"
  by (simp add: send_loop.simps [of P fd data n w])

lemma receive_loop_done: "len \<le> n \<Longrightarrow> receive_loop P t data len n w = (Error Success '''', data, t, w)"
  by (simp add: receive_loop.simps [of P t data len n w])

lemma send_loop_transfers:
  assumes "send_loop P fd data totalSent w = (e, w')"
  shows "transfers {#fd#} w {#fd#} w'"
  using assms
proof (induction P fd data totalSent w arbitrary: e w' rule: send_loop.induct)
  case (1 P fd data totalSent w)
  obtain r w1 where sc: "syscall P (SysSend fd (drop totalSent data)) w = (r, w1)" by force
  note t = syscall_keeps(6) [OF sc]
  show ?case
    using "1.prems" "1.IH" [OF _ sc [symmetric]] sc t
    by (auto simp: send_loop.simps [of P fd data totalSent w] split: if_splits intro: transfers_trans [OF t])
qed

lemma send_loop_sent:
  assumes "send_loop P fd data totalSent w = (e, w')" "kernel_ok P" "totalSent \<le> length data"
  shows "\<exists>n. sent fd (log w') = sent fd (log w) @ take n (drop totalSent data) \<and>
    (if error_ok e then n = length data - totalSent else n < length data - totalSent)"
  using assms
proof (induction P fd data totalSent w arbitrary: e w' rule: send_loop.induct)
  case (1 P fd data totalSent w)
  show ?case
  proof (cases "totalSent < length data")
    case False
    then show ?thesis using "1.prems" by (auto simp: send_loop_done)
  next
    case True
    obtain r w1 where sc: "syscall P (SysSend fd (drop totalSent data)) w = (r, w1)" by force
    have le: "ret r \<le> int (length data - totalSent)"
      using syscall_ok [OF "1.prems"(2) sc] by (simp add: reply_ok_def)
    have s1: "sent fd (log w1) = sent fd (log w) @ take (nat (ret r)) (drop totalSent data)"
      using syscall_log [OF sc] by (simp add: kernel_simps)
    show ?thesis
    proof (cases "ret r \<le> 0")
      case True
      then have "\<not> error_ok e \<and> w' = w1"
        using "1.prems"(1) sc \<open>totalSent < length data\<close>
        by (auto simp: send_loop.simps [of P fd data totalSent w] split: if_splits)
      then show ?thesis using s1 True \<open>totalSent < length data\<close> by (intro exI [of _ 0]) simp
    next
      case False
      have "send_loop P fd data (totalSent + nat (ret r)) w1 = (e, w')"
        using "1.prems"(1) sc False True by (simp add: send_loop.simps [of P fd data totalSent w])
      moreover have "totalSent + nat (ret r) \<le> length data" "\<not> ret r < 0" "ret r \<noteq> 0"
        using le True False by linarith+
      ultimately obtain n where n: "sent fd (log w') = sent fd (log w1) @ take n (drop (totalSent + nat (ret r)) data)"
        "if error_ok e then n = length data - (totalSent + nat (ret r))
         else n < length data - (totalSent + nat (ret r))"
        using "1.IH" [OF True sc [symmetric] _ _ _ "1.prems"(2)] by blast
      have "take (nat (ret r)) (drop totalSent data) @ take n (drop (totalSent + nat (ret r)) data)
          = take (nat (ret r) + n) (drop totalSent data)"
        using take_add [of "nat (ret r)" n "drop totalSent data"] by (simp add: add.commute)
      then show ?thesis using n s1 le False by (intro exI [of _ "nat (ret r) + n"]) (auto split: if_splits)
    qed
  qed
qed

lemma store_at_facts:
  assumes "length data = len" "off + length new \<le> len"
  shows "length (store_at off new data) = len" "take off (store_at off new data) = take off data"
    "take (off + length new) (store_at off new data) = take off data @ new"
  using assms by (auto simp: store_at_def)

lemma length_vector_resize [simp]: "length (vector_resize n bs) = n"
  by (simp add: vector_resize_def)

lemma receive_loop_transfers:
  assumes "receive_loop P t data len n w = (e, d, t', w')" "transport_inv t" "transport_isConnected t"
  shows "transfers (transport_owned t) w (transport_owned t') w'"
  using assms
proof (induction P t data len n w arbitrary: e d t' w' rule: receive_loop.induct)
  case (1 P t data len n w)
  show ?case
  proof (cases "n < len")
    case False
    then show ?thesis using "1.prems" by (simp add: receive_loop_done)
  next
    case True
    obtain r w1 where sc: "syscall P (SysRecv (transport_handle t) (len - n)) w = (r, w1)" by force
    have t1: "transfers (transport_owned t) w (transport_owned t) w1"
      using syscall_keeps(7) [OF sc] "1.prems" by (simp add: transport_handle_owned)
    consider "ret r < 0" | "ret r = 0" | "0 < ret r" by linarith
    then show ?thesis
    proof cases
      case 1
      then show ?thesis using "1.prems" True sc t1 by (simp add: receive_loop.simps [of P t data len n w])
    next
      case 2
      then have "t' = Transport" "w' = snd (transport_disconnect P t w1)"
        using "1.prems" True sc
        by (auto simp: receive_loop.simps [of P t data len n w] transport_disconnect_eq)
      then show ?thesis
        using transfers_trans [OF t1 trans.release_transfers [of t w1 P]] "1.prems"
        by (simp add: trans.owned_fresh)
    next
      case 3
      then show ?thesis
        using "1.prems" True sc "1.IH" [OF True sc [symmetric] refl] transfers_trans [OF t1]
        by (simp add: receive_loop.simps [of P t data len n w])
    qed
  qed
qed

lemma receive_loop_ok:
  assumes "receive_loop P t data len n w = (e, d, t', w')" "kernel_ok P" "error_ok e"
    "length data = len" "n \<le> len"
  shows "length d = len \<and> t' = t \<and> take n d = take n data \<and>
    received (transport_handle t) (log w') = received (transport_handle t) (log w) @ drop n d"
  using assms
proof (induction P t data len n w arbitrary: e d t' w' rule: receive_loop.induct)
  case (1 P t data len n w)
  show ?case
  proof (cases "n < len")
    case False
    then show ?thesis using "1.prems" by (auto simp: receive_loop_done)
  next
    case True
    obtain r w1 where sc: "syscall P (SysRecv (transport_handle t) (len - n)) w = (r, w1)" by force
    have pos: "0 < ret r"
      using "1.prems"(1,3) True sc
      by (auto simp: receive_loop.simps [of P t data len n w] transport_disconnect_eq split: if_splits)
    then have st: "length (stored r) = nat (ret r)" "n + length (stored r) \<le> len"
      using syscall_ok [OF "1.prems"(2) sc] True by (auto simp: reply_ok_def)
    let ?d1 = "store_at n (stored r) data"
    have rec: "receive_loop P t ?d1 len (n + nat (ret r)) w1 = (e, d, t', w')"
      using "1.prems"(1) True sc pos by (simp add: receive_loop.simps [of P t data len n w])
    have IH: "length d = len \<and> t' = t \<and> take (n + nat (ret r)) d = take (n + nat (ret r)) ?d1 \<and>
      received (transport_handle t) (log w') =
        received (transport_handle t) (log w1) @ drop (n + nat (ret r)) d"
      using "1.IH" [OF True sc [symmetric] refl] pos rec "1.prems" st store_at_facts [OF _ st(2)]
      by simp
    have pre: "take (n + nat (ret r)) d = take n data @ stored r"
      using IH st store_at_facts(3) [OF "1.prems"(4) st(2)] by simp
    have d: "d = take n data @ stored r @ drop (n + nat (ret r)) d"
      using pre append_take_drop_id [of "n + nat (ret r)" d] by simp
    have ln: "length (take n data) = n" using "1.prems" True by simp
    have "drop n d = stored r @ drop (n + nat (ret r)) d" "take n d = take n data"
      using d ln by (metis append_eq_conv_conj, metis append_eq_conv_conj)
    then show ?thesis
      using IH syscall_log [OF sc] pos by (simp add: kernel_simps)
  qed
qed

lemma receive_loop_result:
  assumes "receive_loop P t data len n w = (e, d, t', w')"
  shows "error_code e = Success \<and> t' = t \<or> error_code e = SocketError \<and> d = [] \<and> t' = t \<or>
    error_code e = ConnectionClosed \<and> d = [] \<and> t' = Transport"
  using assms
proof (induction P t data len n w arbitrary: e d t' w' rule: receive_loop.induct)
  case (1 P t data len n w)
  obtain r w1 where sc: "syscall P (SysRecv (transport_handle t) (len - n)) w = (r, w1)" by force
  show ?case
    using "1.prems" "1.IH" [OF _ sc [symmetric] refl] sc
    by (auto simp: receive_loop.simps [of P t data len n w] transport_disconnect_eq split: if_splits)
qed

lemma receive_loop_delivers:
  assumes "delivers P (transport_handle t) bs (kernel w)" "len - n \<le> length bs"
    "length data = len" "n \<le> len"
  shows "\<exists>w'. receive_loop P t data len n w =
      (Error Success '''', take n data @ take (len - n) bs, t, w') \<and>
    delivers P (transport_handle t) (drop (len - n) bs) (kernel w')"
  using assms
proof (induction P t data len n w arbitrary: bs rule: receive_loop.induct)
  case (1 P t data len n w)
  show ?case
  proof (cases "n < len")
    case False
    then show ?thesis using "1.prems" by (auto simp: receive_loop_done)
  next
    case True
    then have "bs \<noteq> []" "0 < len - n" using "1.prems" by auto
    from delivers_recv [OF "1.prems"(1) this] obtain m r k' where
      m: "serve P (SysRecv (transport_handle t) (len - n)) (kernel w) = (r, k')" "ret r = int m" "0 < m"
        "m \<le> len - n" "m \<le> length bs" "stored r = take m bs"
        "delivers P (transport_handle t) (drop m bs) k'" .
    obtain w1 where sc: "syscall P (SysRecv (transport_handle t) (len - n)) w = (r, w1)"
      and k1: "kernel w1 = k'" using m(1) by (simp add: syscall_def)
    let ?d1 = "store_at n (take m bs) data"
    have fit: "n + length (take m bs) \<le> len" using m by simp
    note facts = store_at_facts [OF "1.prems"(3) fit]
    have "\<exists>w'. receive_loop P t ?d1 len (n + m) w1 =
        (Error Success '''', take (n + m) ?d1 @ take (len - (n + m)) (drop m bs), t, w') \<and>
      delivers P (transport_handle t) (drop (len - (n + m)) (drop m bs)) (kernel w')"
      using "1.IH" [OF True sc [symmetric] refl, of "drop m bs"] "1.prems" m k1 facts by auto
    moreover have "take (n + m) ?d1 @ take (len - (n + m)) (drop m bs) = take n data @ take (len - n) bs"
      using facts m take_add [of m "len - n - m" bs] by (simp add: min_absorb2)
    moreover have "receive_loop P t data len n w = receive_loop P t ?d1 len (n + m) w1"
      using True sc m by (simp add: receive_loop.simps [of P t data len n w])
    ultimately show ?thesis using m by (auto simp: add.commute)
  qed
qed

text \<open>
  What a receive does, call by call. \<open>recv_calls fd n rs\<close> are the calls that ask for \<open>n\<close> bytes in all
  and are answered by \<open>rs\<close>; \<open>close_call fd c\<close> is the release of a descriptor. \<open>transport_receives\<close>
  relates the calls of one receive, with the kernel's answers, to the bytes taken and to the result.
\<close>

fun recv_calls :: "int \<Rightarrow> nat \<Rightarrow> reply list \<Rightarrow> event list" where
  "recv_calls fd n [] = []"
| "recv_calls fd n (r # rs) = Sys (SysRecv fd n) r # recv_calls fd (n - nat (ret r)) rs"

definition close_call :: "int \<Rightarrow> reply \<Rightarrow> event list" where
  "close_call fd c = (if fd = -1 then [] else [Sys (SysClose fd) c])"

definition taken :: "reply list \<Rightarrow> bytes" where
  "taken rs = concat (map stored rs)"

inductive transport_receives ::
    "transport \<Rightarrow> nat \<Rightarrow> event list \<Rightarrow> bytes \<Rightarrow> error \<times> bytes \<times> transport \<Rightarrow> bool" for t n where
  receives_all: "transport_receives t n (recv_calls (transport_handle t) n rs) (taken rs)
      (Error Success '''', taken rs, t)"
    if "list_all (\<lambda>r. 0 < ret r) rs" "length (taken rs) = n"
| receives_error: "transport_receives t n (recv_calls (transport_handle t) n (rs @ [r])) (taken rs)
      (Error SocketError ''Receive failed'', [], t)"
    if "list_all (\<lambda>r. 0 < ret r) rs" "length (taken rs) < n" "ret r < 0"
| receives_close: "transport_receives t n
      (recv_calls (transport_handle t) n (rs @ [r]) @ close_call (transport_handle t) c) (taken rs)
      (Error ConnectionClosed ''Connection closed by peer'', [], Transport)"
    if "list_all (\<lambda>r. 0 < ret r) rs" "length (taken rs) < n" "ret r = 0" "stored r = []"

lemma taken_simps [simp]: "taken [] = []" "taken (r # rs) = stored r @ taken rs"
  by (simp_all add: taken_def)

lemma transport_disconnect_log:
  "\<exists>c. log (snd (transport_disconnect P t w)) = log w @ close_call (transport_handle t) c"
  by (auto simp: transport_disconnect_eq connection_disconnect_eq socket_close_def close_call_def
      transport_handle_def socket_nativeHandle_def syscall_log [OF prod.collapse [symmetric]])

lemma transport_receives_Cons:
  assumes "transport_receives t (n - nat (ret r)) es bs (e, d, t')"
    "0 < ret r" "length (stored r) = nat (ret r)" "nat (ret r) \<le> n"
  shows "transport_receives t n (Sys (SysRecv (transport_handle t) n) r # es) (stored r @ bs)
    (e, if error_ok e then stored r @ d else d, t')"
  using assms(1)
proof cases
  case (receives_all rs)
  with assms transport_receives.receives_all [of "r # rs" n t] show ?thesis by simp
next
  case (receives_error rs r')
  with assms transport_receives.receives_error [of "r # rs" n r' t] show ?thesis by auto
next
  case (receives_close rs r' c)
  with assms transport_receives.receives_close [of "r # rs" n r' t c] show ?thesis by auto
qed

text \<open>The loop from \<open>n\<close> bytes on.\<close>

lemma receive_loop_calls:
  assumes "receive_loop P t data len n w = (e, d, t', w')" "kernel_ok P" "length data = len" "n \<le> len"
  shows "\<exists>es bs d'. log w' = log w @ es \<and> transport_receives t (len - n) es bs (e, d', t') \<and>
    d = (if error_ok e then take n data @ d' else d')"
  using assms
proof (induction P t data len n w arbitrary: e d t' w' rule: receive_loop.induct)
  case (1 P t data len n w)
  let ?fd = "transport_handle t"
  show ?case
  proof (cases "n < len")
    case False
    then show ?thesis using "1.prems" transport_receives.receives_all [of "[]" 0 t]
      by (auto simp: receive_loop_done)
  next
    case True
    obtain r w1 where sc: "syscall P (SysRecv ?fd (len - n)) w = (r, w1)" by force
    note l = syscall_log [OF sc] and loop = receive_loop.simps [of P t data len n w]
    consider "ret r < 0" | "ret r = 0" | "0 < ret r" by linarith
    then show ?thesis
    proof cases
      case 1
      then show ?thesis
        using "1.prems" True sc l transport_receives.receives_error [of "[]" "len - n" r t] by (auto simp: loop)
    next
      case 2
      obtain t2 w2 where dc: "transport_disconnect P t w1 = (t2, w2)" by force
      obtain c where "log w2 = log w1 @ close_call ?fd c"
        using transport_disconnect_log [of P t w1] dc by auto
      moreover have "t2 = Transport" using dc by (auto simp: transport_disconnect_eq)
      moreover have "stored r = []" using syscall_ok [OF "1.prems"(2) sc] 2 by (simp add: reply_ok_def)
      ultimately show ?thesis
        using "1.prems" True sc l dc 2 transport_receives.receives_close [of "[]" "len - n" r t c] by (auto simp: loop)
    next
      case 3
      let ?d1 = "store_at n (stored r) data" and ?m = "n + nat (ret r)"
      have st: "length (stored r) = nat (ret r)" "n + length (stored r) \<le> len"
        using syscall_ok [OF "1.prems"(2) sc] True 3 by (auto simp: reply_ok_def)
      note facts = store_at_facts [OF "1.prems"(3) st(2)]
      have "receive_loop P t ?d1 len ?m w1 = (e, d, t', w')"
        using "1.prems"(1) True sc 3 by (simp add: loop)
      then obtain es bs d' where ih: "log w' = log w1 @ es"
        "transport_receives t (len - n - nat (ret r)) es bs (e, d', t')"
        "d = (if error_ok e then take ?m ?d1 @ d' else d')"
        using "1.IH" [OF True sc [symmetric] refl, of e d t' w'] "1.prems"(2) facts(1) 3 st by auto
      have "transport_receives t (len - n) (Sys (SysRecv ?fd (len - n)) r # es) (stored r @ bs)
          (e, if error_ok e then stored r @ d' else d', t')"
        using transport_receives_Cons [OF ih(2) 3 st(1)] st by simp
      moreover have "take ?m ?d1 = take n data @ stored r" using facts(3) st(1) by simp
      ultimately show ?thesis using ih l by fastforce
    qed
  qed
qed

lemma transport_receive_calls:
  assumes "transport_receive P t data n w = (e, d, t', w')" "kernel_ok P" "transport_isConnected t"
  shows "\<exists>es bs. log w' = log w @ es \<and> transport_receives t n es bs (e, d, t')"
proof -
  have "receive_loop P t (vector_resize n data) n 0 w = (e, d, t', w')"
    using assms(1,3) by (simp add: transport_receive_def transport_isConnected_def)
  from receive_loop_calls [OF this assms(2)] show ?thesis by (auto split: if_splits)
qed

text \<open>The bytes taken are the bytes received.\<close>

lemma received_recv_calls:
  "list_all (\<lambda>r. 0 < ret r) rs \<Longrightarrow> received fd (recv_calls fd n rs) = taken rs"
  "list_all (\<lambda>r. 0 < ret r) rs \<Longrightarrow> received fd (recv_calls fd n (rs @ [r])) =
    taken rs @ received fd [Sys (SysRecv fd 0) r]"
  by (induction rs arbitrary: n) (auto simp: received_def)

lemma transport_receives_received: "transport_receives t n es bs x \<Longrightarrow> received (transport_handle t) es = bs"
  by (induction rule: transport_receives.induct)
    (auto simp: received_recv_calls received_simps close_call_def)

lemma transport_receives_length:
  "transport_receives t n es bs (e, d, t') \<Longrightarrow> (if error_ok e then length bs = n \<and> d = bs else length bs < n \<and> d = [])"
  by (auto elim: transport_receives.cases)

section \<open>The contract with the packet layer\<close>

lemma send_loop_fail: "send_loop P fd data n w = (e, w') \<Longrightarrow> \<not> error_ok e \<Longrightarrow> error_code e = SocketError"
proof (induction P fd data n w arbitrary: e w' rule: send_loop.induct)
  case (1 P fd data n w)
  obtain r w1 where sc: "syscall P (SysSend fd (drop n data)) w = (r, w1)" by force
  show ?case
    using "1.prems" "1.IH" [OF _ sc [symmetric]] sc
    by (auto simp: send_loop.simps [of P fd data n w] split: if_splits)
qed

interpretation tstream: byte_stream transport_handle transport_isConnected transport_send transport_receive
proof unfold_locales
  fix P :: "'w platform" and t t' bs e w w' n
  show "transport_isConnected t \<and>
      sent (transport_handle t) (log w') = sent (transport_handle t) (log w) @ bs"
    if "kernel_ok P" "transport_send P t bs w = (e, w')" "error_ok e"
    using that send_loop_sent [of P "transport_handle t" bs 0 w e w']
    by (auto simp: transport_send_def transport_isConnected_def split: if_splits)
  show "error_code e = (if transport_isConnected t then SocketError else ConnectionFailed)"
    if "transport_send P t bs w = (e, w')" "\<not> error_ok e"
    using that
    by (auto simp: transport_send_def transport_isConnected_def dest: send_loop_fail split: if_splits)
  show "transport_isConnected t \<and> t' = t \<and> length bs = n \<and>
      received (transport_handle t) (log w') = received (transport_handle t) (log w) @ bs"
    if "kernel_ok P" "transport_receive P t [] n w = (e, bs, t', w')" "error_ok e"
    using that receive_loop_ok [of P t "vector_resize n []" n 0 w e bs t' w']
    by (auto simp: transport_receive_def transport_isConnected_def split: if_splits)
  show "error_code e \<in> {SocketError, ConnectionClosed, ConnectionFailed}"
    if "transport_receive P t [] n w = (e, bs, t', w')" "\<not> error_ok e"
    using that receive_loop_result [of P t "vector_resize n []" n 0 w e bs t' w']
    by (auto simp: transport_receive_def error_ok_iff split: if_splits)
  show "\<exists>w'. transport_receive P t [] n w = (ok_result, take n bs, t, w') \<and>
      delivers P (transport_handle t) (drop n bs) (kernel w')"
    if "transport_isConnected t" "delivers P (transport_handle t) bs (kernel w)" "n \<le> length bs"
    using that receive_loop_delivers [of P t bs w n 0 "vector_resize n []"]
    by (auto simp: transport_receive_def transport_isConnected_def)
qed

lemma transport_send_transfers:
  assumes "transport_send P t data w = (e, w')" "transport_inv t"
  shows "transfers (transport_owned t) w (transport_owned t) w'"
  using assms
  by (auto simp: transport_send_def transport_handle_owned transport_isConnected_def
        dest: send_loop_transfers split: if_splits)

lemma transport_receive_transfers:
  assumes "transport_receive P t data n w = (e, d, t', w')" "transport_inv t"
  shows "transfers (transport_owned t) w (transport_owned t') w'"
  using assms
  by (auto simp: transport_receive_def transport_isConnected_def
        dest: receive_loop_transfers split: if_splits)

lemma transport_receive_result:
  assumes "transport_receive P t data n w = (e, d, t', w')"
  shows "(error_code e = ConnectionClosed \<and> t' = Transport) \<or> (error_code e \<noteq> ConnectionClosed \<and> t' = t)"
  using assms receive_loop_result [of P t "vector_resize n data" n 0 w e d t' w']
  by (auto simp: transport_receive_def split: if_splits)

lemma transport_receive_inv:
  "transport_receive P t data n w = (e, d, t', w') \<Longrightarrow> transport_inv t \<Longrightarrow> transport_inv t'"
  by (auto dest: transport_receive_result simp: trans.fresh_inv)

lemma transport_receive_keeps:
  "transport_receive P t data n w = (e, d, t', w') \<Longrightarrow> transport_inv t \<Longrightarrow>
    transfers (transport_owned t) w (transport_owned t') w' \<and> transport_inv t'"
  using transport_receive_transfers transport_receive_inv by blast

lemma transport_receive_keeps_two:
  assumes "transport_receive P t data n w = (e, d, t1, w1)"
    "transport_receive P t1 data' m w1 = (e', d', t2, w2)" "transport_inv t"
  shows "transfers (transport_owned t) w (transport_owned t2) w2 \<and> transport_inv t2"
  using transport_receive_keeps [OF assms(1,3)] transport_receive_keeps [OF assms(2)] transfers_trans
  by blast

lemma transport_send_prefix:
  assumes "kernel_ok P" "transport_send P t data w = (e, w')" "data \<noteq> []"
  shows "\<exists>n. sent (transport_handle t) (log w') = sent (transport_handle t) (log w) @ take n data \<and>
    (if error_ok e then transport_isConnected t \<and> n = length data
     else error_code e = (if transport_isConnected t then SocketError else ConnectionFailed) \<and>
       n < length data)"
proof (cases "transport_isConnected t")
  case False
  then show ?thesis using assms by (auto simp: transport_send_def transport_isConnected_def intro!: exI [of _ 0])
next
  case True
  then have "send_loop P (transport_handle t) data 0 w = (e, w')"
    using assms(2) by (simp add: transport_send_def transport_isConnected_def)
  with send_loop_sent [OF this assms(1)] send_loop_fail [OF this] True show ?thesis by auto
qed

text \<open>What the loops leave alone: the other direction of the stream, and the diagnostics.\<close>

lemma send_loop_frame:
  assumes "send_loop P fd data totalSent w = (e, w')"
  shows "received f (log w') = received f (log w) \<and> diagnostics (log w') = diagnostics (log w)"
  using assms
proof (induction P fd data totalSent w arbitrary: e w' rule: send_loop.induct)
  case (1 P fd data totalSent w)
  obtain r w1 where sc: "syscall P (SysSend fd (drop totalSent data)) w = (r, w1)" by force
  show ?case
    using "1.prems" "1.IH" [OF _ sc [symmetric]] sc
    by (auto simp: send_loop.simps [of P fd data totalSent w] kernel_simps split: if_splits)
qed

lemma transport_send_frame:
  "transport_send P t data w = (e, w') \<Longrightarrow>
    received f (log w') = received f (log w) \<and> diagnostics (log w') = diagnostics (log w)"
  by (auto simp: transport_send_def split: if_splits dest: send_loop_frame)

lemma connection_disconnect_streams:
  "sent f (log (snd (connection_disconnect P c w))) = sent f (log w)"
  "received f (log (snd (connection_disconnect P c w))) = received f (log w)"
  by (simp_all add: connection_disconnect_eq socket_close_def
      syscall_log [OF prod.collapse [symmetric]] kernel_simps)

lemma transport_disconnect_frame [simp]:
  "sent f (log (snd (transport_disconnect P t w))) = sent f (log w)"
  "received f (log (snd (transport_disconnect P t w))) = received f (log w)"
  "diagnostics (log (snd (transport_disconnect P t w))) = diagnostics (log w)"
  by (simp_all add: transport_disconnect_eq connection_disconnect_streams)

lemma receive_loop_frame:
  assumes "receive_loop P t data len n w = (e, d, t', w')"
  shows "sent f (log w') = sent f (log w) \<and> diagnostics (log w') = diagnostics (log w)"
  using assms
proof (induction P t data len n w arbitrary: e d t' w' rule: receive_loop.induct)
  case (1 P t data len n w)
  obtain r w1 where sc: "syscall P (SysRecv (transport_handle t) (len - n)) w = (r, w1)" by force
  then have w1: "sent f (log w1) = sent f (log w)" "diagnostics (log w1) = diagnostics (log w)"
    by (simp_all add: kernel_simps)
  obtain t2 w2 where dc: "transport_disconnect P t w1 = (t2, w2)" by force
  then have "sent f (log w2) = sent f (log w)" "diagnostics (log w2) = diagnostics (log w)"
    using transport_disconnect_frame [where P = P and t = t and w = w1] w1 by simp_all
  then show ?case
    using "1.prems" "1.IH" [OF _ sc [symmetric] refl] sc w1 dc
    by (auto simp: receive_loop.simps [of P t data len n w] split: if_splits)
qed

lemma transport_receive_frame:
  "transport_receive P t data n w = (e, d, t', w') \<Longrightarrow>
    sent f (log w') = sent f (log w) \<and> diagnostics (log w') = diagnostics (log w)"
  by (auto simp: transport_receive_def split: if_splits dest: receive_loop_frame)

text \<open>A receive that fails took fewer bytes than it was asked for.\<close>

lemma receive_loop_short:
  assumes "receive_loop P t data len n w = (e, d, t', w')" "kernel_ok P" "\<not> error_ok e"
    "length data = len" "n \<le> len"
  shows "\<exists>bs. received (transport_handle t) (log w') = received (transport_handle t) (log w) @ bs \<and>
    length bs < len - n"
  using assms
proof (induction P t data len n w arbitrary: e d t' w' rule: receive_loop.induct)
  case (1 P t data len n w)
  have less: "n < len"
    using "1.prems" by (cases "n < len") (auto simp: receive_loop_done)
  obtain r w1 where sc: "syscall P (SysRecv (transport_handle t) (len - n)) w = (r, w1)" by force
  have ok: "ret r \<le> int (len - n)" "0 \<le> ret r \<Longrightarrow> length (stored r) = nat (ret r)"
    using syscall_ok [OF "1.prems"(2) sc] by (auto simp: reply_ok_def)
  have rec: "received (transport_handle t) (log w1) =
      received (transport_handle t) (log w) @ (if 0 \<le> ret r then stored r else [])"
    using syscall_log [OF sc] by (simp add: kernel_simps)
  show ?case
  proof (cases "0 < ret r")
    case False
    obtain t2 w2 where dc: "transport_disconnect P t w1 = (t2, w2)" by force
    then have "received (transport_handle t) (log w2) = received (transport_handle t) (log w1)"
      using transport_disconnect_frame(2) [of "transport_handle t" P t w1] by simp
    then have "received (transport_handle t) (log w') = received (transport_handle t) (log w)"
      using False "1.prems"(1) less sc ok rec dc
      by (auto simp: receive_loop.simps [of P t data len n w] split: if_splits)
    then show ?thesis using less by auto
  next
    case True
    let ?d1 = "store_at n (stored r) data" and ?m = "n + nat (ret r)"
    have fit: "n + length (stored r) \<le> len" using ok True less by simp
    have "receive_loop P t ?d1 len ?m w1 = (e, d, t', w')"
      using "1.prems"(1) less sc True by (simp add: receive_loop.simps [of P t data len n w])
    moreover have "\<not> ret r < 0" "ret r \<noteq> 0" "0 \<le> ret r" using True by simp_all
    ultimately have "\<exists>bs. received (transport_handle t) (log w') = received (transport_handle t) (log w1) @ bs \<and>
        length bs < len - ?m"
      using "1.IH" [OF less sc [symmetric] refl] "1.prems"(2,3) store_at_facts(1) [OF "1.prems"(4) fit] fit ok by simp
    then obtain bs where "received (transport_handle t) (log w') = received (transport_handle t) (log w1) @ bs"
      "length bs < len - ?m" by blast
    then show ?thesis using rec ok True by (intro exI [of _ "stored r @ bs"]) auto
  qed
qed

lemma transport_receive_short:
  assumes "transport_receive P t data n w = (e, d, t', w')" "kernel_ok P" "\<not> error_ok e"
  shows "\<exists>bs. received (transport_handle t) (log w') = received (transport_handle t) (log w) @ bs \<and>
    (bs = [] \<or> length bs < n)"
proof (cases "transport_isConnected t")
  case False
  then show ?thesis using assms(1) by (auto simp: transport_receive_def transport_isConnected_def)
next
  case True
  then have "receive_loop P t (vector_resize n data) n 0 w = (e, d, t', w')"
    using assms(1) by (simp add: transport_receive_def transport_isConnected_def)
  from receive_loop_short [OF this assms(2,3)] show ?thesis by auto
qed

section \<open>Properties\<close>

text \<open>The transport of the witnesses: connected on descriptor 3.\<close>

definition demo_transport :: transport where
  "demo_transport =
     \<lparr>tr_connection = \<lparr>conn_socket = \<lparr>socket_fd = 3\<rparr>, conn_connected = True\<rparr>\<rparr>"

lemma demo_transport_simps [simp]:
  "transport_handle demo_transport = 3" "transport_isConnected demo_transport"
  by (simp_all add: demo_transport_def transport_handle_def socket_nativeHandle_def
        transport_isConnected_def connection_isConnected_def)

text \<open>
  C33. A receive of \<open>n\<close> bytes always returns, and what the kernel answers decides how. Without a
  connection it refuses and changes nothing. Otherwise its system calls are exactly those of
  \<open>transport_receives\<close>: one \<open>recv\<close> after the other, each asking for what is missing. If the answers
  bring \<open>n\<close> bytes it is \<open>Success\<close>, and the vector holds exactly these, in order, whatever it held
  before; if one is negative before that, it is \<open>SocketError\<close> and the connection is kept; if one is 0,
  it is \<open>ConnectionClosed\<close>, the descriptor is closed and the transport is back in its initial state.
  In each case the bytes taken from the connection are the ones the answers brought, fewer than \<open>n\<close>
  after a failure, and a failure empties the vector.
\<close>

theorem transport_receive_outcomes:
  assumes "kernel_ok P" "transport_receive P t data n w = (e, d, t', w')"
  shows "if \<not> transport_isConnected t
    then e = Error ConnectionFailed ''Connection not established'' \<and> d = data \<and> t' = t \<and> w' = w
    else \<exists>es bs. log w' = log w @ es \<and> transport_receives t n es bs (e, d, t') \<and>
      received (transport_handle t) (log w') = received (transport_handle t) (log w) @ bs"
proof (cases "transport_isConnected t")
  case False
  then show ?thesis using assms(2) by (auto simp: transport_receive_def transport_isConnected_def)
next
  case True
  from transport_receive_calls [OF assms(2,1) True] obtain es bs
    where es: "log w' = log w @ es" "transport_receives t n es bs (e, d, t')" by blast
  then have "received (transport_handle t) (log w') = received (transport_handle t) (log w) @ bs"
    using transport_receives_received [OF es(2)] by (simp add: received_simps)
  then show ?thesis using es True by (simp only: if_False if_True not_True_eq_False) blast
qed

text \<open>A peer that closes after one of the three bytes.\<close>

theorem transport_receive_outcomes_witness:
  "\<exists>w' es. transport_receive (sim_platform Little) demo_transport [9] 3 (sim_world [] [[1]] 5 []) =
      (Error ConnectionClosed ''Connection closed by peer'', [], Transport, w') \<and>
    log w' = es \<and> received 3 es = [1] \<and>
    transport_receives demo_transport 3 es [1]
      (Error ConnectionClosed ''Connection closed by peer'', [], Transport)"
proof -
  let ?w = "sim_world [] [[1]] 5 []"
  let ?r = "transport_receive (sim_platform Little) demo_transport [9] 3 ?w"
  let ?w' = "snd (snd (snd ?r))"
  have r: "?r = (Error ConnectionClosed ''Connection closed by peer'', [], Transport, ?w')" by code_simp
  have "received 3 (log ?w') = [1]" by code_simp
  with transport_receive_outcomes [OF sim_kernel_ok r]
  have "transport_receives demo_transport 3 (log ?w') [1]
      (Error ConnectionClosed ''Connection closed by peer'', [], Transport)"
    by (auto simp: sim_world_def received_simps)
  with r \<open>received 3 (log ?w') = [1]\<close> show ?thesis by blast
qed

text \<open>
  Once the peer has closed, the transport is unusable until it gets a new connection: after a
  receive that reported \<open>ConnectionClosed\<close> it owns no descriptor, and every later send and receive is
  refused with \<open>ConnectionFailed\<close> without a system call.
\<close>

theorem closed_transport_refuses:
  assumes "transport_receive P t data n w = (e, d, t1, w1)" "error_code e = ConnectionClosed"
  shows "\<not> transport_isConnected t1 \<and> transport_owned t1 = {#} \<and>
    transport_send Q t1 bs u = (Error ConnectionFailed ''Connection not established'', u) \<and>
    transport_receive Q t1 bs m u = (Error ConnectionFailed ''Connection not established'', bs, t1, u)"
proof -
  have "t1 = Transport" using transport_receive_result [OF assms(1)] assms(2) by simp
  then show ?thesis
    by (simp add: trans.owned_fresh) (simp add: transport_isConnected_def connection_isConnected_def
        transport_send_def transport_receive_def Transport_def Connection_def)
qed

theorem closed_transport_refuses_witness:
  "\<exists>t1 w1. transport_receive (sim_platform Little) demo_transport [] 3 (sim_world [] [[1]] 5 [])
      = (Error ConnectionClosed ''Connection closed by peer'', [], t1, w1) \<and>
    \<not> transport_isConnected t1 \<and>
    transport_send (sim_platform Little) t1 [7] w1 =
      (Error ConnectionFailed ''Connection not established'', w1)"
proof -
  let ?r = "transport_receive (sim_platform Little) demo_transport [] 3 (sim_world [] [[1]] 5 [])"
  have r: "?r = (Error ConnectionClosed ''Connection closed by peer'', [], fst (snd (snd ?r)),
      snd (snd (snd ?r)))" by code_simp
  from closed_transport_refuses [OF r] r show ?thesis by (metis error_code_Error)
qed

end
