(* ===== verification/Packets.thy ===== *)
theory Packets
  imports Prelude
begin

text \<open>
  Packets, opcodes and protocol error codes: \<open>include/protocol/packet.hpp\<close>,
  \<open>src/protocol/packet.cpp\<close> and \<open>include/protocol/opcode.hpp\<close>. A packet is a record with the
  class's fields. The magic number has no setter, so every packet the program builds carries
  \<open>MagicNumber\<close>; the record type is wider, and \<open>packet_isValid\<close> checks it as the code does.

  An \<open>enum class\<close> with a fixed underlying type can hold any value of that type after a
  \<open>static_cast\<close>, so a \<open>switch\<close> over one is modelled on the underlying value.
\<close>

section \<open>Opcodes and protocol errors\<close>

datatype opcode = HelloRequest | HelloResponse | ErrorResponse

fun opcode_value :: "opcode \<Rightarrow> u16" where
  "opcode_value HelloRequest = 1"
| "opcode_value HelloResponse = 2"
| "opcode_value ErrorResponse = 100"

datatype protocol_error =
    PE_InvalidPacket
  | PE_UnsupportedOpcode
  | PE_UnsupportedVersion
  | PE_InvalidPayload

fun protocol_error_value :: "protocol_error \<Rightarrow> u16" where
  "protocol_error_value PE_InvalidPacket = 1"
| "protocol_error_value PE_UnsupportedOpcode = 2"
| "protocol_error_value PE_UnsupportedVersion = 3"
| "protocol_error_value PE_InvalidPayload = 4"

definition isValidOpcode :: "u16 \<Rightarrow> bool" where
  "isValidOpcode value \<longleftrightarrow>
     value = opcode_value HelloRequest \<or> value = opcode_value HelloResponse \<or>
     value = opcode_value ErrorResponse"

definition isValidProtocolError :: "u16 \<Rightarrow> bool" where
  "isValidProtocolError value \<longleftrightarrow>
     value = protocol_error_value PE_InvalidPacket \<or>
     value = protocol_error_value PE_UnsupportedOpcode \<or>
     value = protocol_error_value PE_UnsupportedVersion \<or>
     value = protocol_error_value PE_InvalidPayload"

text \<open>\<open>static_cast<std::uint8_t>(error)\<close>, the payload of an error response.\<close>

definition protocol_error_byte :: "protocol_error \<Rightarrow> u8" where
  "protocol_error_byte e = ucast (protocol_error_value e)"

lemma isValidOpcode_iff: "isValidOpcode v \<longleftrightarrow> (\<exists>oc. v = opcode_value oc)"
  unfolding isValidOpcode_def by (metis opcode.exhaust)

lemma isValidProtocolError_iff: "isValidProtocolError v \<longleftrightarrow> (\<exists>e. v = protocol_error_value e)"
  unfolding isValidProtocolError_def by (metis protocol_error.exhaust)

lemma protocol_error_byte_value: "ucast (protocol_error_byte e) = protocol_error_value e"
  by (cases e) (simp_all add: protocol_error_byte_def)

lemma protocol_error_value_inject:
  "protocol_error_value e = protocol_error_value e' \<longleftrightarrow> e = e'"
  by (cases e; cases e') simp_all

lemma protocol_error_byte_inject: "protocol_error_byte e = protocol_error_byte e' \<longleftrightarrow> e = e'"
  by (metis protocol_error_byte_value protocol_error_value_inject)

section \<open>Packets\<close>

definition HEADER_SIZE :: nat where
  "HEADER_SIZE = 16"

definition MagicNumber :: u32 where
  "MagicNumber = 0x50464B54"

definition VERSION :: u8 where
  "VERSION = 1"

record packet =
  pk_magic :: u32
  pk_version :: u8
  pk_flags :: u8
  pk_opcode :: u16
  pk_sequenceId :: u32
  pk_payload :: bytes

definition Packet :: packet where
  "Packet = \<lparr>pk_magic = MagicNumber, pk_version = VERSION, pk_flags = 0, pk_opcode = 0,
     pk_sequenceId = 0, pk_payload = []\<rparr>"

definition packet_magicNumber :: "packet \<Rightarrow> u32" where
  "packet_magicNumber p = pk_magic p"

definition packet_setVersion :: "u8 \<Rightarrow> packet \<Rightarrow> packet" where
  "packet_setVersion v p = p\<lparr>pk_version := v\<rparr>"

definition packet_version :: "packet \<Rightarrow> u8" where
  "packet_version p = pk_version p"

definition packet_setFlags :: "u8 \<Rightarrow> packet \<Rightarrow> packet" where
  "packet_setFlags f p = p\<lparr>pk_flags := f\<rparr>"

definition packet_flags :: "packet \<Rightarrow> u8" where
  "packet_flags p = pk_flags p"

definition packet_setOpcode :: "u16 \<Rightarrow> packet \<Rightarrow> packet" where
  "packet_setOpcode oc p = p\<lparr>pk_opcode := oc\<rparr>"

definition packet_opcode :: "packet \<Rightarrow> u16" where
  "packet_opcode p = pk_opcode p"

definition packet_setSequenceId :: "u32 \<Rightarrow> packet \<Rightarrow> packet" where
  "packet_setSequenceId n p = p\<lparr>pk_sequenceId := n\<rparr>"

definition packet_sequenceId :: "packet \<Rightarrow> u32" where
  "packet_sequenceId p = pk_sequenceId p"

definition packet_payloadLength :: "packet \<Rightarrow> u32" where
  "packet_payloadLength p = word_of_nat (length (pk_payload p))"

definition packet_setPayload :: "bytes \<Rightarrow> packet \<Rightarrow> packet" where
  "packet_setPayload bs p = p\<lparr>pk_payload := bs\<rparr>"

definition packet_payload :: "packet \<Rightarrow> bytes" where
  "packet_payload p = pk_payload p"

definition packet_isValid :: "packet \<Rightarrow> bool" where
  "packet_isValid p =
     (if pk_magic p \<noteq> MagicNumber then False
      else if pk_version p \<noteq> VERSION then False
      else if length (pk_payload p) > 2 ^ 32 - 1 then False
      else True)"

lemmas packet_unfold [packet_simps] = Packet_def packet_magicNumber_def packet_setVersion_def
  packet_version_def packet_setFlags_def packet_flags_def packet_setOpcode_def packet_opcode_def
  packet_setSequenceId_def packet_sequenceId_def packet_setPayload_def packet_payload_def

lemma packet_isValid_iff [packet_simps]:
  "packet_isValid p \<longleftrightarrow>
     pk_magic p = MagicNumber \<and> pk_version p = VERSION \<and> length (pk_payload p) < 2 ^ 32"
  by (auto simp: packet_isValid_def)

text \<open>The code equation compares in binary, so that the model evaluates.\<close>

lemma packet_isValid_code [code]:
  "packet_isValid p \<longleftrightarrow>
     pk_magic p = MagicNumber \<and> pk_version p = VERSION \<and> int (length (pk_payload p)) < 4294967296"
  by (auto simp: packet_isValid_iff)

lemma payloadLength_exact:
  "length (pk_payload p) < 2 ^ 32 \<Longrightarrow> unat (packet_payloadLength p) = length (pk_payload p)"
  by (simp add: packet_payloadLength_def unat_of_nat)

end
