(* ===== verification/Codec.thy ===== *)
theory Codec
  imports Endian Packets
begin

text \<open>
  \<open>Encoder\<close> and \<open>Decoder\<close> (\<open>include/protocol/encoder.hpp\<close>, \<open>src/protocol/encoder.cpp\<close>,
  \<open>include/protocol/decoder.hpp\<close>, \<open>src/protocol/decoder.cpp\<close>). The exceptions they throw are the
  left side of a sum: the text of \<open>std::invalid_argument\<close> for the encoder, a protocol error with a
  text (\<open>ProtocolDecodeError\<close>) for the decoder. Both take the byte order of the machine they run on;
  the round-trip lemmas let the two machines differ.

  The decoder computes \<open>HEADER_SIZE + payloadLength\<close> in \<open>std::size_t\<close>; a payload length has 32 bits,
  so the sum stays far below \<open>2 ^ 64\<close> and natural numbers compute the same.
\<close>

section \<open>Encoder\<close>

definition appendValue :: "endianness \<Rightarrow> bytes \<Rightarrow> 'a::len word \<Rightarrow> bytes" where
  "appendValue native buffer value = buffer @ store_native native value"

definition encode :: "endianness \<Rightarrow> packet \<Rightarrow> string + bytes" where
  "encode native packet =
     (if \<not> packet_isValid packet then Inl ''Cannot encode invalid packet''
      else
        let buffer = [];
            buffer = appendValue native buffer (hostToNetwork32 native (packet_magicNumber packet));
            buffer = buffer @ [packet_version packet];
            buffer = buffer @ [packet_flags packet];
            buffer = appendValue native buffer (hostToNetwork16 native (packet_opcode packet));
            buffer = appendValue native buffer (hostToNetwork32 native (packet_sequenceId packet));
            buffer = appendValue native buffer (hostToNetwork32 native (packet_payloadLength packet));
            buffer = buffer @ packet_payload packet
        in Inr buffer)"

section \<open>Decoder\<close>

record protocol_decode_error =
  pde_error :: protocol_error
  pde_what :: string

definition ProtocolDecodeError :: "protocol_error \<Rightarrow> string \<Rightarrow> protocol_decode_error" where
  "ProtocolDecodeError e msg = \<lparr>pde_error = e, pde_what = msg\<rparr>"

definition readUint32 :: "endianness \<Rightarrow> bytes \<Rightarrow> nat \<Rightarrow> u32" where
  "readUint32 native data offset =
     networkToHost32 native (load_native native (take 4 (drop offset data)))"

definition readUint16 :: "endianness \<Rightarrow> bytes \<Rightarrow> nat \<Rightarrow> u16" where
  "readUint16 native data offset =
     networkToHost16 native (load_native native (take 2 (drop offset data)))"

definition decode :: "endianness \<Rightarrow> bytes \<Rightarrow> protocol_decode_error + packet" where
  "decode native data =
     (if length data < HEADER_SIZE
      then Inl (ProtocolDecodeError PE_InvalidPacket ''Invalid packet size'')
      else if readUint32 native data 0 \<noteq> MagicNumber
      then Inl (ProtocolDecodeError PE_InvalidPacket ''Invalid magic number'')
      else if data ! 4 \<noteq> VERSION
      then Inl (ProtocolDecodeError PE_UnsupportedVersion ''Unsupported protocol version'')
      else
        let version = data ! 4;
            flags = data ! 5;
            opcode = readUint16 native data 6;
            sequenceId = readUint32 native data 8;
            payloadLength = readUint32 native data 12;
            expectedSize = HEADER_SIZE + unat payloadLength
        in if length data \<noteq> expectedSize
           then Inl (ProtocolDecodeError PE_InvalidPayload ''Payload size mismatch'')
           else
             let packet = Packet;
                 packet = packet_setVersion version packet;
                 packet = packet_setFlags flags packet;
                 packet = packet_setOpcode opcode packet;
                 packet = packet_setSequenceId sequenceId packet
             in Inr (if payloadLength > 0
                     then packet_setPayload (drop HEADER_SIZE data) packet
                     else packet))"

section \<open>Layout\<close>

text \<open>The sixteen bytes of a header, as the fields put them on the wire.\<close>

definition wire_header :: "packet \<Rightarrow> bytes" where
  "wire_header p = rev (store_le (pk_magic p)) @ [pk_version p, pk_flags p] @
     rev (store_le (pk_opcode p)) @ rev (store_le (pk_sequenceId p)) @
     rev (store_le (packet_payloadLength p))"

lemma length_wire_header [simp]: "length (wire_header p) = 16"
  by (simp add: wire_header_def)

lemma encode_wire:
  "packet_isValid p \<Longrightarrow> encode h p = Inr (wire_header p @ pk_payload p)"
  by (simp add: encode_def Let_def appendValue_def wire_header_def packet_unfold
        wire16.wire_bytes wire32.wire_bytes)

lemma encode_invalid: "\<not> packet_isValid p \<Longrightarrow> encode h p = Inl ''Cannot encode invalid packet''"
  by (simp add: encode_def)

lemma read32_wire:
  "take 4 (drop off d) = rev (store_le v) \<Longrightarrow> readUint32 h d off = v"
  by (simp add: readUint32_def networkToHost32_def wire32.hton_by_host flip: wire32.wire_bytes [of h])
    (metis wire32.get_put wire32.hton_by_host)

lemma read16_wire:
  "take 2 (drop off d) = rev (store_le v) \<Longrightarrow> readUint16 h d off = v"
  by (simp add: readUint16_def networkToHost16_def flip: wire16.wire_bytes [of h])
    (metis wire16.get_put)

lemma wire_read32:
  "off + 4 \<le> length d \<Longrightarrow> rev (store_le (readUint32 h d off)) = take 4 (drop off d)"
  by (simp add: readUint32_def networkToHost32_def flip: wire32.wire_bytes [of h])
    (simp add: wire32.put_get)

lemma wire_read16:
  "off + 2 \<le> length d \<Longrightarrow> rev (store_le (readUint16 h d off)) = take 2 (drop off d)"
  by (simp add: readUint16_def networkToHost16_def flip: wire16.wire_bytes [of h])
    (simp add: wire16.put_get)

section \<open>Reading a header back\<close>

lemma header_fields:
  assumes "d = wire_header p @ rest"
  shows "readUint32 h d 0 = pk_magic p" "d ! 4 = pk_version p" "d ! 5 = pk_flags p"
    "readUint16 h d 6 = pk_opcode p" "readUint32 h d 8 = pk_sequenceId p"
    "readUint32 h d 12 = packet_payloadLength p"
  using assms
  by (auto intro!: read32_wire read16_wire simp: wire_header_def nth_append)

lemma split_header:
  assumes "16 \<le> length d"
  shows "d = take 4 d @ [d ! 4, d ! 5] @ take 2 (drop 6 d) @ take 4 (drop 8 d) @
    take 4 (drop 12 d) @ drop 16 d"
proof -
  have step: "drop m d = take k (drop m d) @ drop (m + k) d" for m k
    by (metis append_take_drop_id drop_drop add.commute)
  have "drop 4 d = d ! 4 # d ! 5 # drop 6 d"
    using assms Cons_nth_drop_Suc [of 4 d] Cons_nth_drop_Suc [of 5 d] by simp
  then show ?thesis
    using step [of 0 4] step [of 6 2] step [of 8 4] step [of 12 4] by simp
qed

lemma decode_wire:
  assumes "packet_isValid p"
  shows "decode h (wire_header p @ pk_payload p) = Inr p"
proof -
  let ?d = "wire_header p @ pk_payload p"
  note fields = header_fields [OF refl, where p = p and rest = "pk_payload p"]
  have "unat (packet_payloadLength p) = length (pk_payload p)"
    using assms by (simp add: packet_isValid_iff payloadLength_exact)
  then have "length ?d = HEADER_SIZE + unat (readUint32 h ?d 12)"
    and "\<not> 0 < packet_payloadLength p \<Longrightarrow> pk_payload p = []"
    by (auto simp: HEADER_SIZE_def fields word_gt_0)
  then show ?thesis
    using assms
    by (auto simp: decode_def Let_def fields packet_simps HEADER_SIZE_def intro!: packet.equality)
qed

lemma decode_Inr:
  assumes "decode h d = Inr p"
  shows "packet_isValid p \<and> d = wire_header p @ pk_payload p"
proof -
  have len: "16 \<le> length d" and magic: "readUint32 h d 0 = MagicNumber" and ver: "d ! 4 = VERSION"
    and size: "length d = 16 + unat (readUint32 h d 12)"
    using assms by (auto simp: decode_def Let_def HEADER_SIZE_def split: if_splits)
  have p: "pk_magic p = MagicNumber" "pk_version p = d ! 4" "pk_flags p = d ! 5"
    "pk_opcode p = readUint16 h d 6" "pk_sequenceId p = readUint32 h d 8" "pk_payload p = drop 16 d"
    using assms size
    by (auto simp: decode_def Let_def HEADER_SIZE_def packet_unfold word_gt_0 split: if_splits)
  have small: "length (drop 16 d) < 2 ^ 32"
    using size unsigned_less [of "readUint32 h d 12", where ?'a = nat] by simp
  have "unat (packet_payloadLength p) = unat (readUint32 h d 12)"
    using payloadLength_exact [of p] small size p by simp
  then have pl: "packet_payloadLength p = readUint32 h d 12" by (simp add: unsigned_word_eqI)
  have "wire_header p @ pk_payload p = take 4 d @ [d ! 4, d ! 5] @ take 2 (drop 6 d) @
      take 4 (drop 8 d) @ take 4 (drop 12 d) @ drop 16 d"
    using len wire_read32 [of 0 d h] wire_read16 [of 6 d h] wire_read32 [of 8 d h] wire_read32 [of 12 d h]
    by (simp add: wire_header_def p pl magic)
  then show ?thesis using split_header [OF len] p ver small by (simp add: packet_isValid_iff)
qed

lemma readUint32_be:
  assumes "off + 4 \<le> length d"
  shows "unat (readUint32 h d off) = be_value (take 4 (drop off d))"
  using wire32.wire_value [of h "readUint32 h d off"] wire_read32 [OF assms, of h]
  by (simp add: wire32.wire_bytes)

lemma readUint16_be:
  assumes "off + 2 \<le> length d"
  shows "unat (readUint16 h d off) = be_value (take 2 (drop off d))"
  using wire16.wire_value [of h "readUint16 h d off"] wire_read16 [OF assms, of h]
  by (simp add: wire16.wire_bytes)

lemma readUint32_eq: "off + 4 \<le> length d \<Longrightarrow> readUint32 h d off = word_of_nat (be_value (take 4 (drop off d)))"
  by (metis readUint32_be of_nat_unat ucast_id)

lemma readUint16_eq: "off + 2 \<le> length d \<Longrightarrow> readUint16 h d off = word_of_nat (be_value (take 2 (drop off d)))"
  by (metis readUint16_be of_nat_unat ucast_id)

section \<open>The reference decoder\<close>

text \<open>
  A reference decoder that knows only byte positions and big-endian numbers: no machine byte order,
  no words but the packet's own fields.
\<close>

definition reference_decode :: "bytes \<Rightarrow> protocol_error + packet" where
  "reference_decode d =
     (if length d < 16 \<or> be_value (take 4 d) \<noteq> 0x50464B54 then Inl PE_InvalidPacket
      else if d ! 4 \<noteq> 1 then Inl PE_UnsupportedVersion
      else if length d \<noteq> 16 + be_value (take 4 (drop 12 d)) then Inl PE_InvalidPayload
      else Inr \<lparr>pk_magic = 0x50464B54, pk_version = 1, pk_flags = d ! 5,
        pk_opcode = word_of_nat (be_value (take 2 (drop 6 d))),
        pk_sequenceId = word_of_nat (be_value (take 4 (drop 8 d))),
        pk_payload = drop 16 d\<rparr>)"

lemma decode_reference_eq: "map_sum pde_error id (decode h d) = reference_decode d"
proof (cases "length d < 16")
  case True
  then show ?thesis
    by (simp add: decode_def reference_decode_def HEADER_SIZE_def ProtocolDecodeError_def)
next
  case False
  have m: "readUint32 h d 0 = MagicNumber \<longleftrightarrow> be_value (take 4 d) = 0x50464B54"
    using False readUint32_be [of 0 d h] by (simp add: MagicNumber_def word_unat_eq_iff)
  define n where "n = be_value (take 4 (drop 12 d))"
  have l: "unat (readUint32 h d 12) = n"
    using False readUint32_be [of 12 d h] by (simp add: n_def)
  then have z: "0 < readUint32 h d 12 \<longleftrightarrow> n \<noteq> 0"
    by (metis unat_gt_0 word_gt_0 neq0_conv)
  have o: "readUint16 h d 6 = word_of_nat (be_value (take 2 (drop 6 d)))"
    and s: "readUint32 h d 8 = word_of_nat (be_value (take 4 (drop 8 d)))"
    using False by (simp_all add: readUint16_eq readUint32_eq)
  show ?thesis
    using False
    by (simp add: decode_def reference_decode_def Let_def HEADER_SIZE_def m l z o s
        ProtocolDecodeError_def packet_unfold flip: n_def) (simp add: MagicNumber_def VERSION_def)
qed

section \<open>Properties\<close>

text \<open>
  C21. The decoder computes the reference decoder on every input and on every machine: it rejects a
  short input or a wrong magic number with \<open>InvalidPacket\<close>, then a wrong version with
  \<open>UnsupportedVersion\<close>, then a length that does not match with \<open>InvalidPayload\<close>, and otherwise
  returns the packet whose fields stand big-endian at the documented offsets.
\<close>

theorem decode_reference: "map_sum pde_error id (decode h d) = reference_decode d"
  by (rule decode_reference_eq)

text \<open>
  C22. Encoding then decoding gives the packet back, whatever the byte orders of the two machines,
  and the encoding does not depend on the machine: sixteen header bytes and the payload.
\<close>

theorem codec_roundtrip:
  assumes "packet_isValid p"
  shows "\<exists>d. length d = 16 + length (pk_payload p) \<and>
    (\<forall>sender receiver. encode sender p = Inr d \<and> decode receiver d = Inr p)"
  using assms encode_wire decode_wire
  by (intro exI [of _ "wire_header p @ pk_payload p"]) auto

theorem codec_roundtrip_witness:
  "\<exists>d. length d = 16 + length (pk_payload (Packet\<lparr>pk_opcode := 1, pk_payload := [7, 8]\<rparr>)) \<and>
    (\<forall>sender receiver. encode sender (Packet\<lparr>pk_opcode := 1, pk_payload := [7, 8]\<rparr>) = Inr d \<and>
       decode receiver d = Inr (Packet\<lparr>pk_opcode := 1, pk_payload := [7, 8]\<rparr>))"
  by (rule codec_roundtrip) (simp add: packet_isValid_iff Packet_def)

text \<open>
  C23. The decoder accepts only encodings: a byte sequence it turns into a packet is exactly what
  the encoder produces for that packet, so no two byte sequences decode to the same packet.
\<close>

theorem decode_only_encodings:
  assumes "decode h d = Inr p"
  shows "packet_isValid p \<and> encode h' p = Inr d"
  using decode_Inr [OF assms] encode_wire [of p h'] by simp

theorem decode_only_encodings_witness:
  "packet_isValid (Packet\<lparr>pk_flags := 5\<rparr>) \<and>
    encode Big (Packet\<lparr>pk_flags := 5\<rparr>) =
      Inr [0x50, 0x46, 0x4B, 0x54, 1, 5, 0, 0, 0, 0, 0, 0, 0, 0, 0, 0]"
proof (rule decode_only_encodings [where h = Little])
  show "decode Little [0x50, 0x46, 0x4B, 0x54, 1, 5, 0, 0, 0, 0, 0, 0, 0, 0, 0, 0]
      = Inr (Packet\<lparr>pk_flags := 5\<rparr>)"
    by code_simp
qed

end
