(* ===== verification/Packet_IO.thy ===== *)
theory Packet_IO
  imports Transports Codec
begin

text \<open>
  \<open>packetforge::protocol::PacketIO\<close> (\<open>include/protocol/packet_io.hpp\<close>, \<open>src/protocol/packet_io.cpp\<close>):
  framing. A packet is encoded and sent as one block; receiving reads the fixed header, takes the
  payload length from it, reads the payload and decodes the two together. The reference member
  \<open>transport_\<close> is the transport argument. The output parameter \<open>protocolError\<close> is a pointer:
  \<open>None\<close> stands for \<open>nullptr\<close>, \<open>Some e\<close> for a pointer to a variable holding \<open>e\<close>.
\<close>

definition packetio_send :: "'w platform \<Rightarrow> transport \<Rightarrow> packet \<Rightarrow> 'w world \<Rightarrow> error \<times> 'w world" where
  "packetio_send P t packet w =
     (case encode (native P) packet of
        Inl what \<Rightarrow> (Error SerializationError what, w)
      | Inr data \<Rightarrow> transport_send P t data w)"

definition packetio_receive ::
    "'w platform \<Rightarrow> transport \<Rightarrow> packet \<Rightarrow> protocol_error option \<Rightarrow> 'w world
       \<Rightarrow> error \<times> packet \<times> protocol_error option \<times> transport \<times> 'w world" where
  "packetio_receive P t packet protocolError w =
     (let protocolError1 = map_option (\<lambda>_. PE_InvalidPacket) protocolError in
      case transport_receive P t [] HEADER_SIZE w of (error, header, t1, w1) \<Rightarrow>
        if \<not> error_ok error then (error, packet, protocolError1, t1, w1)
        else
          let networkPayloadLength = load_native (native P) (take 4 (drop 12 header));
              payloadLength = networkToHost32 (native P) networkPayloadLength
          in
          case (if payloadLength > 0 then transport_receive P t1 [] (unat payloadLength) w1
                else (error, [], t1, w1)) of (error2, payload, t2, w2) \<Rightarrow>
            if \<not> error_ok error2 then (error2, packet, protocolError1, t2, w2)
            else
              let data = header @ payload in
              case decode (native P) data of
                Inl err \<Rightarrow>
                  (Error ProtocolError (pde_what err), packet,
                   map_option (\<lambda>_. pde_error err) protocolError1, t2, w2)
              | Inr decoded \<Rightarrow> (Error Success '''', decoded, protocolError1, t2, w2))"

section \<open>Sending\<close>

lemma packetio_send_cases:
  assumes "packetio_send P t p w = (e, w')"
  shows "packet_isValid p \<and> transport_send P t (wire_header p @ pk_payload p) w = (e, w') \<or>
    \<not> packet_isValid p \<and> e = Error SerializationError ''Cannot encode invalid packet'' \<and> w' = w"
  using assms by (cases "packet_isValid p") (auto simp: packetio_send_def encode_wire encode_invalid)

lemma packetio_send_transfers:
  "packetio_send P t p w = (e, w') \<Longrightarrow> transport_inv t \<Longrightarrow>
    transfers (transport_owned t) w (transport_owned t) w'"
  by (drule packetio_send_cases) (auto dest: transport_send_transfers)

section \<open>Receiving\<close>

text \<open>The two blocks of a frame, as \<open>packetio_receive\<close> reads them.\<close>

lemma payload_length_read:
  "networkToHost32 h (load_native h (take 4 (drop 12 d))) = readUint32 h d 12"
  by (simp add: readUint32_def)

lemma packetio_receive_split:
  assumes "packetio_receive P t p pe w = (e, p', pe', t', w')"
  obtains
    (header_failed) d where "transport_receive P t [] 16 w = (e, d, t', w')" "\<not> error_ok e" "p' = p"
      "pe' = map_option (\<lambda>_. PE_InvalidPacket) pe"
  | (payload_failed) hdr d t1 w1 e1 where "transport_receive P t [] 16 w = (e1, hdr, t1, w1)" "error_ok e1"
      "transport_receive P t1 [] (unat (readUint32 (native P) hdr 12)) w1 = (e, d, t', w')"
      "\<not> error_ok e" "p' = p" "pe' = map_option (\<lambda>_. PE_InvalidPacket) pe"
  | (framed) hdr d t1 w1 e1 e2 where "transport_receive P t [] 16 w = (e1, hdr, t1, w1)" "error_ok e1"
      "readUint32 (native P) hdr 12 = 0 \<and> d = [] \<and> t' = t1 \<and> w' = w1 \<or>
       readUint32 (native P) hdr 12 \<noteq> 0 \<and> error_ok e2 \<and>
         transport_receive P t1 [] (unat (readUint32 (native P) hdr 12)) w1 = (e2, d, t', w')"
      "case decode (native P) (hdr @ d) of
         Inl err \<Rightarrow> e = Error ProtocolError (pde_what err) \<and> p' = p \<and> pe' = map_option (\<lambda>_. pde_error err) pe
       | Inr q \<Rightarrow> e = Error Success '''' \<and> p' = q \<and> pe' = map_option (\<lambda>_. PE_InvalidPacket) pe"
proof -
  obtain e1 hdr t1 w1 where r1: "transport_receive P t [] 16 w = (e1, hdr, t1, w1)" by (metis prod_cases4)
  show thesis
  proof (cases "error_ok e1")
    case False
    then show thesis using assms r1 header_failed
      by (auto simp: packetio_receive_def HEADER_SIZE_def)
  next
    case True
    show thesis
    proof (cases "readUint32 (native P) hdr 12 = 0")
      case z: True
      have "case decode (native P) (hdr @ []) of
         Inl err \<Rightarrow> e = Error ProtocolError (pde_what err) \<and> p' = p \<and> pe' = map_option (\<lambda>_. pde_error err) pe
       | Inr q \<Rightarrow> e = Error Success '''' \<and> p' = q \<and> pe' = map_option (\<lambda>_. PE_InvalidPacket) pe"
        and "t' = t1" "w' = w1"
        using assms r1 True z
        by (auto simp: packetio_receive_def HEADER_SIZE_def Let_def payload_length_read option.map_comp comp_def
            split: sum.splits)
      then show thesis using framed [OF r1 True, of "[]"] z by simp
    next
      case nz: False
      obtain e2 d t2 w2 where r2: "transport_receive P t1 [] (unat (readUint32 (native P) hdr 12)) w1
          = (e2, d, t2, w2)" by (metis prod_cases4)
      show thesis
      proof (cases "error_ok e2")
        case False
        then show thesis using assms r1 True nz r2 payload_failed [OF r1 True]
          by (auto simp: packetio_receive_def HEADER_SIZE_def Let_def payload_length_read word_gt_0)
      next
        case ok2: True
        have "case decode (native P) (hdr @ d) of
           Inl err \<Rightarrow> e = Error ProtocolError (pde_what err) \<and> p' = p \<and> pe' = map_option (\<lambda>_. pde_error err) pe
         | Inr q \<Rightarrow> e = Error Success '''' \<and> p' = q \<and> pe' = map_option (\<lambda>_. PE_InvalidPacket) pe"
          and "t' = t2" "w' = w2"
          using assms r1 True nz r2 ok2
          by (auto simp: packetio_receive_def HEADER_SIZE_def Let_def payload_length_read word_gt_0
              option.map_comp comp_def split: sum.splits)
        then show thesis using framed [OF r1 True, of d e2] nz r2 ok2 by simp
      qed
    qed
  qed
qed

lemma packetio_receive_transfers:
  assumes "packetio_receive P t p pe w = (e, p', pe', t', w')" "transport_inv t"
  shows "transfers (transport_owned t) w (transport_owned t') w' \<and> transport_inv t'"
  using assms(1)
proof (cases rule: packetio_receive_split)
  case (header_failed d)
  then show ?thesis using transport_receive_keeps assms(2) by blast
next
  case (payload_failed hdr d t1 w1 e1)
  then show ?thesis using transport_receive_keeps_two assms(2) by blast
next
  case (framed hdr d t1 w1 e1 e2)
  then show ?thesis
    using transport_receive_keeps [OF framed(1) assms(2)]
      transport_receive_keeps_two [OF framed(1) _ assms(2)] by blast
qed

text \<open>A frame that was read: what it consumed, and what its decoding can say.\<close>

lemma framed_bytes:
  assumes "kernel_ok P" "transport_receive P t [] 16 w = (e1, hdr, t1, w1)" "error_ok e1"
    "readUint32 (native P) hdr 12 = 0 \<and> d = [] \<and> t' = t1 \<and> w' = w1 \<or>
       readUint32 (native P) hdr 12 \<noteq> 0 \<and> error_ok e2 \<and>
         transport_receive P t1 [] (unat (readUint32 (native P) hdr 12)) w1 = (e2, d, t', w')"
  shows "transport_isConnected t \<and> t' = t \<and> length hdr = 16 \<and> length d = unat (readUint32 (native P) hdr 12) \<and>
    received (transport_handle t) (log w') = received (transport_handle t) (log w) @ hdr @ d"
  using tstream.get_ok [OF assms(1-3)] tstream.get_ok [OF assms(1), of t1] assms(4)
  by fastforce

lemma framed_length:
  assumes "length hdr = 16" "length d = unat (readUint32 h hdr 12)"
  shows "decode h (hdr @ d) = Inl err \<Longrightarrow> pde_error err \<in> {PE_InvalidPacket, PE_UnsupportedVersion}"
  using assms
  by (auto simp: decode_def Let_def HEADER_SIZE_def readUint32_def ProtocolDecodeError_def split: if_splits)



text \<open>The two outcomes of \<open>receive\<close>: a transport failure, or the decoding of one whole frame.\<close>

lemma packetio_receive_outcome:
  assumes "kernel_ok P" "packetio_receive P t p pe w = (e, p', pe', t', w')"
  obtains
    (failed) "error_code e \<in> {SocketError, ConnectionClosed, ConnectionFailed}"
      "error_code e = ConnectionClosed \<Longrightarrow> t' = Transport"
  | (frame) R where "t' = t" "length R = 16 + be_value (take 4 (drop 12 R))"
      "received (transport_handle t) (log w') = received (transport_handle t) (log w) @ R"
      "case decode (native P) R of
         Inl err \<Rightarrow> e = Error ProtocolError (pde_what err) \<and> p' = p \<and> pe' = map_option (\<lambda>_. pde_error err) pe
       | Inr q \<Rightarrow> e = Error Success '''' \<and> p' = q \<and> pe' = map_option (\<lambda>_. PE_InvalidPacket) pe"
  using assms(2)
proof (cases rule: packetio_receive_split)
  case (header_failed d)
  show thesis
    using failed tstream.get_fails [OF header_failed(1,2)] transport_receive_result [OF header_failed(1)]
    by blast
next
  case (payload_failed hdr d t1 w1 e1)
  show thesis
    using failed tstream.get_fails [OF payload_failed(3,4)] transport_receive_result [OF payload_failed(3)]
    by blast
next
  case (framed hdr d t1 w1 e1 e2)
  note b = framed_bytes [OF assms(1) framed(1-3)]
  then have "length (hdr @ d) = 16 + be_value (take 4 (drop 12 (hdr @ d)))"
    using readUint32_be [of 12 hdr "native P"] by simp
  then show thesis using frame [of "hdr @ d"] b framed(4) by simp
qed

lemma packetio_send_frame:
  "packetio_send P t p w = (e, w') \<Longrightarrow>
    received f (log w') = received f (log w) \<and> diagnostics (log w') = diagnostics (log w)"
  by (auto simp: packetio_send_def split: sum.splits dest: transport_send_frame)

lemma packetio_receive_frame:
  assumes "packetio_receive P t p pe w = (e, p', pe', t', w')"
  shows "sent f (log w') = sent f (log w) \<and> diagnostics (log w') = diagnostics (log w)"
  using assms
  by (cases rule: packetio_receive_split) (auto dest!: transport_receive_frame [where f = f])

text \<open>
  A stream that starts with an encoding: \<open>receive\<close> succeeds exactly when it took the encoding whole,
  and then returns the packet encoded there.
\<close>

lemma announced_length:
  assumes "packet_isValid q" "R = take k (wire_header q @ pk_payload q)" "16 \<le> length R"
  shows "be_value (take 4 (drop 12 R)) = length (pk_payload q)"
proof -
  let ?d = "wire_header q @ pk_payload q"
  have "16 \<le> k" using assms(2,3) by simp
  then have "take 4 (drop 12 R) = take 4 (drop 12 ?d)"
    unfolding assms(2) drop_take take_take by (simp add: min_absorb1)
  also have "be_value \<dots> = unat (readUint32 Little ?d 12)" using readUint32_be [of 12 ?d Little] by simp
  also have "\<dots> = length (pk_payload q)"
    using assms(1) header_fields(6) [OF refl, of Little q "pk_payload q"]
    by (simp add: packet_isValid_iff payloadLength_exact)
  finally show ?thesis .
qed

lemma packetio_receive_prefix:
  assumes "packetio_receive P t p pe w = (e, p', pe', t', w')" "kernel_ok P" "encode h q = Inr d"
    "received (transport_handle t) (log w') = received (transport_handle t) (log w) @ R" "R = take k d"
  shows "(error_ok e \<longleftrightarrow> length R = length d) \<and> (error_ok e \<longrightarrow> p' = q)"
proof -
  have v: "packet_isValid q" and d: "d = wire_header q @ pk_payload q"
    using assms(3) by (cases "packet_isValid q"; simp add: encode_invalid encode_wire)+
  have whole: "length d = 16 + length (pk_payload q)" by (simp add: d)
  note announced = announced_length [OF v assms(5) [unfolded d]]
  from assms(1) show ?thesis
  proof (cases rule: packetio_receive_split)
    case (header_failed b)
    then show ?thesis using transport_receive_short [OF header_failed(1) assms(2)] assms(4) whole by auto
  next
    case (payload_failed hdr b t1 w1 e1)
    from tstream.get_ok [OF assms(2) payload_failed(1,2)] have h: "t1 = t" "length hdr = 16"
      "received (transport_handle t) (log w1) = received (transport_handle t) (log w) @ hdr" by simp_all
    obtain bs where bs: "received (transport_handle t) (log w') = received (transport_handle t) (log w1) @ bs"
      "bs = [] \<or> length bs < unat (readUint32 (native P) hdr 12)"
      using transport_receive_short [OF payload_failed(3) assms(2) payload_failed(4)] h(1) by blast
    have R: "R = hdr @ bs" using bs(1) h(3) assms(4) by simp
    then have "be_value (take 4 (drop 12 hdr)) = length (pk_payload q)" using announced h(2) by simp
    then have n: "unat (readUint32 (native P) hdr 12) = length (pk_payload q)"
      using readUint32_be [of 12 hdr "native P"] h(2) by simp
    have "length (pk_payload q) \<noteq> 0"
    proof
      assume "length (pk_payload q) = 0"
      with n have "transport_receive P t1 [] 0 w1 = (e, b, t', w')" using payload_failed(3) by simp
      then show False
        using payload_failed(4) tstream.get_ok [OF assms(2) payload_failed(1,2)]
        by (auto simp: transport_receive_def receive_loop_done transport_isConnected_def)
    qed
    then show ?thesis using bs(2) n R h(2) whole payload_failed(4) by auto
  next
    case (framed hdr b t1 w1 e1 e2)
    note f = framed_bytes [OF assms(2) framed(1-3)]
    have R: "R = hdr @ b" using f assms(4) by simp
    then have "length R = length d" using announced readUint32_be [of 12 hdr "native P"] f whole by simp
    then have "R = d" using assms(5) by simp
    then have "decode (native P) (hdr @ b) = Inr q" using R d decode_wire [OF v] by simp
    then show ?thesis using framed(4) \<open>R = d\<close> by simp
  qed
qed

lemma packetio_receive_delivers:
  assumes "encode sender p = Inr d" "transport_isConnected t"
    "delivers P (transport_handle t) (d @ rest) (kernel w)"
  shows "\<exists>w'. packetio_receive P t q pe w =
      (Error Success '''', p, map_option (\<lambda>_. PE_InvalidPacket) pe, t, w') \<and>
    delivers P (transport_handle t) rest (kernel w')"
proof -
  have v: "packet_isValid p" using assms(1) by (cases "packet_isValid p") (auto simp: encode_invalid)
  then have d: "d = wire_header p @ pk_payload p" using assms(1) by (simp add: encode_wire)
  let ?n = "unat (packet_payloadLength p)"
  have n: "?n = length (pk_payload p)" using v by (simp add: packet_isValid_iff payloadLength_exact)
  have "16 + ?n \<le> length (d @ rest)" using d n by simp
  from tstream.get_two_delivers [OF assms(2,3) this] obtain w1 w2 where
    r: "transport_receive P t [] 16 w = (ok_result, wire_header p, t, w1)"
      "transport_receive P t [] ?n w1 = (ok_result, pk_payload p, t, w2)"
      "delivers P (transport_handle t) rest (kernel w2)"
    using d n by auto
  have l: "networkToHost32 (native P) (load_native (native P) (drop 12 (wire_header p))) =
      packet_payloadLength p"
    using header_fields(6) [of "wire_header p" p "[]" "native P"]
      payload_length_read [of "native P" "wire_header p"] by simp
  show ?thesis
  proof (cases "packet_payloadLength p = 0")
    case True
    then have "pk_payload p = []" using n by simp
    then have "packetio_receive P t q pe w =
        (ok_result, p, map_option (\<lambda>_. PE_InvalidPacket) pe, t, w1)"
      using r l True decode_wire [OF v, of "native P"]
      by (simp add: packetio_receive_def HEADER_SIZE_def Let_def)
    moreover have "delivers P (transport_handle t) rest (kernel w1)"
      using tstream.get_delivers [OF assms(2,3), of 16] d r \<open>pk_payload p = []\<close> by auto
    ultimately show ?thesis by blast
  next
    case False
    then have "packetio_receive P t q pe w =
        (ok_result, p, map_option (\<lambda>_. PE_InvalidPacket) pe, t, w2)"
      using r l decode_wire [OF v, of "native P"]
      by (simp add: packetio_receive_def HEADER_SIZE_def Let_def word_gt_0)
    then show ?thesis using r(3) by blast
  qed
qed

section \<open>The calls of a receive\<close>

text \<open>The calls of one block, and of a header that arrived.\<close>

lemma block_calls:
  assumes "transport_receive P t [] n w = (e, d, t', w')" "kernel_ok P" "transport_isConnected t"
  obtains es bs where "log w' = log w @ es" "transport_receives t n es bs (e, d, t')"
    "received (transport_handle t) (log w') = received (transport_handle t) (log w) @ bs"
    "error_ok e \<longrightarrow> bs = d" "\<not> error_ok e \<longrightarrow> d = []"
proof -
  from transport_receive_calls [OF assms] obtain es bs
    where es: "log w' = log w @ es" "transport_receives t n es bs (e, d, t')" by blast
  then have "received (transport_handle t) (log w') = received (transport_handle t) (log w) @ bs"
    using transport_receives_received [OF es(2)] by (simp add: received_simps)
  moreover from es(2) have "error_ok e \<longrightarrow> bs = d" "\<not> error_ok e \<longrightarrow> d = []"
    by (auto elim: transport_receives.cases)
  ultimately show thesis using es that by blast
qed

lemma header_calls:
  assumes "transport_receive P t [] 16 w = (e, hdr, t1, w1)" "kernel_ok P" "error_ok e"
  obtains es where "log w1 = log w @ es" "transport_receives t 16 es hdr (Error Success '''', hdr, t)"
    "transport_isConnected t" "t1 = t" "length hdr = 16"
    "received (transport_handle t) (log w1) = received (transport_handle t) (log w) @ hdr"
proof -
  have ok: "transport_isConnected t" "t1 = t" "length hdr = 16"
    "received (transport_handle t) (log w1) = received (transport_handle t) (log w) @ hdr"
    using tstream.get_ok [OF assms(2,1,3)] by simp_all
  obtain es bs where es: "log w1 = log w @ es" "transport_receives t 16 es bs (e, hdr, t1)" "bs = hdr"
    using block_calls [OF assms(1,2) ok(1)] assms(3) by metis
  from es(2) have "e = Error Success ''''" using assms(3) by (auto elim: transport_receives.cases)
  then show thesis using that es ok by simp
qed

text \<open>
  \<open>frame_receives t es hdr bs x\<close>: the calls \<open>es\<close> read the header \<open>hdr\<close> whole, and then of the payload it
  announces the bytes \<open>bs\<close>, with the result \<open>x\<close>.
\<close>

definition frame_receives ::
    "transport \<Rightarrow> event list \<Rightarrow> bytes \<Rightarrow> bytes \<Rightarrow> error \<times> bytes \<times> transport \<Rightarrow> bool" where
  "frame_receives t es hdr bs x \<longleftrightarrow>
     (\<exists>es1 es2. es = es1 @ es2 \<and> transport_receives t 16 es1 hdr (Error Success '''', hdr, t) \<and>
        transport_receives t (be_value (drop 12 hdr)) es2 bs x)"

lemma framed_calls:
  assumes "kernel_ok P" "transport_receive P t [] 16 w = (e1, hdr, t1, w1)" "error_ok e1"
    "readUint32 (native P) hdr 12 = 0 \<and> d = [] \<and> t' = t1 \<and> w' = w1 \<or>
       readUint32 (native P) hdr 12 \<noteq> 0 \<and> error_ok e2 \<and>
         transport_receive P t1 [] (unat (readUint32 (native P) hdr 12)) w1 = (e2, d, t', w')"
  obtains es where "log w' = log w @ es" "frame_receives t es hdr d (Error Success '''', d, t)"
proof -
  note b = framed_bytes [OF assms]
  from header_calls [OF assms(2,1,3)] obtain es1
    where h: "log w1 = log w @ es1" "transport_receives t 16 es1 hdr (Error Success '''', hdr, t)" "t1 = t" .
  have n: "unat (readUint32 (native P) hdr 12) = be_value (drop 12 hdr)"
    using readUint32_be [of 12 hdr "native P"] b by simp
  have "\<exists>es2. log w' = log w1 @ es2 \<and>
      transport_receives t (be_value (drop 12 hdr)) es2 d (Error Success '''', d, t)"
  proof (cases "readUint32 (native P) hdr 12 = 0")
    case True
    then show ?thesis using assms(4) n transport_receives.receives_all [of "[]" 0 t] by auto
  next
    case False
    then have "transport_receive P t [] (be_value (drop 12 hdr)) w1 = (e2, d, t', w')" "error_ok e2"
      using assms(4) n h(3) by auto
    with block_calls [OF this(1) assms(1)] b obtain es2 where "log w' = log w1 @ es2"
      "transport_receives t (be_value (drop 12 hdr)) es2 d (e2, d, t')"
      by metis
    moreover from this(2) \<open>error_ok e2\<close> have "e2 = Error Success ''''" by (auto elim: transport_receives.cases)
    ultimately show ?thesis using b by auto
  qed
  then show thesis using h that unfolding frame_receives_def by auto
qed

section \<open>Properties\<close>

text \<open>
  C14. Sending a packet succeeds exactly when the packet is valid, the connection is up and the kernel
  accepted every byte of its encoding in order; an invalid packet is refused with
  \<open>SerializationError\<close> before any system call, and no failure lets bytes of anything but a proper
  prefix of the encoding out.
\<close>

theorem packetio_send_whole_frame:
  assumes "kernel_ok P" "packetio_send P t p w = (e, w')"
  shows "if packet_isValid p
    then \<exists>d n. encode (native P) p = Inr d \<and>
      sent (transport_handle t) (log w') = sent (transport_handle t) (log w) @ take n d \<and>
      (if error_ok e then transport_isConnected t \<and> n = length d
       else error_code e = (if transport_isConnected t then SocketError else ConnectionFailed) \<and>
         n < length d)
    else error_code e = SerializationError \<and> w' = w"
proof (cases "packet_isValid p")
  case False
  then show ?thesis using packetio_send_cases [OF assms(2)] by auto
next
  case True
  let ?d = "wire_header p @ pk_payload p"
  have s: "transport_send P t ?d w = (e, w')" using packetio_send_cases [OF assms(2)] True by simp
  have "?d \<noteq> []" by (simp add: wire_header_def)
  from transport_send_prefix [OF assms(1) s this] show ?thesis
    using True encode_wire [OF True, of "native P"] by (simp only: if_True) blast
qed

theorem packetio_send_whole_frame_witness:
  "error_ok (fst (packetio_send (sim_platform Little) demo_transport Packet (sim_world [] [] 5 []))) \<and>
   sent 3 (log (snd (packetio_send (sim_platform Little) demo_transport Packet (sim_world [] [] 5 [])))) =
     [0x50, 0x46, 0x4B, 0x54, 1, 0, 0, 0, 0, 0, 0, 0, 0, 0, 0, 0]"
proof -
  let ?r = "packetio_send (sim_platform Little) demo_transport Packet (sim_world [] [] 5 [])"
  have ok: "error_ok (fst ?r)" by code_simp
  have enc: "encode Little Packet = Inr [0x50, 0x46, 0x4B, 0x54, 1, 0, 0, 0, 0, 0, 0, 0, 0, 0, 0, 0]"
    by code_simp
  have "packet_isValid Packet" by code_simp
  with packetio_send_whole_frame [OF sim_kernel_ok, of Little demo_transport Packet
      "sim_world [] [] 5 []" "fst ?r" "snd ?r"] ok enc
  show ?thesis
    by (auto simp: sim_platform_def sim_world_def kernel_simps)
qed

text \<open>
  C13. Receiving does not depend on how the kernel cuts the stream. If the peer's bytes start with the
  encoding of a packet, made on a machine of either byte order, \<open>receive\<close> returns that packet with
  \<open>Success\<close>, however many \<open>recv\<close> calls the kernel needs, and leaves exactly the bytes after it.
\<close>

theorem packetio_receive_delivered:
  assumes "encode sender p = Inr d" "transport_isConnected t"
    "delivers P (transport_handle t) (d @ rest) (kernel w)"
  shows "\<exists>w'. packetio_receive P t q pe w =
      (Error Success '''', p, map_option (\<lambda>_. PE_InvalidPacket) pe, t, w') \<and>
    delivers P (transport_handle t) rest (kernel w')"
  using assms by (rule packetio_receive_delivers)

theorem packetio_receive_delivered_witness:
  "\<exists>w'. packetio_receive (sim_platform Big) demo_transport Packet None
      (sim_world [] [[0x50, 0x46, 0x4B], [0x54, 1, 9, 0, 1, 0, 0, 0, 7, 0, 0, 0, 2, 65], [66, 1], [2]] 5 []) =
      (Error Success '''', Packet\<lparr>pk_flags := 9, pk_opcode := 1, pk_sequenceId := 7, pk_payload := [65, 66]\<rparr>,
       None, demo_transport, w') \<and>
    delivers (sim_platform Big) 3 [1, 2] (kernel w')"
proof -
  let ?ps = "[[0x50, 0x46, 0x4B], [0x54, 1, 9, 0, 1, 0, 0, 0, 7, 0, 0, 0, 2, 65], [66, 1], [2]] :: bytes list"
  let ?p = "Packet\<lparr>pk_flags := 9, pk_opcode := 1, pk_sequenceId := 7, pk_payload := [65, 66]\<rparr>"
  have enc: "encode Little ?p = Inr [0x50, 0x46, 0x4B, 0x54, 1, 9, 0, 1, 0, 0, 0, 7, 0, 0, 0, 2, 65, 66]"
    by code_simp
  have del: "delivers (sim_platform Big) (transport_handle demo_transport)
      ([0x50, 0x46, 0x4B, 0x54, 1, 9, 0, 1, 0, 0, 0, 7, 0, 0, 0, 2, 65, 66] @ [1, 2])
      (kernel (sim_world [] ?ps 5 []))"
    using sim_delivers [of "kernel (sim_world [] ?ps 5 [])" Big 3] by (simp add: sim_world_def)
  show ?thesis
    using packetio_receive_delivered [OF enc _ del, of Packet None] by simp
qed

text \<open>
  C20. A successful \<open>receive\<close> consumed exactly one frame: the bytes taken from the connection are the
  encoding of the packet it returns, no byte more, and the connection is untouched.
\<close>

theorem packetio_receive_consumes:
  assumes "kernel_ok P" "packetio_receive P t q pe w = (e, p, pe', t', w')" "error_ok e"
  shows "t' = t \<and> transport_isConnected t \<and> (\<exists>d. (\<forall>h. encode h p = Inr d) \<and>
    received (transport_handle t) (log w') = received (transport_handle t) (log w) @ d)"
  using assms(2)
proof (cases rule: packetio_receive_split)
  case (framed hdr d t1 w1 e1 e2)
  have dec: "decode (native P) (hdr @ d) = Inr p"
    using framed(4) assms(3) by (auto split: sum.splits)
  show ?thesis
    using framed_bytes [OF assms(1) framed(1-3)] decode_Inr [OF dec] by (auto simp: encode_wire)
qed (use assms(3) in simp_all)

theorem packetio_receive_consumes_witness:
  "\<exists>w'. packetio_receive (sim_platform Little) demo_transport Packet None
      (sim_world [] [[0x50, 0x46, 0x4B, 0x54, 1, 0, 0, 2], [0, 0, 0, 0, 0, 0, 0, 0, 9]] 5 []) =
      (Error Success '''', Packet\<lparr>pk_opcode := 2\<rparr>, None, demo_transport, w') \<and>
    received 3 (log w') = [0x50, 0x46, 0x4B, 0x54, 1, 0, 0, 2, 0, 0, 0, 0, 0, 0, 0, 0]"
proof -
  let ?w = "sim_world [] [[0x50, 0x46, 0x4B, 0x54, 1, 0, 0, 2], [0, 0, 0, 0, 0, 0, 0, 0, 9]] 5 []"
  let ?r = "packetio_receive (sim_platform Little) demo_transport Packet None ?w"
  have r: "?r = (Error Success '''', Packet\<lparr>pk_opcode := 2\<rparr>, None, demo_transport,
      snd (snd (snd (snd ?r))))"
    by code_simp
  have enc: "encode Little (Packet\<lparr>pk_opcode := 2\<rparr>) =
      Inr [0x50, 0x46, 0x4B, 0x54, 1, 0, 0, 2, 0, 0, 0, 0, 0, 0, 0, 0]"
    by code_simp
  from packetio_receive_consumes [OF sim_kernel_ok r] enc
  have "received 3 (log (snd (snd (snd (snd ?r))))) =
      [0x50, 0x46, 0x4B, 0x54, 1, 0, 0, 2, 0, 0, 0, 0, 0, 0, 0, 0]"
    by (auto simp: sim_world_def kernel_simps)
  with r show ?thesis by blast
qed

text \<open>
  C15. Failures of \<open>receive\<close>, all of them. The caller's packet is never changed by a failure. Without a
  connection there is no system call. Otherwise the calls of \<open>recv\<close> and their answers say which
  failure it is and what was consumed: either the sixteen header bytes did not all arrive, or they
  arrived and the payload they announce did not, and then the answer that cut the frame short was
  negative, the error is \<open>SocketError\<close> and the connection is kept, or it was 0, the error is
  \<open>ConnectionClosed\<close> and the transport was disconnected. Or header and announced payload arrived, no
  byte more was taken, the connection is kept, and the error is the decoder's: \<open>InvalidPacket\<close> or
  \<open>UnsupportedVersion\<close>, never \<open>InvalidPayload\<close>.
\<close>

theorem packetio_receive_failure:
  assumes "kernel_ok P" "packetio_receive P t q pe w = (e, p, pe', t', w')" "\<not> error_ok e"
  shows "p = q \<and>
    (if \<not> transport_isConnected t
     then e = Error ConnectionFailed ''Connection not established'' \<and> t' = t \<and> w' = w \<and>
       pe' = map_option (\<lambda>_. PE_InvalidPacket) pe
     else \<exists>es R. log w' = log w @ es \<and>
       received (transport_handle t) (log w') = received (transport_handle t) (log w) @ R \<and>
       (if error_code e = ProtocolError
        then \<exists>hdr d err. R = hdr @ d \<and> frame_receives t es hdr d (Error Success '''', d, t) \<and> t' = t \<and>
          decode (native P) R = Inl err \<and> pde_error err \<in> {PE_InvalidPacket, PE_UnsupportedVersion} \<and>
          e = Error ProtocolError (pde_what err) \<and> pe' = map_option (\<lambda>_. pde_error err) pe
        else (error_code e = SocketError \<and> t' = t \<or> error_code e = ConnectionClosed \<and> t' = Transport) \<and>
          pe' = map_option (\<lambda>_. PE_InvalidPacket) pe \<and>
          (transport_receives t 16 es R (e, [], t') \<or>
           (\<exists>hdr bs. R = hdr @ bs \<and> frame_receives t es hdr bs (e, [], t')))))"
  using assms(2)
proof (cases rule: packetio_receive_split)
  case (header_failed d)
  show ?thesis
  proof (cases "transport_isConnected t")
    case False
    then show ?thesis using header_failed by (auto simp: transport_receive_def transport_isConnected_def)
  next
    case True
    from block_calls [OF header_failed(1) assms(1) True] obtain es bs
      where "log w' = log w @ es" "transport_receives t 16 es bs (e, [], t')"
        "received (transport_handle t) (log w') = received (transport_handle t) (log w) @ bs"
      using assms(3) by metis
    moreover from this(2) have "error_code e = SocketError \<and> t' = t \<or> error_code e = ConnectionClosed \<and> t' = Transport"
      using assms(3) by (auto elim: transport_receives.cases)
    ultimately show ?thesis using True header_failed(3,4) by auto
  qed
next
  case (payload_failed hdr d t1 w1 e1)
  from header_calls [OF payload_failed(1) assms(1) payload_failed(2)] obtain es1
    where h: "log w1 = log w @ es1" "transport_receives t 16 es1 hdr (Error Success '''', hdr, t)"
      "transport_isConnected t" "t1 = t" "length hdr = 16"
      "received (transport_handle t) (log w1) = received (transport_handle t) (log w) @ hdr" .
  have n: "unat (readUint32 (native P) hdr 12) = be_value (drop 12 hdr)"
    using readUint32_be [of 12 hdr "native P"] h(5) by simp
  from payload_failed(3) have "transport_receive P t [] (be_value (drop 12 hdr)) w1 = (e, d, t', w')"
    by (simp add: n h(4))
  from block_calls [OF this assms(1) h(3)] obtain es2 bs
    where b: "log w' = log w1 @ es2" "transport_receives t (be_value (drop 12 hdr)) es2 bs (e, [], t')"
      "received (transport_handle t) (log w') = received (transport_handle t) (log w1) @ bs"
    using assms(3) by metis
  then have "frame_receives t (es1 @ es2) hdr bs (e, [], t')" using h(2) unfolding frame_receives_def by blast
  moreover have "error_code e = SocketError \<and> t' = t \<or> error_code e = ConnectionClosed \<and> t' = Transport"
    using b(2) assms(3) by (auto elim: transport_receives.cases)
  ultimately show ?thesis using h b payload_failed(5,6) by auto
next
  case (framed hdr d t1 w1 e1 e2)
  obtain err where err: "decode (native P) (hdr @ d) = Inl err" "e = Error ProtocolError (pde_what err)" "p = q"
    "pe' = map_option (\<lambda>_. pde_error err) pe"
    using framed(4) assms(3) by (auto split: sum.splits)
  note b = framed_bytes [OF assms(1) framed(1-3)]
  from framed_calls [OF assms(1) framed(1-3)] obtain es
    where "log w' = log w @ es" "frame_receives t es hdr d (Error Success '''', d, t)" .
  then show ?thesis using b err framed_length [of hdr d "native P", OF _ _ err(1)] by auto
qed

text \<open>A peer that closes in the middle of the payload.\<close>

theorem packetio_receive_failure_witness:
  "\<exists>w' hdr. packetio_receive (sim_platform Little) demo_transport Packet (Some PE_InvalidPayload)
      (sim_world [] [[0x50, 0x46, 0x4B, 0x54, 1, 0, 0, 1], [0, 0, 0, 0, 0, 0, 0, 2, 9]] 5 []) =
      (Error ConnectionClosed ''Connection closed by peer'', Packet, Some PE_InvalidPacket, Transport, w') \<and>
    received 3 (log w') = hdr @ [9] \<and>
    frame_receives demo_transport (log w') hdr [9]
      (Error ConnectionClosed ''Connection closed by peer'', [], Transport)"
proof -
  let ?w = "sim_world [] [[0x50, 0x46, 0x4B, 0x54, 1, 0, 0, 1], [0, 0, 0, 0, 0, 0, 0, 2, 9]] 5 []"
  let ?r = "packetio_receive (sim_platform Little) demo_transport Packet (Some PE_InvalidPayload) ?w"
  let ?w' = "snd (snd (snd (snd ?r)))" and ?x = "(Error ConnectionClosed ''Connection closed by peer'', [], Transport)"
  let ?hdr = "[0x50, 0x46, 0x4B, 0x54, 1, 0, 0, 1, 0, 0, 0, 0, 0, 0, 0, 2] :: bytes"
  have r: "?r = (Error ConnectionClosed ''Connection closed by peer'', Packet, Some PE_InvalidPacket,
      Transport, ?w')"
    by code_simp
  have log: "log ?w = []" and got: "received 3 (log ?w') = ?hdr @ [9]" by code_simp+
  from packetio_receive_failure [OF sim_kernel_ok r] log got
  have c: "transport_receives demo_transport 16 (log ?w') (?hdr @ [9]) ?x \<or>
    (\<exists>hdr bs. ?hdr @ [9] = hdr @ bs \<and> frame_receives demo_transport (log ?w') hdr bs ?x)"
    by (auto simp: received_simps)
  have "\<not> transport_receives demo_transport 16 (log ?w') (?hdr @ [9]) ?x"
    by (auto dest: transport_receives_length)
  with c obtain hdr bs where f: "?hdr @ [9] = hdr @ bs" "frame_receives demo_transport (log ?w') hdr bs ?x"
    by blast
  from f(2) have "length hdr = 16" unfolding frame_receives_def by (auto dest: transport_receives_length)
  with f(1) have "hdr = ?hdr" "bs = [9]"
    using append_eq_append_conv [of ?hdr hdr "[9]" bs] by simp_all
  with r got f(2) show ?thesis by blast
qed

end
