(* ===== verification/Dispatch.thy ===== *)
theory Dispatch
  imports Codec Errors
begin

text \<open>
  Request handling: \<open>Handler\<close> (\<open>include/protocol/handler.hpp\<close>, \<open>src/protocol/handler.cpp\<close>) and
  \<open>OpcodeDispatcher\<close> (\<open>include/protocol/opcode_dispatcher.hpp\<close>,
  \<open>src/protocol/opcode_dispatcher.cpp\<close>). The output parameter \<open>response\<close> is overwritten before it
  is read on every path, so an operation returns the error and the response.
\<close>

definition hello_text :: string where
  "hello_text = ''Hello from PacketForge Server''"

definition handler_handleHello :: "packet \<Rightarrow> error \<times> packet" where
  "handler_handleHello request =
     (let response = Packet;
          response = packet_setVersion VERSION response;
          response = packet_setFlags 0 response;
          response = packet_setOpcode (opcode_value HelloResponse) response;
          response = packet_setSequenceId (packet_sequenceId request) response;
          response = packet_setPayload (bytes_of_string hello_text) response
      in (Error Success '''', response))"

definition dispatcher_handleHello :: "packet \<Rightarrow> error \<times> packet" where
  "dispatcher_handleHello request =
     (let response = Packet;
          response = packet_setVersion VERSION response;
          response = packet_setFlags 0 response;
          response = packet_setOpcode (opcode_value HelloResponse) response;
          response = packet_setSequenceId (packet_sequenceId request) response;
          response = packet_setPayload
            (map byte_of_char
              [CHR ''H'', CHR ''e'', CHR ''l'', CHR ''l'', CHR ''o'', CHR '' '',
               CHR ''f'', CHR ''r'', CHR ''o'', CHR ''m'', CHR '' '',
               CHR ''P'', CHR ''a'', CHR ''c'', CHR ''k'', CHR ''e'', CHR ''t'',
               CHR ''F'', CHR ''o'', CHR ''r'', CHR ''g'', CHR ''e'', CHR '' '',
               CHR ''S'', CHR ''e'', CHR ''r'', CHR ''v'', CHR ''e'', CHR ''r'']) response
      in (Error Success '''', response))"

definition makeErrorResponse :: "packet \<Rightarrow> protocol_error \<Rightarrow> error \<times> packet" where
  "makeErrorResponse request error =
     (let response = Packet;
          response = packet_setVersion VERSION response;
          response = packet_setFlags 0 response;
          response = packet_setOpcode (opcode_value ErrorResponse) response;
          response = packet_setSequenceId (packet_sequenceId request) response;
          response = packet_setPayload [protocol_error_byte error] response
      in (Error Success '''', response))"

definition dispatch :: "packet \<Rightarrow> error \<times> packet" where
  "dispatch request =
     (if packet_version request \<noteq> VERSION then makeErrorResponse request PE_UnsupportedVersion
      else if packet_opcode request = opcode_value HelloRequest then dispatcher_handleHello request
      else makeErrorResponse request PE_UnsupportedOpcode)"

section \<open>Responses\<close>

lemma dispatcher_handleHello_eq [packet_simps]:
  "dispatcher_handleHello request =
     (Error Success '''', Packet\<lparr>pk_opcode := 2, pk_sequenceId := pk_sequenceId request,
        pk_payload := bytes_of_string hello_text\<rparr>)"
  by (simp add: dispatcher_handleHello_def packet_unfold hello_text_def bytes_of_string_def)

lemma makeErrorResponse_eq [packet_simps]:
  "makeErrorResponse request e =
     (Error Success '''', Packet\<lparr>pk_opcode := 100, pk_sequenceId := pk_sequenceId request,
        pk_payload := [protocol_error_byte e]\<rparr>)"
  by (simp add: makeErrorResponse_def packet_unfold)

lemma dispatch_eq:
  "dispatch request =
     (Error Success '''', Packet\<lparr>
        pk_opcode := (if pk_version request = VERSION \<and> pk_opcode request = 1 then 2 else 100),
        pk_sequenceId := pk_sequenceId request,
        pk_payload :=
          (if pk_version request \<noteq> VERSION then [protocol_error_byte PE_UnsupportedVersion]
           else if pk_opcode request = 1 then bytes_of_string hello_text
           else [protocol_error_byte PE_UnsupportedOpcode])\<rparr>)"
  by (simp add: dispatch_def packet_version_def packet_opcode_def dispatcher_handleHello_eq
        makeErrorResponse_eq)

lemma dispatch_valid: "packet_isValid (snd (dispatch request))"
  by (simp add: dispatch_eq packet_isValid_iff Packet_def hello_text_def)

section \<open>Properties\<close>

text \<open>
  C32. Dispatching answers every request. The result is always \<open>Success\<close>, the response is a packet
  the encoder accepts, and it repeats the request's sequence number. It is the greeting exactly for
  a \<open>HelloRequest\<close> of the current version; otherwise it is an error response whose one payload byte
  names the first check that failed, version before opcode.
\<close>

theorem dispatch_answers:
  "\<exists>response. dispatch request = (Error Success '''', response) \<and> packet_isValid response \<and>
     pk_sequenceId response = pk_sequenceId request \<and> pk_flags response = 0 \<and>
     (if pk_version request \<noteq> VERSION
      then pk_opcode response = opcode_value ErrorResponse \<and>
        pk_payload response = [protocol_error_byte PE_UnsupportedVersion]
      else if pk_opcode request = opcode_value HelloRequest
      then pk_opcode response = opcode_value HelloResponse \<and>
        string_of_bytes (pk_payload response) = ''Hello from PacketForge Server''
      else pk_opcode response = opcode_value ErrorResponse \<and>
        pk_payload response = [protocol_error_byte PE_UnsupportedOpcode])"
  using dispatch_valid [of request]
  by (simp add: dispatch_eq Packet_def) (simp add: hello_text_def)

text \<open>
  The free-standing \<open>Handler\<close> and the dispatcher's own private greeting handler give the same
  error and the same response for every request.
\<close>

theorem handlers_agree: "handler_handleHello request = dispatcher_handleHello request"
  by (simp add: handler_handleHello_def dispatcher_handleHello_eq packet_unfold)

text \<open>
  A packet that came out of the decoder is never answered with \<open>UnsupportedVersion\<close>: the decoder
  has already rejected every other version, so the dispatcher's version check cannot fire on it.
\<close>

theorem decoded_request_version:
  assumes "decode h d = Inr request"
  shows "pk_payload (snd (dispatch request)) =
    (if pk_opcode request = opcode_value HelloRequest then bytes_of_string hello_text
     else [protocol_error_byte PE_UnsupportedOpcode])"
  using decode_Inr [OF assms] by (simp add: dispatch_eq packet_isValid_iff Packet_def)

theorem decoded_request_version_witness:
  "pk_payload (snd (dispatch (Packet\<lparr>pk_opcode := 2\<rparr>))) = [2]"
proof -
  have "decode Big [0x50, 0x46, 0x4B, 0x54, 1, 0, 0, 2, 0, 0, 0, 0, 0, 0, 0, 0]
      = Inr (Packet\<lparr>pk_opcode := 2\<rparr>)"
    by code_simp
  from decoded_request_version [OF this] show ?thesis
    by (simp add: Packet_def protocol_error_byte_def)
qed

end
