(* ===== verification/Server_Main.thy ===== *)
theory Server_Main
  imports Servers Packet_IO Dispatch
begin

text \<open>
  The server application, \<open>apps/server_main.cpp\<close>. Its \<open>main\<close> runs one session inside a
  \<open>do { ... } while (false)\<close>, every exit of which is a \<open>break\<close> to one cleanup section. The phases
  of the session are one definition each, in the order of the source; a \<open>break\<close> is the result of a
  phase. A phase that works on the accepted connection returns the exit code, the transport, the
  shutdown flag and the world.

  The signal handler only sets the flag, and the flag is read at the polls only, so a poll asks the
  platform whether a signal was delivered since the last one. \<open>SIGPIPE\<close> keeps its default action in
  the program, and a kernel that raises it ends the process inside \<open>send\<close>; that end is outside the
  model, which describes the runs where \<open>send\<close> returns.
\<close>

section \<open>The application\<close>

definition SERVER_ADDRESS :: string where
  "SERVER_ADDRESS = ''127.0.0.1''"

definition SERVER_PORT :: u16 where
  "SERVER_PORT = 9090"

definition handleShutdownSignal :: "bool \<Rightarrow> bool" where
  "handleShutdownSignal shutdownRequested = True"

definition isShutdownRequested :: "'w platform \<Rightarrow> bool \<Rightarrow> 'w world \<Rightarrow> bool \<times> 'w world" where
  "isShutdownRequested P shutdownRequested w =
     (case interrupted P (kernel w) of (delivered, k) \<Rightarrow>
        (if delivered then handleShutdownSignal shutdownRequested else shutdownRequested,
         w\<lparr>kernel := k\<rparr>))"

definition connection_text :: "bool \<Rightarrow> string" where
  "connection_text connected = (if connected then ''CONNECTED'' else ''DISCONNECTED'')"

definition send_response ::
    "'w platform \<Rightarrow> transport \<Rightarrow> packet \<Rightarrow> bool \<Rightarrow> 'w world \<Rightarrow> int \<times> transport \<times> bool \<times> 'w world" where
  "send_response P t response flag w =
     (let w1 = cout (''Sending response packet...'' @ endl) w in
      case packetio_send P t response w1 of (sendError, w2) \<Rightarrow>
        if \<not> error_ok sendError
        then (1, t, flag, cerr (''Failed to send response packet: '' @ error_message sendError @ endl) w2)
        else (case isShutdownRequested P flag w2 of (flag1, w3) \<Rightarrow>
          if flag1 then (0, t, flag1, w3)
          else
            let w4 = cout (''Response packet sent successfully'' @ endl) w3;
                w5 = cout (endl @ ''Press ENTER to disconnect...'') w4;
                w6 = snd (syscall P ReadStdin w5)
            in (0, t, flag1, w6)))"

definition dispatch_request ::
    "'w platform \<Rightarrow> transport \<Rightarrow> packet \<Rightarrow> bool \<Rightarrow> 'w world \<Rightarrow> int \<times> transport \<times> bool \<times> 'w world" where
  "dispatch_request P t request flag w =
     (let w1 = cout (''Packet received successfully'' @ endl) w;
          w2 = cout (''Received request opcode: '' @ to_string (uint (packet_opcode request)) @ endl) w1;
          w3 = cout (endl @ ''Dispatching request...'' @ endl) w2
      in case dispatch request of (dispatchError, response) \<Rightarrow>
        (case isShutdownRequested P flag w3 of (flag1, w4) \<Rightarrow>
          if flag1 then (0, t, flag1, w4)
          else if \<not> error_ok dispatchError
          then (1, t, flag1, cerr (''Failed to dispatch packet: '' @ error_message dispatchError @ endl) w4)
          else
            let w5 = (if packet_opcode response = opcode_value ErrorResponse
                      then cout (''Dispatcher generated protocol error response'' @ endl) w4 else w4);
                w6 = cout (''Request dispatched successfully'' @ endl) w5
            in send_response P t response flag1 w6))"

definition report_protocol_error ::
    "'w platform \<Rightarrow> transport \<Rightarrow> protocol_error \<Rightarrow> bool \<Rightarrow> 'w world
       \<Rightarrow> int \<times> transport \<times> bool \<times> 'w world" where
  "report_protocol_error P t protocolError flag w =
     (let w1 = cerr (''Protocol error detected'' @ endl) w;
          response = Packet;
          response = packet_setOpcode (opcode_value ErrorResponse) response;
          response = packet_setSequenceId 0 response;
          response = packet_setPayload [protocol_error_byte protocolError] response
      in case packetio_send P t response w1 of (sendError, w2) \<Rightarrow>
        if \<not> error_ok sendError
        then (1, t, flag,
              cerr (''Failed to send protocol error response: '' @ error_message sendError @ endl) w2)
        else (case isShutdownRequested P flag w2 of (flag1, w3) \<Rightarrow>
          if flag1 then (0, t, flag1, w3)
          else (1, t, flag1, cout (''Protocol error response sent successfully'' @ endl) w3)))"

definition receive_failed ::
    "'w platform \<Rightarrow> transport \<Rightarrow> error \<Rightarrow> protocol_error \<Rightarrow> bool \<Rightarrow> 'w world
       \<Rightarrow> int \<times> transport \<times> bool \<times> 'w world" where
  "receive_failed P t receiveError protocolError flag w =
     (if error_code receiveError = ConnectionClosed then (0, t, flag, w)
      else if error_code receiveError = ProtocolError
      then report_protocol_error P t protocolError flag w
      else (1, t, flag, cerr (''Failed to receive packet: '' @ error_message receiveError @ endl) w))"

definition receive_request ::
    "'w platform \<Rightarrow> transport \<Rightarrow> bool \<Rightarrow> 'w world \<Rightarrow> int \<times> transport \<times> bool \<times> 'w world" where
  "receive_request P t flag w =
     (let w1 = cout (endl @ ''Waiting for packet...'' @ endl) w in
      case packetio_receive P t Packet (Some PE_InvalidPacket) w1 of
        (receiveError, request, protocolError, t1, w2) \<Rightarrow>
          (case isShutdownRequested P flag w2 of (flag1, w3) \<Rightarrow>
            if flag1 then (0, t1, flag1, w3)
            else if \<not> error_ok receiveError
            then receive_failed P t1 receiveError (the protocolError) flag1 w3
            else dispatch_request P t1 request flag1 w3))"

text \<open>
  From the creation of the server's local \<open>Connection\<close> to the end of the scope that holds it, its
  destructor included. \<open>None\<close> is a \<open>transport\<close> pointer that was never set.
\<close>

definition serve_connection ::
    "'w platform \<Rightarrow> connection \<Rightarrow> bool \<Rightarrow> 'w world \<Rightarrow> int \<times> transport option \<times> bool \<times> 'w world" where
  "serve_connection P connection flag w =
     (let w1 = cout (''Client connected successfully'' @ endl) w;
          w2 = cout (''Connection state: '' @ connection_text (connection_isConnected connection) @ endl) w1
      in case transport_of_connection connection of (t, connection1) \<Rightarrow>
        (case receive_request P t flag w2 of (exitCode, t1, flag1, w3) \<Rightarrow>
          (exitCode, Some t1, flag1, connection_destroy P connection1 w3)))"

definition accept_client ::
    "'w platform \<Rightarrow> server \<Rightarrow> bool \<Rightarrow> 'w world \<Rightarrow> int \<times> transport option \<times> bool \<times> 'w world" where
  "accept_client P server flag w =
     (let connection = Connection in
      case isShutdownRequested P flag w of (flag1, w1) \<Rightarrow>
        if flag1 then (0, None, flag1, connection_destroy P connection w1)
        else (case server_accept P server connection w1 of (acceptError, connection1, w2) \<Rightarrow>
          (case isShutdownRequested P flag1 w2 of (flag2, w3) \<Rightarrow>
            if flag2 then (0, None, flag2, connection_destroy P connection1 w3)
            else if \<not> error_ok acceptError
            then (1, None, flag2, connection_destroy P connection1
                   (cerr (''Failed to accept client connection: '' @ error_message acceptError @ endl) w3))
            else serve_connection P connection1 flag2 w3)))"

definition run_session ::
    "'w platform \<Rightarrow> server \<Rightarrow> bool \<Rightarrow> 'w world \<Rightarrow> int \<times> server \<times> transport option \<times> bool \<times> 'w world" where
  "run_session P server flag w =
     (case server_start P server SERVER_ADDRESS SERVER_PORT w of (startError, server1, w1) \<Rightarrow>
        if \<not> error_ok startError
        then (1, server1, None, flag,
              cerr (''Failed to start PacketForge server: '' @ error_message startError @ endl) w1)
        else
          let w2 = cout (''PacketForge server started successfully'' @ endl) w1;
              w3 = cout (''Listening on '' @ SERVER_ADDRESS @ '':'' @
                     to_string (uint (server_port server1)) @ endl) w2;
              w4 = cout (''Waiting for client connection...'' @ endl) w3
          in case accept_client P server1 flag w4 of (exitCode, transport, flag1, w5) \<Rightarrow>
               (exitCode, server1, transport, flag1, w5))"

definition cleanup ::
    "'w platform \<Rightarrow> server \<Rightarrow> transport option \<Rightarrow> 'w world \<Rightarrow> server \<times> 'w world" where
  "cleanup P server transport w =
     (let w1 = (case transport of
            None \<Rightarrow> w
          | Some t \<Rightarrow>
              (case transport_disconnect P t w of (t1, u) \<Rightarrow>
                 transport_destroy P t1 (cout (''Client connection closed'' @ endl) u)))
      in if server_isRunning server
         then (case server_stop P server w1 of (server1, w2) \<Rightarrow>
                (server1, cout (''PacketForge server stopped successfully'' @ endl) w2))
         else (server, w1))"

definition server_main :: "'w platform \<Rightarrow> 'w world \<Rightarrow> int \<times> 'w world" where
  "server_main P w =
     (case run_session P Server False w of (exitCode, server, transport, flag, w1) \<Rightarrow>
        (case cleanup P server transport w1 of (server1, w2) \<Rightarrow>
          (exitCode, server_destroy P server1 w2)))"


section \<open>What a phase keeps\<close>

lemma poll_facts:
  "isShutdownRequested P f w = (f', w') \<Longrightarrow> log w' = log w \<and> (f \<longrightarrow> f')"
  by (auto simp: isShutdownRequested_def handleShutdownSignal_def split: prod.splits if_splits)

text \<open>
  Every phase on the accepted connection keeps the transport's invariant, accounts for its
  descriptor, and returns 1 exactly when it reported a failure and saw no shutdown.
\<close>

definition exit_rule :: "'w world \<Rightarrow> int \<Rightarrow> bool \<Rightarrow> 'w world \<Rightarrow> bool" where
  "exit_rule w exitCode flag w' \<longleftrightarrow>
     (\<exists>ds. diagnostics (log w') = diagnostics (log w) @ ds \<and>
        exitCode = (if flag then 0 else if ds = [] then 0 else 1))"

definition phase_ok :: "transport \<Rightarrow> 'w world \<Rightarrow> int \<Rightarrow> transport \<Rightarrow> bool \<Rightarrow> 'w world \<Rightarrow> bool" where
  "phase_ok t w exitCode t' flag w' \<longleftrightarrow>
     transport_inv t' \<and> transfers (transport_owned t) w (transport_owned t') w' \<and>
     exit_rule w exitCode flag w'"

lemma send_response_ok:
  assumes "send_response P t response flag w = (c, t', f', w')" "transport_inv t" "\<not> flag"
  shows "phase_ok t w c t' f' w'"
proof -
  obtain e w2 where s: "packetio_send P t response (cout (''Sending response packet...'' @ endl) w) = (e, w2)"
    by force
  obtain f1 w3 where q: "isShutdownRequested P flag w2 = (f1, w3)" by force
  have t: "transfers (transport_owned t) w (transport_owned t) w2"
    using packetio_send_transfers [OF s assms(2)] cout_transfers [OF transfers_refl] transfers_trans
    by blast
  note t3 = transfers_same_log [OF t, of w3] poll_facts [OF q] packetio_send_frame [OF s]
  have stdin: "transfers R v R' (snd (syscall P ReadStdin u))" if "transfers R v R' u" for R v R' u
    using syscall_stdin_transfers [OF prod.collapse [symmetric]] transfers_trans that by blast
  show ?thesis
    using assms s q t t3
    by (auto simp: send_response_def phase_ok_def exit_rule_def Let_def
          syscall_diagnostics [OF prod.collapse [symmetric]]
          split: if_splits intro!: stdin cout_transfers cerr_transfers)
qed


lemma phase_ok_cout: "phase_ok t w c t' f w' \<Longrightarrow> phase_ok t w c t' f (cout s w')"
  by (auto simp: phase_ok_def exit_rule_def)

text \<open>A phase that starts after output and polls, which change neither ownership nor diagnostics.\<close>

lemma phase_ok_after:
  assumes "phase_ok t1 w1 c t' f w'" "transfers (transport_owned t) w (transport_owned t1) w1"
    "diagnostics (log w1) = diagnostics (log w)"
  shows "phase_ok t w c t' f w'"
  using assms transfers_trans by (auto simp: phase_ok_def exit_rule_def)

lemma dispatch_request_ok:
  assumes "dispatch_request P t request flag w = (c, t', f', w')" "transport_inv t" "\<not> flag"
  shows "phase_ok t w c t' f' w'"
proof -
  let ?w3 = "cout (endl @ ''Dispatching request...'' @ endl)
    (cout (''Received request opcode: '' @ to_string (uint (packet_opcode request)) @ endl)
      (cout (''Packet received successfully'' @ endl) w))"
  obtain f1 w4 where q: "isShutdownRequested P flag ?w3 = (f1, w4)" by force
  have t: "transfers (transport_owned t) w (transport_owned t) w4" "diagnostics (log w4) = diagnostics (log w)"
    using poll_facts [OF q] transfers_same_log [of "transport_owned t" w "transport_owned t" ?w3 w4]
    by (auto intro: cout_transfers)
  show ?thesis
  proof (cases f1)
    case True
    then show ?thesis using assms(1,2) q t
      by (simp add: dispatch_request_def Let_def phase_ok_def exit_rule_def split: prod.splits)
  next
    case False
    have "error_ok (fst (dispatch request))" by (simp add: dispatch_eq)
    then obtain s u where "send_response P t (snd (dispatch request)) f1 (cout s u) = (c, t', f', w')"
      "u = w4 \<or> (\<exists>s'. u = cout s' w4)"
      using assms(1) q False
      by (cases "packet_opcode (snd (dispatch request)) = opcode_value ErrorResponse")
        (auto simp: dispatch_request_def Let_def split: prod.splits)
    moreover have "transfers (transport_owned t) w (transport_owned t) (cout s u)"
      "diagnostics (log (cout s u)) = diagnostics (log w)"
      using t calculation(2) by auto
    ultimately show ?thesis using send_response_ok False assms(2) phase_ok_after by blast
  qed
qed

lemma report_protocol_error_ok:
  assumes "report_protocol_error P t pe flag w = (c, t', f', w')" "transport_inv t" "\<not> flag"
  shows "phase_ok t w c t' f' w'"
proof -
  let ?r = "packet_setPayload [protocol_error_byte pe] (packet_setSequenceId 0
    (packet_setOpcode (opcode_value ErrorResponse) Packet))"
  obtain e w2 where s: "packetio_send P t ?r (cerr (''Protocol error detected'' @ endl) w) = (e, w2)" by force
  obtain f1 w3 where q: "isShutdownRequested P flag w2 = (f1, w3)" by force
  have t: "transfers (transport_owned t) w (transport_owned t) w2"
    using packetio_send_transfers [OF s assms(2)] cerr_transfers [OF transfers_refl] transfers_trans
    by blast
  show ?thesis
    using assms s q t transfers_same_log [OF t, of w3] poll_facts [OF q] packetio_send_frame [OF s]
    by (auto simp: report_protocol_error_def phase_ok_def exit_rule_def Let_def
          split: if_splits intro!: cout_transfers cerr_transfers)
qed

lemma receive_failed_ok:
  assumes "receive_failed P t e pe flag w = (c, t', f', w')" "transport_inv t" "\<not> flag"
  shows "phase_ok t w c t' f' w'"
  using assms
  by (auto simp: receive_failed_def split: if_splits dest: report_protocol_error_ok)
    (auto simp: phase_ok_def exit_rule_def intro: cerr_transfers)

lemma receive_request_ok:
  assumes "receive_request P t flag w = (c, t', f', w')" "transport_inv t" "\<not> flag"
  shows "phase_ok t w c t' f' w'"
proof -
  let ?w1 = "cout (endl @ ''Waiting for packet...'' @ endl) w"
  obtain e request pe t1 w2 where r: "packetio_receive P t Packet (Some PE_InvalidPacket) ?w1
      = (e, request, pe, t1, w2)"
    by (metis prod_cases5)
  obtain f1 w3 where q: "isShutdownRequested P flag w2 = (f1, w3)" by force
  have t: "transfers (transport_owned t) w (transport_owned t1) w2" "transport_inv t1"
    using packetio_receive_transfers [OF r assms(2)] cout_transfers [OF transfers_refl] transfers_trans
    by blast+
  have d: "diagnostics (log w3) = diagnostics (log w)"
    using poll_facts [OF q] packetio_receive_frame [OF r] by simp
  note t3 = transfers_same_log [OF t(1), of w3]
  have t3: "transfers (transport_owned t) w (transport_owned t1) w3" using t3 poll_facts [OF q] by simp
  show ?thesis
  proof (cases f1)
    case True
    then show ?thesis using assms r q t(2) t3 d
      by (auto simp: receive_request_def phase_ok_def exit_rule_def)
  next
    case False
    then have "phase_ok t1 w3 c t' f' w'"
      using assms r q t(2)
      by (auto simp: receive_request_def split: if_splits dest: receive_failed_ok dispatch_request_ok)
    then show ?thesis using t3 d by (rule phase_ok_after)
  qed
qed


section \<open>The session and its cleanup\<close>

definition pointer_owned :: "transport option \<Rightarrow> int multiset" where
  "pointer_owned p = (case p of None \<Rightarrow> {#} | Some t \<Rightarrow> transport_owned t)"

definition session_ok ::
    "int multiset \<Rightarrow> int multiset \<Rightarrow> 'w world \<Rightarrow> int \<Rightarrow> transport option \<Rightarrow> bool \<Rightarrow> 'w world \<Rightarrow> bool" where
  "session_ok S R w exitCode p flag w' \<longleftrightarrow>
     (\<forall>t. p = Some t \<longrightarrow> transport_inv t) \<and> transfers (S + R) w (S + pointer_owned p) w' \<and>
     exit_rule w exitCode flag w'"

lemma session_ok_after:
  assumes "session_ok S R1 w1 c p f w'" "transfers (S + R) w (S + R1) w1" "diagnostics (log w1) = diagnostics (log w)"
  shows "session_ok S R w c p f w'"
  using assms transfers_trans by (auto simp: session_ok_def exit_rule_def)

lemma connection_destroy_fresh: "connection_destroy P Connection w = w"
  by (simp add: connection_destroy_eq conn.release_idle conn.fresh_inv conn.owned_fresh)

lemma connection_destroy_transfers:
  "connection_inv c \<Longrightarrow> transfers (connection_owned c) w {#} (connection_destroy P c w)"
  by (simp add: connection_destroy_eq conn.release_transfers)

lemma connection_destroy_diagnostics [simp]:
  "diagnostics (log (connection_destroy P c w)) = diagnostics (log w)"
  by (simp add: connection_destroy_eq)

lemma serve_connection_ok:
  assumes "serve_connection P c flag w = (code, p, f', w')" "connection_inv c" "\<not> flag"
  shows "session_ok S (connection_owned c) w code p f' w'"
proof -
  let ?w2 = "cout (''Connection state: '' @ connection_text (connection_isConnected c) @ endl)
    (cout (''Client connected successfully'' @ endl) w)"
  obtain t1 where "receive_request P \<lparr>tr_connection = c\<rparr> flag ?w2 = (code, t1, f', w')" "p = Some t1"
    using assms(1)
    by (auto simp: serve_connection_def Let_def transport_of_connection_eq connection_destroy_fresh
        split: prod.splits)
  moreover from receive_request_ok [OF this(1) _ assms(3)] assms(2)
  have "phase_ok \<lparr>tr_connection = c\<rparr> ?w2 code t1 f' w'" by (simp add: transport_inv_def)
  then have "phase_ok \<lparr>tr_connection = c\<rparr> w code t1 f' w'"
    by (rule phase_ok_after) (auto intro: cout_transfers)
  ultimately show ?thesis
    using transfers_frame [of "connection_owned c" w "transport_owned t1" w' S]
    by (simp add: session_ok_def phase_ok_def pointer_owned_def transport_owned_def add.commute)
qed

lemma accept_client_ok:
  assumes "accept_client P s flag w = (code, p, f', w')" "\<not> flag"
  shows "session_ok (server_owned s) {#} w code p f' w'"
proof -
  let ?S = "server_owned s"
  obtain f1 w1 where q1: "isShutdownRequested P flag w = (f1, w1)" by force
  obtain e c w2 where a: "server_accept P s Connection w1 = (e, c, w2)" by (metis prod_cases3)
  obtain f2 w3 where q2: "isShutdownRequested P f1 w2 = (f2, w3)" by force
  have t1: "transfers ?S w ?S w1"
    using poll_facts [OF q1] by (intro transfers_same_log [OF transfers_refl]) simp
  have "transfers ?S w (?S + connection_owned c) w2"
    using transfers_trans [OF t1] server_accept_transfers [OF a] by (simp add: conn.owned_fresh)
  then have t3: "transfers (?S + {#}) w (?S + connection_owned c) w3"
    using poll_facts [OF q2] transfers_same_log by auto
  have d: "diagnostics (log w1) = diagnostics (log w)" "diagnostics (log w3) = diagnostics (log w)"
    using poll_facts [OF q1] poll_facts [OF q2] server_accept_diagnostics [OF a] by simp_all
  have inv: "connection_inv c"
    using server_accept_result [OF a] conn.fresh_inv by (auto split: if_splits)
  have destroyed: "transfers ?S w ?S (connection_destroy P c u)" if "transfers (?S + {#}) w (?S + connection_owned c) u" for u
    using transfers_trans [OF that] transfers_frame [OF connection_destroy_transfers [OF inv, of u P], of ?S]
    by (simp add: add.commute)
  consider "f1" | "\<not> f1" "f2" | "\<not> f1" "\<not> f2" "\<not> error_ok e" | "\<not> f1" "\<not> f2" "error_ok e" by blast
  then show ?thesis
  proof cases
    case 1
    then show ?thesis using assms q1 t1 d
      by (auto simp: accept_client_def Let_def session_ok_def pointer_owned_def exit_rule_def connection_destroy_fresh)
  next
    case 2
    then show ?thesis using assms q1 a q2 d destroyed [OF t3]
      by (auto simp: accept_client_def Let_def session_ok_def pointer_owned_def exit_rule_def)
  next
    case 3
    then show ?thesis using assms q1 a q2 d destroyed [OF cerr_transfers [OF t3]]
      by (auto simp: accept_client_def Let_def session_ok_def pointer_owned_def exit_rule_def)
  next
    case 4
    then have "serve_connection P c f2 w3 = (code, p, f', w')"
      using assms q1 a q2 by (simp add: accept_client_def Let_def)
    from serve_connection_ok [OF this inv 4(2)] t3 d(2) show ?thesis by (rule session_ok_after)
  qed
qed

lemma run_session_ok:
  assumes "run_session P Server False w = (code, s, p, f', w')"
  shows "server_inv s \<and> (\<forall>t. p = Some t \<longrightarrow> transport_inv t) \<and>
    transfers {#} w (server_owned s + pointer_owned p) w' \<and> exit_rule w code f' w'"
proof -
  obtain e s1 w1 where st: "server_start P Server SERVER_ADDRESS SERVER_PORT w = (e, s1, w1)"
    by (metis prod_cases3)
  have t: "transfers {#} w (server_owned s1) w1" "server_inv s1"
    using server_start_result [OF st srv.fresh_inv] server_start_inv [OF st srv.fresh_inv] srv.owned_fresh
    by simp_all
  note d = server_start_diagnostics [OF st]
  show ?thesis
  proof (cases "error_ok e")
    case False
    then have "s1 = Server" using server_start_result [OF st srv.fresh_inv] by (simp add: Server_def)
    moreover have "code = 1 \<and> s = s1 \<and> p = None \<and> \<not> f' \<and>
        w' = cerr (''Failed to start PacketForge server: '' @ error_message e @ endl) w1"
      using assms False by (auto simp only: run_session_def st prod.case if_True not_False_eq_True prod.inject)
    ultimately show ?thesis using t d
      by (simp add: pointer_owned_def exit_rule_def cerr_transfers srv.owned_fresh)
  next
    case True
    define u where "u = cout (''Waiting for client connection...'' @ endl)
      (cout (''Listening on '' @ SERVER_ADDRESS @ '':'' @ to_string (uint (server_port s1)) @ endl)
        (cout (''PacketForge server started successfully'' @ endl) w1))"
    have "run_session P Server False w = (case accept_client P s1 False u of
        (exitCode, transport, flag1, w5) \<Rightarrow> (exitCode, s1, transport, flag1, w5))"
      using True by (simp only: run_session_def st prod.case Let_def u_def not_True_eq_False if_False)
    then have "accept_client P s1 False u = (code, p, f', w')" "s = s1"
      using assms by (simp_all split: prod.splits)
    moreover have "diagnostics (log u) = diagnostics (log w)" "transfers {#} w (server_owned s1) u"
      using d t by (auto simp: u_def)
    ultimately have u: "accept_client P s1 False u = (code, p, f', w')" "s = s1"
      "diagnostics (log u) = diagnostics (log w)" "transfers {#} w (server_owned s1) u" by blast+
    with accept_client_ok [OF u(1)] t(2) transfers_trans [OF u(4)] show ?thesis
      by (auto simp: session_ok_def exit_rule_def)
  qed
qed


lemma cleanup_ok:
  assumes "cleanup P s p w = (s', w')" "\<forall>t. p = Some t \<longrightarrow> transport_inv t" "server_inv s"
  shows "transfers (server_owned s + pointer_owned p) w {#} (server_destroy P s' w') \<and>
    diagnostics (log (server_destroy P s' w')) = diagnostics (log w)"
proof -
  define w1 where "w1 = (case p of None \<Rightarrow> w
    | Some t \<Rightarrow> (case transport_disconnect P t w of (t1, u) \<Rightarrow>
        transport_destroy P t1 (cout (''Client connection closed'' @ endl) u)))"
  have idle: "transport_destroy P Transport u = u" for u
    by (simp add: transport_destroy_def Transport_def connection_destroy_fresh)
  have t1: "transfers (pointer_owned p) w {#} w1 \<and> diagnostics (log w1) = diagnostics (log w)"
  proof (cases p)
    case None
    then show ?thesis by (simp add: w1_def pointer_owned_def)
  next
    case (Some t)
    obtain t1 u where d: "transport_disconnect P t w = (t1, u)" by force
    then have "t1 = Transport" "transfers (transport_owned t) w {#} u" "diagnostics (log u) = diagnostics (log w)"
      using trans.release_transfers_pair [OF _ d] assms(2) Some transport_disconnect_frame(3) [of P t w]
      by (auto simp: transport_disconnect_eq)
    with Some d show ?thesis by (auto simp: w1_def idle pointer_owned_def)
  qed
  have stop: "transfers (server_owned s) w1 {#} (snd (server_stop P s w1)) \<and>
      diagnostics (log (snd (server_stop P s w1))) = diagnostics (log w1)"
    using srv.release_transfers [of s w1 P] assms(3) by (simp add: server_stop_eq)
  have dest: "server_destroy P s' w' = w'" if "server_owned s' = {#}" "server_inv s'"
    using srv.release_idle [OF that(2,1)] by (simp add: server_destroy_eq)
  have "transfers (server_owned s) w1 {#} (server_destroy P s' w') \<and>
      diagnostics (log (server_destroy P s' w')) = diagnostics (log w1)"
  proof (cases "server_isRunning s")
    case True
    then have "s' = Server" "w' = cout (''PacketForge server stopped successfully'' @ endl) (snd (server_stop P s w1))"
      using assms(1) unfolding cleanup_def w1_def [symmetric] by (auto simp: server_stop_eq Let_def)
    then show ?thesis using dest srv.owned_fresh srv.fresh_inv stop cout_transfers cout_diagnostics by metis
  next
    case False
    then have "s' = s" "w' = w1" using assms(1) unfolding cleanup_def w1_def [symmetric] by simp_all
    moreover have "server_owned s = {#}"
      using False assms(3) by (simp add: server_defs server_isRunning_def socket_owned_def)
    ultimately show ?thesis using dest assms(3) by simp
  qed
  moreover have "transfers (server_owned s + pointer_owned p) w (server_owned s) w1"
    using transfers_frame [OF conjunct1 [OF t1], of "server_owned s"] by (simp add: add.commute)
  ultimately show ?thesis using transfers_trans t1 by fastforce
qed

lemma server_main_split:
  obtains code s p f w1 where "run_session P Server False w = (code, s, p, f, w1)"
    "fst (server_main P w) = code" "server_inv s"
    "exit_rule w code f w1" "transfers {#} w {#} (snd (server_main P w))"
    "diagnostics (log (snd (server_main P w))) = diagnostics (log w1)"
proof -
  obtain code s p f w1 where r: "run_session P Server False w = (code, s, p, f, w1)" by (metis prod_cases5)
  obtain s' w2 where c: "cleanup P s p w1 = (s', w2)" by force
  have m: "server_main P w = (code, server_destroy P s' w2)" using r c by (simp add: server_main_def)
  note ok = run_session_ok [OF r]
  note cl = cleanup_ok [OF c]
  have "transfers {#} w {#} (snd (server_main P w))" using m ok cl transfers_trans by fastforce
  then show thesis using that [OF r] m ok cl by simp
qed

section \<open>What the session sends\<close>

text \<open>
  The specification of one session: the answer to the bytes of one frame. A frame the reference
  decoder rejects is answered with the protocol error and sequence number 0.
\<close>

definition error_response :: "protocol_error \<Rightarrow> packet" where
  "error_response err =
     Packet\<lparr>pk_opcode := opcode_value ErrorResponse, pk_payload := [protocol_error_byte err]\<rparr>"

definition server_answer :: "bytes \<Rightarrow> packet" where
  "server_answer frame =
     (case reference_decode frame of
        Inl err \<Rightarrow> error_response err
      | Inr request \<Rightarrow> snd (dispatch request))"

text \<open>Between two worlds diagnostics were written, and the last one starts with the given text.\<close>

definition reported :: "string \<Rightarrow> 'w world \<Rightarrow> 'w world \<Rightarrow> bool" where
  "reported text w w' \<longleftrightarrow>
     (\<exists>ds rest. diagnostics (log w') = diagnostics (log w) @ ds @ [text @ rest])"

lemma reported_cerr: "diagnostics (log u) = diagnostics (log w) \<Longrightarrow> reported text w (cerr (text @ rest) u)"
  by (simp add: reported_def)

lemma reported_after:
  "reported text u w' \<Longrightarrow> \<exists>ds. diagnostics (log u) = diagnostics (log w) @ ds \<Longrightarrow> reported text w w'"
  by (auto simp: reported_def)

text \<open>The frame of \<open>answer\<close> went out whole, or its sending was reported as failed.\<close>

definition answers ::
    "'w platform \<Rightarrow> transport \<Rightarrow> packet \<Rightarrow> 'w world \<Rightarrow> 'w world \<Rightarrow> bool" where
  "answers P t answer w w' \<longleftrightarrow>
     received (transport_handle t) (log w') = received (transport_handle t) (log w) \<and>
     (\<exists>d n. encode (native P) answer = Inr d \<and>
        sent (transport_handle t) (log w') = sent (transport_handle t) (log w) @ take n d \<and>
        (n = length d \<or> reported ''Failed to send '' w w'))"

lemma answers_from:
  assumes "packetio_send P t p w = (e, w1)" "kernel_ok P" "packet_isValid p"
    "sent (transport_handle t) (log w') = sent (transport_handle t) (log w1)"
    "received (transport_handle t) (log w') = received (transport_handle t) (log w1)"
    "\<not> error_ok e \<Longrightarrow> reported ''Failed to send '' w w'"
  shows "answers P t p w w'"
proof -
  let ?d = "wire_header p @ pk_payload p"
  have s: "transport_send P t ?d w = (e, w1)" using packetio_send_cases [OF assms(1)] assms(3) by simp
  have "?d \<noteq> []" by (simp add: wire_header_def)
  from transport_send_prefix [OF assms(2) s this] show ?thesis
    using assms packetio_send_frame [OF assms(1)] encode_wire [OF assms(3), of "native P"]
    by (auto simp: answers_def split: if_splits)
qed

lemma answers_after:
  assumes "answers P t p u w'" "sent (transport_handle t) (log u) = sent (transport_handle t) (log w)"
    "received (transport_handle t) (log u) = received (transport_handle t) (log w)"
    "\<exists>ds. diagnostics (log u) = diagnostics (log w) @ ds"
  shows "answers P t p w w'"
  using assms reported_after [OF _ assms(4)] unfolding answers_def by metis

lemma send_response_answers:
  assumes "send_response P t response flag w = (c, t', f', w')" "kernel_ok P" "packet_isValid response"
  shows "answers P t response w w' \<and> t' = t"
proof -
  let ?w1 = "cout (''Sending response packet...'' @ endl) w"
  obtain e w2 where s: "packetio_send P t response ?w1 = (e, w2)" by force
  obtain f1 w3 where q: "isShutdownRequested P flag w2 = (f1, w3)" by force
  let ?failed = "cerr (''Failed to send response packet: '' @ error_message e @ endl) w2"
  have "diagnostics (log w2) = diagnostics (log ?w1)" using packetio_send_frame [OF s] by simp
  from reported_cerr [OF this, of "''Failed to send ''" "''response packet: '' @ error_message e @ endl"]
  have failed: "reported ''Failed to send '' ?w1 ?failed" by simp
  let ?prompt = "cout (endl @ ''Press ENTER to disconnect...'')
    (cout (''Response packet sent successfully'' @ endl) w3)"
  have "t' = t" "w' = (if \<not> error_ok e then ?failed else if f1 then w3
      else snd (syscall P ReadStdin ?prompt))"
    using assms(1) unfolding send_response_def Let_def s prod.case q by (simp_all split: if_splits)
  moreover from this(2) have "answers P t response ?w1 w'"
    by (intro answers_from [OF s assms(2,3)])
      (use poll_facts [OF q] failed in \<open>simp_all add: stdin_streams split: if_splits\<close>)
  then have "answers P t response w w'" by (rule answers_after) simp_all
  ultimately show ?thesis by blast
qed

lemma dispatch_request_answers:
  assumes "dispatch_request P t request flag w = (c, t', f', w')" "kernel_ok P"
  shows "t' = t \<and>
    (f' \<and> sent (transport_handle t) (log w') = sent (transport_handle t) (log w) \<and>
      received (transport_handle t) (log w') = received (transport_handle t) (log w) \<or>
    answers P t (snd (dispatch request)) w w')"
proof -
  let ?w3 = "cout (endl @ ''Dispatching request...'' @ endl)
    (cout (''Received request opcode: '' @ to_string (uint (packet_opcode request)) @ endl)
      (cout (''Packet received successfully'' @ endl) w))"
  obtain f1 w4 where q: "isShutdownRequested P flag ?w3 = (f1, w4)" by force
  have w4: "sent f (log w4) = sent f (log w)" "received f (log w4) = received f (log w)"
    "diagnostics (log w4) = diagnostics (log w)" for f
    using poll_facts [OF q] by simp_all
  show ?thesis
  proof (cases f1)
    case True
    then show ?thesis using assms(1) q w4
      by (simp add: dispatch_request_def Let_def split: prod.splits)
  next
    case False
    have "error_ok (fst (dispatch request))" by (simp add: dispatch_eq)
    then obtain s u where r: "send_response P t (snd (dispatch request)) f1 (cout s u) = (c, t', f', w')"
      "u = w4 \<or> (\<exists>s'. u = cout s' w4)"
      using assms(1) q False
      by (cases "packet_opcode (snd (dispatch request)) = opcode_value ErrorResponse")
        (auto simp: dispatch_request_def Let_def split: prod.splits)
    from send_response_answers [OF r(1) assms(2) dispatch_valid] r(2) w4 show ?thesis
      by (auto intro: answers_after)
  qed
qed

lemma error_response_valid: "packet_isValid (error_response err)"
  by (simp add: error_response_def packet_isValid_iff Packet_def)

lemma report_protocol_error_answers:
  assumes "report_protocol_error P t pe flag w = (c, t', f', w')" "kernel_ok P"
  shows "answers P t (error_response pe) w w' \<and> t' = t"
proof -
  let ?w1 = "cerr (''Protocol error detected'' @ endl) w"
  have "packet_setPayload [protocol_error_byte pe] (packet_setSequenceId 0
      (packet_setOpcode (opcode_value ErrorResponse) Packet)) = error_response pe"
    by (simp add: error_response_def packet_unfold)
  note def = report_protocol_error_def [of P t pe flag w, unfolded Let_def this]
  obtain e w2 where s: "packetio_send P t (error_response pe) ?w1 = (e, w2)" by force
  obtain f1 w3 where q: "isShutdownRequested P flag w2 = (f1, w3)" by force
  let ?failed = "cerr (''Failed to send protocol error response: '' @ error_message e @ endl) w2"
  have "diagnostics (log w2) = diagnostics (log ?w1)" using packetio_send_frame [OF s] by simp
  from reported_cerr [OF this, of "''Failed to send ''" "''protocol error response: '' @ error_message e @ endl"]
  have failed: "reported ''Failed to send '' ?w1 ?failed" by simp
  have "t' = t" "w' = (if \<not> error_ok e then ?failed else if f1 then w3
      else cout (''Protocol error response sent successfully'' @ endl) w3)"
    using assms(1) unfolding def s prod.case q by (simp_all split: if_splits)
  moreover from this(2) have "answers P t (error_response pe) ?w1 w'"
    by (intro answers_from [OF s assms(2) error_response_valid])
      (use poll_facts [OF q] failed in \<open>simp_all split: if_splits\<close>)
  then have "answers P t (error_response pe) w w'" by (rule answers_after) simp_all
  ultimately show ?thesis by blast
qed

lemma framed_answer:
  assumes "decode h R = x"
  shows "server_answer R = (case x of Inl err \<Rightarrow> error_response (pde_error err) | Inr q \<Rightarrow> snd (dispatch q))"
  using decode_reference_eq [of h R] assms by (auto simp: server_answer_def split: sum.splits)

text \<open>What \<open>receive_request\<close> did: it sent nothing, or it answered the frame it had read.\<close>

lemma receive_request_cases:
  assumes "receive_request P t False w = (code, t', f', w')" "kernel_ok P" "transport_inv t"
  shows "\<exists>R. received (transport_handle t) (log w') = received (transport_handle t) (log w) @ R \<and>
    (sent (transport_handle t) (log w') = sent (transport_handle t) (log w) \<and>
       (f' \<or> code = 0 \<and> t' = Transport \<or> reported ''Failed to receive packet: '' w w') \<or>
     t' = t \<and> length R = 16 + be_value (take 4 (drop 12 R)) \<and>
       (\<exists>d n. encode (native P) (server_answer R) = Inr d \<and>
          sent (transport_handle t) (log w') = sent (transport_handle t) (log w) @ take n d \<and>
          (n = length d \<or> reported ''Failed to send '' w w')))"
proof -
  let ?w1 = "cout (endl @ ''Waiting for packet...'' @ endl) w" and ?fd = "transport_handle t"
  obtain e request pe t1 w2 where r: "packetio_receive P t Packet (Some PE_InvalidPacket) ?w1
      = (e, request, pe, t1, w2)"
    by (metis prod_cases5)
  obtain f1 w3 where q: "isShutdownRequested P False w2 = (f1, w3)" by force
  have w3: "sent ?fd (log w3) = sent ?fd (log w)" "received ?fd (log w3) = received ?fd (log w2)"
    "diagnostics (log w3) = diagnostics (log w)"
    using poll_facts [OF q] packetio_receive_frame [OF r, of ?fd] by simp_all
  obtain es where "log w2 = log ?w1 @ es"
    using packetio_receive_transfers [OF r assms(3)] transfers_log by blast
  then have R0: "received ?fd (log w3) = received ?fd (log w) @ received ?fd es" (is "_ = _ @ ?R0")
    using w3(2) by (simp add: received_simps)
  have run: "f' \<and> w' = w3" if f1
    using that assms(1) r q by (auto simp: receive_request_def)
  have go: "(if \<not> error_ok e then receive_failed P t1 e (the pe) f1 w3
      else dispatch_request P t1 request f1 w3) = (code, t', f', w')" if "\<not> f1"
    using that assms(1) r q by (simp add: receive_request_def split del: if_split cong: if_cong)
  from assms(2) r show ?thesis
  proof (cases rule: packetio_receive_outcome)
    case failed
    let ?failed = "cerr (''Failed to receive packet: '' @ error_message e @ endl) w3"
    have "reported ''Failed to receive packet: '' w ?failed" by (rule reported_cerr [OF w3(3)])
    moreover have "f1 \<or> code = 0 \<and> t' = Transport \<and> w' = w3 \<or> w' = ?failed"
      using go failed by (auto simp: receive_failed_def error_ok_iff split: if_splits)
    ultimately show ?thesis using run R0 w3(1) by (intro exI [of _ ?R0]) auto
  next
    case (frame R)
    have R: "received ?fd (log w3) = received ?fd (log w) @ R" using frame(3) w3(2) by simp
    have answered: ?thesis
      if "answers P t (server_answer R) w3 w'" "received ?fd (log w3) = received ?fd (log w) @ R" "t' = t"
    proof -
      have "\<exists>ds. diagnostics (log w3) = diagnostics (log w) @ ds" using w3(3) by simp
      from that(1) w3(1) reported_after [OF _ this] obtain d n where "encode (native P) (server_answer R) = Inr d"
        "sent ?fd (log w') = sent ?fd (log w) @ take n d" "n = length d \<or> reported ''Failed to send '' w w'"
        "received ?fd (log w') = received ?fd (log w3)"
        unfolding answers_def by metis
      moreover from this(4) that(2) have "received ?fd (log w') = received ?fd (log w) @ R" by metis
      ultimately show ?thesis using that(3) frame(2) by blast
    qed
    consider "f1" | err where "\<not> f1" "decode (native P) R = Inl err" | q where "\<not> f1" "decode (native P) R = Inr q"
      by (cases "decode (native P) R") blast+
    then show ?thesis
    proof cases
      case 1
      then show ?thesis using run R w3(1) by metis
    next
      case (2 err)
      then have "report_protocol_error P t (pde_error err) f1 w3 = (code, t', f', w')"
        using go frame(1,4) by (simp add: receive_failed_def)
      from report_protocol_error_answers [OF this assms(2)] frame(1) framed_answer [OF 2(2)]
      show ?thesis by (intro answered [OF _ R]) simp_all
    next
      case (3 q)
      then have "dispatch_request P t q f1 w3 = (code, t', f', w')" using go frame(1,4) by simp
      note d = dispatch_request_answers [OF this assms(2)]
      show ?thesis
      proof (cases "answers P t1 (snd (dispatch q)) w3 w'")
        case True
        then show ?thesis using d frame(1) framed_answer [OF 3(2)]
          by (intro answered [OF _ R]) simp_all
      next
        case False
        then have "f'" "sent ?fd (log w') = sent ?fd (log w3)" "received ?fd (log w') = received ?fd (log w3)"
          using d frame(1) by simp_all
        then show ?thesis using R w3(1) by metis
      qed
    qed
  qed
qed

text \<open>A request that the connection delivers is answered, unless a shutdown is seen.\<close>

lemma receive_request_delivered:
  assumes "encode h q = Inr d" "transport_isConnected t" "transport_inv t" "kernel_ok P"
    "delivers P (transport_handle t) (d @ rest) (kernel w)"
    "receive_request P t False w = (code, t', False, w')"
  shows "t' = t \<and> (\<exists>r n. encode (native P) (snd (dispatch q)) = Inr r \<and>
    sent (transport_handle t) (log w') = sent (transport_handle t) (log w) @ take n r \<and>
    (n = length r \<or> code = 1 \<and> reported ''Failed to send '' w w'))"
proof -
  let ?w1 = "cout (endl @ ''Waiting for packet...'' @ endl) w" and ?fd = "transport_handle t"
  have "delivers P ?fd (d @ rest) (kernel ?w1)" using assms(5) by (simp add: kernel_simps)
  from packetio_receive_delivers [OF assms(1,2) this, of Packet "Some PE_InvalidPacket"] obtain pe w2 where
    r: "packetio_receive P t Packet (Some PE_InvalidPacket) ?w1 = (ok_result, q, pe, t, w2)"
    by auto
  obtain f1 w3 where p: "isShutdownRequested P False w2 = (f1, w3)" by force
  have "\<not> f1" using assms(6) r p by (cases f1) (simp_all add: receive_request_def)
  then have dr: "dispatch_request P t q False w3 = (code, t', False, w')"
    using assms(6) r p by (simp add: receive_request_def)
  have w3: "sent ?fd (log w3) = sent ?fd (log w)" "diagnostics (log w3) = diagnostics (log w)"
    using poll_facts [OF p] packetio_receive_frame [OF r, of ?fd] by simp_all
  from dispatch_request_answers [OF dr assms(4)] w3 obtain rb n where a: "t' = t"
    "encode (native P) (snd (dispatch q)) = Inr rb" "sent ?fd (log w') = sent ?fd (log w) @ take n rb"
    "n = length rb \<or> reported ''Failed to send '' w3 w'"
    by (auto simp: answers_def)
  from dispatch_request_ok [OF dr assms(3)] obtain ds where ds: "diagnostics (log w') = diagnostics (log w) @ ds"
    "code = (if ds = [] then 0 else 1)"
    using w3 by (auto simp: phase_ok_def exit_rule_def)
  have "reported ''Failed to send '' w3 w' \<Longrightarrow> code = 1 \<and> reported ''Failed to send '' w w'"
    using ds w3(2) by (auto simp: reported_def)
  then show ?thesis using a by blast
qed

section \<open>Properties\<close>

text \<open>
  C12. The server application leaks no descriptor, closes none twice and uses none that is closed: on
  every exit path, whatever the kernel answers and whenever a shutdown signal arrives, the log of the
  run opens and closes the same descriptors, and touches no other.
\<close>

theorem server_main_releases_all:
  "transfers {#} w {#} (snd (server_main P w))"
  by (rule server_main_split [of P w])

text \<open>
  C24. The exit code of the server application, in every run that does not end with a protocol error
  reported to the peer (the one line that announces it is not printed; for that ending the documents
  disagree, see \<open>reported_protocol_error_exits_1\<close>). The exit code is 0 when the last poll saw a
  shutdown request; otherwise it is 1 exactly when the run wrote a diagnostic to \<open>std::cerr\<close>. The
  diagnostics are those of the session: the cleanup changes neither them nor the exit code.
\<close>

theorem server_main_exit_code:
  assumes "server_main P w = (exitCode, w')" "log w' = log w @ es"
    "Out (''Protocol error response sent successfully'' @ endl) \<notin> set es"
  shows "\<exists>s p flag w1. run_session P Server False w = (exitCode, s, p, flag, w1) \<and>
     diagnostics (log w1) = diagnostics (log w) @ diagnostics es \<and>
     exitCode = (if flag then 0 else if diagnostics es = [] then 0 else 1)"
proof (rule server_main_split [of P w])
  fix c s p flag w1
  assume "run_session P Server False w = (c, s, p, flag, w1)" "fst (server_main P w) = c"
    "diagnostics (log (snd (server_main P w))) = diagnostics (log w1)" "exit_rule w c flag w1"
  then show ?thesis using assms(1,2) by (auto simp: exit_rule_def diagnostics_simps)
qed

text \<open>A server that gets no socket.\<close>

theorem server_main_exit_code_witness:
  "\<exists>s p w1. run_session (sim_platform Little) Server False (sim_world [-1] [] 0 []) = (1, s, p, False, w1) \<and>
     diagnostics (log w1) \<noteq> []"
proof -
  let ?r = "server_main (sim_platform Little) (sim_world [-1] [] 0 [])"
  have r: "?r = (1, snd ?r)" "diagnostics (log (snd ?r)) \<noteq> []" "log (sim_world [-1] [] 0 []) = []"
    "Out (''Protocol error response sent successfully'' @ endl) \<notin> set (log (snd ?r))"
    "\<not> fst (snd (snd (snd (run_session (sim_platform Little) Server False (sim_world [-1] [] 0 [])))))"
    by code_simp+
  from server_main_exit_code [OF r(1) _ r(4)] r(2,3,5) show ?thesis
    by (auto simp: diagnostics_simps)
qed

text \<open>
  C2. A session answers at most one frame, and answers it correctly. Let \<open>R\<close> be the bytes the session
  took from the connection. Either nothing was sent, because a shutdown was seen, the peer closed, or
  the failure to receive was reported; or \<open>R\<close> is exactly one frame, and what was sent is the encoding
  of the answer the specification \<open>server_answer\<close> gives to \<open>R\<close>, cut short only if the failure to
  send was reported.
\<close>

theorem server_answers_one_frame:
  assumes "kernel_ok P" "transport_inv t" "receive_request P t False w = (code, t', f', w')"
  shows "\<exists>R. received (transport_handle t) (log w') = received (transport_handle t) (log w) @ R \<and>
    (sent (transport_handle t) (log w') = sent (transport_handle t) (log w) \<and>
       (f' \<or> code = 0 \<and> t' = Transport \<or> reported ''Failed to receive packet: '' w w') \<or>
     t' = t \<and> length R = 16 + be_value (take 4 (drop 12 R)) \<and>
       (\<exists>d n. encode (native P) (server_answer R) = Inr d \<and>
          sent (transport_handle t) (log w') = sent (transport_handle t) (log w) @ take n d \<and>
          (n = length d \<or> reported ''Failed to send '' w w')))"
  using assms(3,1,2) by (rule receive_request_cases)


theorem server_answers_one_frame_witness:
  "\<exists>w'. receive_request (sim_platform Little) demo_transport False (sim_world []
      [[0x50, 0x46, 0x4B, 0x54, 1, 0, 0], [1, 0, 0, 0, 7, 0, 0, 0, 0]] 20 []) = (0, demo_transport, False, w') \<and>
    (\<exists>R. received 3 (log w') = R \<and> encode Little (server_answer R) = Inr (sent 3 (log w')))"
proof -
  let ?w = "sim_world [] [[0x50, 0x46, 0x4B, 0x54, 1, 0, 0], [1, 0, 0, 0, 7, 0, 0, 0, 0]] 20 []"
  let ?r = "receive_request (sim_platform Little) demo_transport False ?w"
  let ?w' = "snd (snd (snd ?r))"
  have r: "?r = (0, demo_transport, False, ?w')" by code_simp
  have facts: "sent 3 (log ?w') \<noteq> []" "diagnostics (log ?w') = []"
    by code_simp+
  have inv: "transport_inv demo_transport" by code_simp
  have "sent 3 (log ?w) = []" "received 3 (log ?w) = []" "native (sim_platform Little) = Little"
    by (simp_all add: sim_world_def kernel_simps sim_platform_def)
  with server_answers_one_frame [OF sim_kernel_ok inv r] facts
  have "encode Little (server_answer (received 3 (log ?w'))) = Inr (sent 3 (log ?w'))"
    by (auto simp: reported_def)
  with r show ?thesis by blast
qed


text \<open>
  C25. Every delivered request is answered. If the connection delivers the encoding of a packet, made on
  a machine of either byte order and cut into pieces of any size, and no shutdown request is seen,
  the session keeps the connection and sends the encoding of the dispatcher's response: all of it, or
  a prefix with exit code 1 and a reported failure to send.
\<close>

theorem server_answers_delivered:
  assumes "encode h q = Inr d" "transport_isConnected t" "transport_inv t" "kernel_ok P"
    "delivers P (transport_handle t) (d @ rest) (kernel w)"
    "receive_request P t False w = (code, t', False, w')"
  shows "t' = t \<and> (\<exists>r n. encode (native P) (snd (dispatch q)) = Inr r \<and>
    sent (transport_handle t) (log w') = sent (transport_handle t) (log w) @ take n r \<and>
    (n = length r \<or> code = 1 \<and> reported ''Failed to send '' w w'))"
  using assms by (rule receive_request_delivered)

theorem server_answers_delivered_witness:
  "\<exists>w'. receive_request (sim_platform Big) demo_transport False (sim_world []
      [[0x50, 0x46, 0x4B, 0x54, 1, 0, 0, 9], [0, 0, 0, 7, 0, 0, 0, 0]] 20 []) = (0, demo_transport, False, w') \<and>
    encode Big (snd (dispatch (Packet\<lparr>pk_opcode := 9, pk_sequenceId := 7\<rparr>))) = Inr (sent 3 (log w'))"
proof -
  let ?ps = "[[0x50, 0x46, 0x4B, 0x54, 1, 0, 0, 9], [0, 0, 0, 7, 0, 0, 0, 0]] :: bytes list"
  let ?w = "sim_world [] ?ps 20 []" and ?q = "Packet\<lparr>pk_opcode := 9, pk_sequenceId := 7\<rparr>"
  let ?r = "receive_request (sim_platform Big) demo_transport False ?w"
  have r: "?r = (0, demo_transport, False, snd (snd (snd ?r)))" by code_simp
  have enc: "encode Little ?q = Inr [0x50, 0x46, 0x4B, 0x54, 1, 0, 0, 9, 0, 0, 0, 7, 0, 0, 0, 0]"
    by code_simp
  have del: "delivers (sim_platform Big) (transport_handle demo_transport)
      ([0x50, 0x46, 0x4B, 0x54, 1, 0, 0, 9, 0, 0, 0, 7, 0, 0, 0, 0] @ []) (kernel ?w)"
    using sim_delivers [of "kernel ?w" Big 3] by (simp add: sim_world_def)
  have inv: "transport_inv demo_transport" by code_simp
  have "sent 3 (log ?w) = []" "native (sim_platform Big) = Big"
    by (simp_all add: sim_world_def kernel_simps sim_platform_def)
  with server_answers_delivered [OF enc _ inv sim_kernel_ok del r]
  have "encode Big (snd (dispatch ?q)) = Inr (sent 3 (log (snd (snd (snd ?r)))))" by auto
  with r show ?thesis by blast
qed


text \<open>
  A protocol error that was reported to the peer ends the session with exit code 1, like a failure of
  the server, although it is classified as handled.
\<close>

lemma reported_protocol_error_exits_1:
  assumes "report_protocol_error P t protocolError flag w = (exitCode, t1, False, w1)"
  shows "exitCode = 1"
  using assms by (auto simp: report_protocol_error_def Let_def split: prod.splits if_splits)

end
