(* ===== verification/Clients.thy ===== *)
theory Clients
  imports Packet_IO
begin

text \<open>
  \<open>packetforge::client::Client\<close> (\<open>include/client/client.hpp\<close>, \<open>src/client/client.cpp\<close>): a transport
  and a \<open>PacketIO\<close> on it. The reference inside \<open>packetIO_\<close> always names the object's own
  \<open>transport_\<close> (both constructors bind it, move assignment leaves it), so it adds no state.
\<close>

record client =
  cl_transport :: transport

definition Client :: client where
  "Client = \<lparr>cl_transport = Transport\<rparr>"

definition client_move :: "client \<Rightarrow> client \<times> client" where
  "client_move other =
     (case transport_move (cl_transport other) of (t, rest) \<Rightarrow>
        (\<lparr>cl_transport = t\<rparr>, other\<lparr>cl_transport := rest\<rparr>))"

definition client_assign ::
    "bool \<Rightarrow> 'w platform \<Rightarrow> client \<Rightarrow> client \<Rightarrow> 'w world \<Rightarrow> client \<times> client \<times> 'w world" where
  "client_assign same P this other w =
     (if \<not> same
      then (case transport_assign False P (cl_transport this) (cl_transport other) w of
              (t, rest, w1) \<Rightarrow> (this\<lparr>cl_transport := t\<rparr>, other\<lparr>cl_transport := rest\<rparr>, w1))
      else (this, other, w))"

definition client_destroy :: "'w platform \<Rightarrow> client \<Rightarrow> 'w world \<Rightarrow> 'w world" where
  "client_destroy P c w = transport_destroy P (cl_transport c) w"

definition client_connect ::
    "'w platform \<Rightarrow> client \<Rightarrow> string \<Rightarrow> u16 \<Rightarrow> 'w world \<Rightarrow> error \<times> client \<times> 'w world" where
  "client_connect P c host port w =
     (case connection_connect P (tr_connection (cl_transport c)) host port w of (e, conn, w1) \<Rightarrow>
        (e, c\<lparr>cl_transport := (cl_transport c)\<lparr>tr_connection := conn\<rparr>\<rparr>, w1))"

definition client_disconnect :: "'w platform \<Rightarrow> client \<Rightarrow> 'w world \<Rightarrow> client \<times> 'w world" where
  "client_disconnect P c w =
     (case transport_disconnect P (cl_transport c) w of (t, w1) \<Rightarrow> (c\<lparr>cl_transport := t\<rparr>, w1))"

definition client_isConnected :: "client \<Rightarrow> bool" where
  "client_isConnected c = transport_isConnected (cl_transport c)"

definition client_send :: "'w platform \<Rightarrow> client \<Rightarrow> packet \<Rightarrow> 'w world \<Rightarrow> error \<times> 'w world" where
  "client_send P c packet w =
     (if \<not> client_isConnected c
      then (Error ConnectionFailed ''Connection not established'', w)
      else packetio_send P (cl_transport c) packet w)"

definition client_receive ::
    "'w platform \<Rightarrow> client \<Rightarrow> packet \<Rightarrow> 'w world \<Rightarrow> error \<times> packet \<times> client \<times> 'w world" where
  "client_receive P c packet w =
     (if \<not> client_isConnected c
      then (Error ConnectionFailed ''Connection not established'', packet, c, w)
      else (case packetio_receive P (cl_transport c) packet None w of (e, p, _, t, w1) \<Rightarrow>
        (e, p, c\<lparr>cl_transport := t\<rparr>, w1)))"

section \<open>Ownership and invariant\<close>

definition client_inv :: "client \<Rightarrow> bool" where
  "client_inv c = transport_inv (cl_transport c)"

definition client_owned :: "client \<Rightarrow> int multiset" where
  "client_owned c = transport_owned (cl_transport c)"

lemmas client_defs = Client_def client_inv_def client_owned_def client_isConnected_def

lemma client_disconnect_eq:
  "client_disconnect P c w = (Client, snd (transport_disconnect P (cl_transport c) w))"
  by (cases c) (simp add: client_disconnect_def transport_disconnect_eq Client_def)

interpretation cli: movable_resource client_owned client_inv Client
  client_disconnect client_move "client_assign False"
proof unfold_locales
  fix r this other :: client and P :: "'b platform" and w
  show "client_inv Client" "client_owned Client = {#}"
    by (simp_all add: client_defs trans.fresh_inv trans.owned_fresh)
  show "fst (client_disconnect P r w) = Client" by (simp add: client_disconnect_eq)
  show "client_move r = (r, Client)" if "client_inv r"
    using that by (cases r) (simp add: client_move_def trans.move_takes client_defs)
  show "snd (client_disconnect P r w) = w" if "client_inv r" "client_owned r = {#}"
    using that by (simp add: client_disconnect_eq client_defs trans.release_idle)
  show "transfers (client_owned r) w {#} (snd (client_disconnect P r w))" if "client_inv r"
    using that by (simp add: client_disconnect_eq client_defs trans.release_transfers)
  show "client_assign False P this other w =
      (fst (client_move other), snd (client_move other), snd (client_disconnect P this w))"
    if "client_inv this" "client_inv other"
    using that
    by (cases this; cases other)
      (simp add: client_assign_def client_move_def client_disconnect_eq client_defs
         trans.assign_eq trans.move_takes)
qed

lemma transport_destroy_eq: "transport_destroy P t w = snd (transport_disconnect P t w)"
  by (simp add: transport_destroy_def connection_destroy_eq transport_disconnect_eq)

lemma client_destroy_eq: "client_destroy P c w = snd (client_disconnect P c w)"
  by (simp add: client_destroy_def transport_destroy_eq client_disconnect_eq)

lemma client_connect_transfers:
  assumes "client_connect P c host port w = (e, c', w')"
  shows "transfers (client_owned c) w (client_owned c') w'"
  using assms
  by (auto simp: client_connect_def client_owned_def transport_owned_def split: prod.splits
        dest: connection_connect_transfers)

lemma client_connect_inv:
  "client_inv c \<Longrightarrow> client_connect P c host port w = (e, c', w') \<Longrightarrow> client_inv c'"
  by (auto simp: client_connect_def client_inv_def transport_inv_def split: prod.splits
        dest: connection_connect_inv)

lemma client_connect_result:
  "client_connect P c host port w = (e, c', w') \<Longrightarrow>
    client_isConnected c' = (client_isConnected c \<or> error_ok e)"
  by (auto simp: client_connect_def client_isConnected_def transport_isConnected_def
        connection_isConnected_def split: prod.splits dest: connection_connect_result)

lemma client_send_transfers:
  "client_send P c p w = (e, w') \<Longrightarrow> client_inv c \<Longrightarrow> transfers (client_owned c) w (client_owned c) w'"
  by (auto simp: client_send_def client_defs split: if_splits dest: packetio_send_transfers)

lemma client_receive_keeps:
  "client_receive P c p w = (e, p', c', w') \<Longrightarrow> client_inv c \<Longrightarrow>
    transfers (client_owned c) w (client_owned c') w' \<and> client_inv c'"
  by (auto simp: client_receive_def client_defs split: if_splits prod.splits
        dest: packetio_receive_transfers)


lemma client_connect_diagnostics:
  "client_connect P c host port w = (e, c', w') \<Longrightarrow> diagnostics (log w') = diagnostics (log w)"
  by (auto simp: client_connect_def split: prod.splits dest: connection_connect_diagnostics)

lemma client_disconnect_frame [simp]:
  "sent f (log (snd (client_disconnect P c w))) = sent f (log w)"
  "received f (log (snd (client_disconnect P c w))) = received f (log w)"
  "diagnostics (log (snd (client_disconnect P c w))) = diagnostics (log w)"
  by (simp_all add: client_disconnect_eq)

lemma client_send_frame:
  "client_send P c p w = (e, w') \<Longrightarrow>
    received f (log w') = received f (log w) \<and> diagnostics (log w') = diagnostics (log w)"
  by (auto simp: client_send_def split: if_splits dest: packetio_send_frame)

lemma client_receive_frame:
  "client_receive P c p w = (e, p', c', w') \<Longrightarrow>
    sent f (log w') = sent f (log w) \<and> diagnostics (log w') = diagnostics (log w)"
  by (auto simp: client_receive_def split: if_splits prod.splits dest: packetio_receive_frame)

lemma client_refuses:
  "client_send P Client p w = (Error ConnectionFailed ''Connection not established'', w)"
  "client_receive P Client q w = (Error ConnectionFailed ''Connection not established'', q, Client, w)"
  "client_disconnect P Client w = (Client, w)"
  using cli.release_fresh [OF cli.fresh_inv, of P w] cli.release_idle [OF cli.fresh_inv cli.owned_fresh, of P w]
  by (simp_all add: client_send_def client_receive_def client_defs transport_defs connection_defs prod_eq_iff)

text \<open>What goes over the wire, for a valid packet and for a successful receive.\<close>

lemma client_send_prefix:
  assumes "client_send P c p w = (e, w')" "kernel_ok P" "packet_isValid p"
  shows "\<exists>d n. encode (native P) p = Inr d \<and>
    sent (transport_handle (cl_transport c)) (log w') = sent (transport_handle (cl_transport c)) (log w) @ take n d \<and>
    (error_ok e \<longrightarrow> n = length d)"
proof (cases "client_isConnected c")
  case False
  then have "w' = w \<and> \<not> error_ok e" using assms(1) by (auto simp: client_send_def)
  then show ?thesis using encode_wire [OF assms(3)] by (auto intro!: exI [of _ 0])
next
  case True
  let ?d = "wire_header p @ pk_payload p"
  have "packetio_send P (cl_transport c) p w = (e, w')"
    using assms(1) True by (simp add: client_send_def)
  from packetio_send_cases [OF this] assms(3)
  have "transport_send P (cl_transport c) ?d w = (e, w')" by simp
  moreover have "?d \<noteq> []" by (simp add: wire_header_def)
  ultimately show ?thesis
    using transport_send_prefix [OF assms(2), of "cl_transport c" ?d w e w'] encode_wire [OF assms(3)]
    by (auto split: if_splits)
qed

lemma client_receive_frame_taken:
  assumes "client_receive P c q w = (e, p, c', w')" "kernel_ok P" "error_ok e"
  shows "c' = c \<and> (\<exists>d. encode (native P) p = Inr d \<and>
    received (transport_handle (cl_transport c)) (log w') = received (transport_handle (cl_transport c)) (log w) @ d)"
proof -
  have "client_isConnected c" using assms(1,3) by (cases "client_isConnected c") (auto simp: client_receive_def)
  then obtain pe t where r: "packetio_receive P (cl_transport c) q None w = (e, p, pe, t, w')"
    and c': "c' = c\<lparr>cl_transport := t\<rparr>"
    using assms(1) unfolding client_receive_def by (simp split: prod.splits)
  from assms(2) r show ?thesis
  proof (cases rule: packetio_receive_outcome)
    case failed
    then show ?thesis using assms(3) by (auto simp: error_ok_iff)
  next
    case (frame R)
    then have "decode (native P) R = Inr p" using assms(3) by (auto split: sum.splits)
    from decode_Inr [OF this] show ?thesis using frame(1,3) c' encode_wire [of p] by auto
  qed
qed

section \<open>Properties\<close>

text \<open>
  Connecting. The client is connected afterwards exactly when it already was or the call
  succeeded, a connected client always has an open socket, and the descriptors it owns afterwards
  are accounted for on every path, failures included.
\<close>

theorem client_connect_outcomes:
  assumes "client_inv c" "client_connect P c host port w = (e, c', w')"
  shows "client_inv c' \<and> client_isConnected c' = (client_isConnected c \<or> error_ok e) \<and>
    (client_isConnected c' \<longrightarrow> client_owned c' = {#transport_handle (cl_transport c')#}) \<and>
    transfers (client_owned c) w (client_owned c') w'"
  using client_connect_inv [OF assms] client_connect_result [OF assms(2)]
    client_connect_transfers [OF assms(2)] transport_handle_owned [of "cl_transport c'"]
  by (simp add: client_defs)

theorem client_connect_outcomes_witness:
  "\<exists>c' w'. client_connect (sim_platform Little) Client ''localhost'' 9090 (sim_world [5] [] 0 []) =
      (Error InvalidArgument ''Invalid IPv4 address'', c', w') \<and>
    \<not> client_isConnected c' \<and> client_owned c' = {#5#} \<and> transfers {#} (sim_world [5] [] 0 []) {#5#} w'"
proof -
  let ?r = "client_connect (sim_platform Little) Client ''localhost'' 9090 (sim_world [5] [] 0 [])"
  have r: "?r = (Error InvalidArgument ''Invalid IPv4 address'', fst (snd ?r), snd (snd ?r))"
    by code_simp
  have o: "client_owned (fst (snd ?r)) = {#5#}" "client_isConnected Client = False"
      "client_owned Client = {#}"
    by (code_simp, simp_all add: client_defs transport_defs connection_defs socket_defs)
  from client_connect_outcomes [OF cli.fresh_inv r] o
  have t: "transfers {#} (sim_world [5] [] 0 []) {#5#} (snd (snd ?r))" "\<not> client_isConnected (fst (snd ?r))"
    by auto
  show ?thesis by (intro exI conjI, rule r) (use t o in simp_all)
qed

text \<open>
  A disconnected client. \<open>disconnect\<close> returns the client to its initial state and releases what it
  owned; doing it again changes nothing; and until the next \<open>connect\<close> every \<open>send\<close> and \<open>receive\<close> is
  refused with \<open>ConnectionFailed\<close>, without a system call and without touching the caller's packet.
\<close>

theorem client_disconnected:
  assumes "client_inv c" "client_disconnect P c w = (c', w')"
  shows "\<not> client_isConnected c' \<and> transfers (client_owned c) w {#} w' \<and>
    client_disconnect P c' w' = (c', w') \<and>
    client_send P c' p w' = (Error ConnectionFailed ''Connection not established'', w') \<and>
    client_receive P c' q w' = (Error ConnectionFailed ''Connection not established'', q, c', w')"
proof -
  have c': "c' = Client" using cli.release_fresh [OF assms(1), of P w] assms(2) by simp
  then have "\<not> client_isConnected c'" by (simp add: client_defs transport_defs connection_defs)
  then show ?thesis
    using cli.release_twice [OF assms] cli.release_transfers_pair [OF assms]
    by (simp add: client_send_def client_receive_def)
qed

theorem client_disconnected_witness:
  "\<exists>w'. client_disconnect (sim_platform Big) \<lparr>cl_transport = demo_transport\<rparr> (sim_world [] [] 9 []) =
      (Client, w') \<and> transfers {#3#} (sim_world [] [] 9 []) {#} w' \<and>
    client_send (sim_platform Big) Client Packet w' =
      (Error ConnectionFailed ''Connection not established'', w')"
proof -
  let ?c = "\<lparr>cl_transport = demo_transport\<rparr>"
  let ?r = "client_disconnect (sim_platform Big) ?c (sim_world [] [] 9 [])"
  have r: "?r = (Client, snd ?r)" by (simp add: client_disconnect_eq)
  have i: "client_inv ?c" "client_owned ?c = {#3#}"
    by (code_simp, simp add: client_owned_def transport_owned_def demo_transport_def connection_owned_def
        socket_owned_def socket_isOpen_def)
  from client_disconnected [OF i(1) r, of Packet] i r show ?thesis by metis
qed

end
