(* ===== verification/Client_Main.thy ===== *)
theory Client_Main
  imports Clients
begin

text \<open>
  The client application, \<open>apps/client_main.cpp\<close>: one exchange with the server, then checks that a
  disconnected client refuses to work. The phases are one definition each, in the order of the
  source; a phase returns the exit code, the client and the world, and \<open>client_main\<close> runs the
  client's destructor on every return.
\<close>

section \<open>Printing\<close>

definition state_text :: "client \<Rightarrow> string" where
  "state_text c = (if client_isConnected c then ''CONNECTED'' else ''DISCONNECTED'')"

text \<open>The \<open>switch\<close> is on the value the enumeration holds, which a cast may set to anything.\<close>

definition protocolErrorName :: "u16 \<Rightarrow> string" where
  "protocolErrorName error =
     (if error = protocol_error_value PE_InvalidPacket then ''InvalidPacket''
      else if error = protocol_error_value PE_UnsupportedOpcode then ''UnsupportedOpcode''
      else if error = protocol_error_value PE_UnsupportedVersion then ''UnsupportedVersion''
      else if error = protocol_error_value PE_InvalidPayload then ''InvalidPayload''
      else ''UnknownProtocolError'')"

definition printPayload :: "packet \<Rightarrow> 'w world \<Rightarrow> 'w world" where
  "printPayload packet w =
     (if packet_opcode packet = opcode_value ErrorResponse
      then (case packet_payload packet of
          [] \<Rightarrow> cout (''  Error: Missing error code'' @ endl) w
        | first # _ \<Rightarrow>
            cout (''  Error: '' @ protocolErrorName (ucast first) @ '' (code: '' @
              to_string (uint first) @ '')'' @ endl) w)
      else cout (''  Payload: '' @ string_of_bytes (packet_payload packet) @ endl) w)"

definition print_response :: "packet \<Rightarrow> 'w world \<Rightarrow> 'w world" where
  "print_response response w =
     (let w1 = cout (endl @ ''Server response received successfully'' @ endl) w;
          w2 = cout (''  Magic: 0x'' @ to_hex (uint (packet_magicNumber response)) @ endl) w1;
          w3 = cout (''  Version: '' @ to_string (uint (packet_version response)) @ endl) w2;
          w4 = cout (''  Flags: '' @ to_string (uint (packet_flags response)) @ endl) w3;
          w5 = cout (''  Opcode: '' @ to_string (uint (packet_opcode response)) @ endl) w4;
          w6 = cout (''  Sequence ID: '' @ to_string (uint (packet_sequenceId response)) @ endl) w5;
          w7 = cout (''  Payload length: '' @ to_string (uint (packet_payloadLength response)) @ endl) w6
      in printPayload response w7)"

section \<open>The phases\<close>

definition hello_request :: packet where
  "hello_request =
     (let packet = Packet;
          packet = packet_setVersion VERSION packet;
          packet = packet_setFlags 0 packet;
          packet = packet_setOpcode (opcode_value HelloRequest) packet;
          packet = packet_setSequenceId 1 packet;
          payload = map byte_of_char
            [CHR ''H'', CHR ''e'', CHR ''l'', CHR ''l'', CHR ''o'', CHR '' '', CHR ''P'', CHR ''a'',
             CHR ''c'', CHR ''k'', CHR ''e'', CHR ''t'', CHR ''F'', CHR ''o'', CHR ''r'', CHR ''g'',
             CHR ''e'']
      in packet_setPayload payload packet)"

definition use_after_disconnect ::
    "'w platform \<Rightarrow> client \<Rightarrow> packet \<Rightarrow> 'w world \<Rightarrow> int \<times> client \<times> 'w world" where
  "use_after_disconnect P client packet w =
     (let w1 = cout (endl @ ''Testing send after disconnect...'' @ endl) w in
      case client_send P client packet w1 of (sendError, w2) \<Rightarrow>
      let w3 = cout (''Send after disconnect result: '' @ error_message sendError @ endl) w2;
          w4 = cout (''Connection state after failed send: '' @ state_text client @ endl) w3;
          w5 = cout (endl @ ''Testing receive after disconnect...'' @ endl) w4
      in case client_receive P client Packet w5 of (receiveError, _, client1, w6) \<Rightarrow>
      let w7 = cout (''Receive after disconnect result: '' @ error_message receiveError @ endl) w6;
          w8 = cout (''Connection state after failed receive: '' @ state_text client1 @ endl) w7;
          w9 = cout (endl @ ''Testing repeated disconnect...'' @ endl) w8
      in case client_disconnect P client1 w9 of (client2, w10) \<Rightarrow>
      let w11 = cout (''Second disconnect completed successfully'' @ endl) w10;
          w12 = cout (''Connection state after repeated disconnect: '' @ state_text client2 @ endl) w11
      in (0, client2, w12))"

definition finish_exchange ::
    "'w platform \<Rightarrow> client \<Rightarrow> packet \<Rightarrow> packet \<Rightarrow> 'w world \<Rightarrow> int \<times> client \<times> 'w world" where
  "finish_exchange P client packet response w =
     (let w1 = print_response response w;
          w2 = cout (''Press ENTER to disconnect...'' @ endl) w1;
          w3 = snd (syscall P ReadStdin w2)
      in case client_disconnect P client w3 of (client1, w4) \<Rightarrow>
      let w5 = cout (''PacketForge client disconnected successfully'' @ endl) w4;
          w6 = cout (''Connection state after disconnect: '' @ state_text client1 @ endl) w5
      in use_after_disconnect P client1 packet w6)"

definition await_response ::
    "'w platform \<Rightarrow> client \<Rightarrow> packet \<Rightarrow> 'w world \<Rightarrow> int \<times> client \<times> 'w world" where
  "await_response P client packet w =
     (let w1 = cout (''Packet sent successfully'' @ endl) w;
          w2 = cout (''Waiting for server response...'' @ endl) w1
      in case client_receive P client Packet w2 of (receiveError, response, client1, w3) \<Rightarrow>
        if \<not> error_ok receiveError
        then (case client_disconnect P client1
                (cerr (''Failed to receive server response: '' @ error_message receiveError @ endl) w3)
              of (client2, w4) \<Rightarrow> (1, client2, w4))
        else finish_exchange P client1 packet response w3)"

definition print_request :: "packet \<Rightarrow> 'w world \<Rightarrow> 'w world" where
  "print_request packet w =
     (let w1 = cout (''Sending Hello Request opcode: '' @ to_string (uint (packet_opcode packet)) @ endl) w;
          w2 = cout (''Packet created successfully'' @ endl) w1;
          w3 = cout (''  Opcode: '' @ to_string (uint (packet_opcode packet)) @ endl) w2;
          w4 = cout (''  Sequence ID: '' @ to_string (uint (packet_sequenceId packet)) @ endl) w3;
          w5 = cout (''  Payload length: '' @ to_string (uint (packet_payloadLength packet)) @ endl) w4
      in cout (''Sending PacketForge packet...'' @ endl) w5)"

definition send_request ::
    "'w platform \<Rightarrow> client \<Rightarrow> packet \<Rightarrow> 'w world \<Rightarrow> int \<times> client \<times> 'w world" where
  "send_request P client packet w =
     (if \<not> packet_isValid packet
      then (case client_disconnect P client (cerr (''Packet validation failed'' @ endl) w) of
              (client1, w1) \<Rightarrow> (1, client1, w1))
      else
        (case client_send P client packet (print_request packet w) of (sendError, w2) \<Rightarrow>
          if \<not> error_ok sendError
          then (case client_disconnect P client
                  (cerr (''Failed to send packet: '' @ error_message sendError @ endl) w2)
                of (client1, w3) \<Rightarrow> (1, client1, w3))
          else await_response P client packet w2))"

definition connect_and_exchange ::
    "'w platform \<Rightarrow> client \<Rightarrow> 'w world \<Rightarrow> int \<times> client \<times> 'w world" where
  "connect_and_exchange P client w =
     (let w1 = cout (''Initial connection state: '' @ state_text client @ endl) w;
          w2 = cout (''Connecting to PacketForge server...'' @ endl) w1
      in case client_connect P client ''127.0.0.1'' 9090 w2 of (connectError, client1, w3) \<Rightarrow>
        if \<not> error_ok connectError
        then
          let w4 = cerr (''Failed to connect to PacketForge server: '' @ error_message connectError @ endl) w3;
              w5 = cout (''Connection state after failure: '' @ state_text client1 @ endl) w4
          in (1, client1, w5)
        else send_request P client1 hello_request w3)"

definition client_main :: "'w platform \<Rightarrow> 'w world \<Rightarrow> int \<times> 'w world" where
  "client_main P w =
     (case connect_and_exchange P Client w of (exitCode, client, w1) \<Rightarrow>
        (exitCode, client_destroy P client w1))"


section \<open>What a phase keeps\<close>

text \<open>
  Every phase keeps the client's invariant, accounts for its descriptor, and returns 1 exactly when it
  reported a failure.
\<close>

definition client_phase_ok :: "client \<Rightarrow> 'w world \<Rightarrow> int \<Rightarrow> client \<Rightarrow> 'w world \<Rightarrow> bool" where
  "client_phase_ok c w exitCode c' w' \<longleftrightarrow>
     client_inv c' \<and> transfers (client_owned c) w (client_owned c') w' \<and>
     (\<exists>ds. diagnostics (log w') = diagnostics (log w) @ ds \<and> exitCode = (if ds = [] then 0 else 1))"

lemma client_phase_ok_after:
  assumes "client_phase_ok c1 w1 exitCode c' w'" "transfers (client_owned c) w (client_owned c1) w1"
    "diagnostics (log w1) = diagnostics (log w)"
  shows "client_phase_ok c w exitCode c' w'"
  using assms transfers_trans by (auto simp: client_phase_ok_def)

lemma print_response_prints: "prints w' w \<Longrightarrow> prints w' (print_response p w)"
  unfolding print_response_def Let_def printPayload_def
  by (split if_split list.split)+ (blast intro: prints_cout)

lemma print_request_prints: "prints w' w \<Longrightarrow> prints w' (print_request p w)"
  unfolding print_request_def Let_def by (intro prints_cout)


text \<open>What the application prints when a disconnected client refuses to work.\<close>

definition refusal_transcript :: "string list" where
  "refusal_transcript =
     [endl @ ''Testing send after disconnect...'' @ endl,
      ''Send after disconnect result: Connection not established'' @ endl,
      ''Connection state after failed send: DISCONNECTED'' @ endl,
      endl @ ''Testing receive after disconnect...'' @ endl,
      ''Receive after disconnect result: Connection not established'' @ endl,
      ''Connection state after failed receive: DISCONNECTED'' @ endl,
      endl @ ''Testing repeated disconnect...'' @ endl,
      ''Second disconnect completed successfully'' @ endl,
      ''Connection state after repeated disconnect: DISCONNECTED'' @ endl]"

lemma cout_update: "cout s w = w\<lparr>log := log w @ map Out [s]\<rparr>"
  by (simp add: cout_def)

lemma state_text_fresh: "state_text Client = ''DISCONNECTED''"
  by (simp add: state_text_def client_defs transport_defs connection_defs)

lemma use_after_disconnect_fresh:
  "use_after_disconnect P Client packet w =
     (0, Client, w\<lparr>log := log w @ map Out refusal_transcript\<rparr>)"
  unfolding use_after_disconnect_def Let_def client_refuses prod.case error_message_Error state_text_fresh
  by (simp add: refusal_transcript_def cout_def)

lemma stdin_frame:
  "diagnostics (log (snd (syscall P ReadStdin w))) = diagnostics (log w)"
  "transfers R v R' w \<Longrightarrow> transfers R v R' (snd (syscall P ReadStdin w))"
  by (simp add: syscall_diagnostics [OF prod.collapse [symmetric]])
    (metis syscall_stdin_transfers prod.collapse transfers_trans)

lemma finish_exchange_result:
  assumes "finish_exchange P c packet response w = (code, c', w')" "client_inv c"
  shows "code = 0 \<and> c' = Client \<and> transfers (client_owned c) w {#} w' \<and>
    diagnostics (log w') = diagnostics (log w) \<and> sent f (log w') = sent f (log w) \<and>
    received f (log w') = received f (log w) \<and>
    (\<exists>es. log w' = es @ map Out refusal_transcript)"
proof -
  define w2 where "w2 = cout (''Press ENTER to disconnect...'' @ endl) (print_response response w)"
  define w3 where "w3 = snd (syscall P ReadStdin w2)"
  obtain c1 w4 where d: "client_disconnect P c w3 = (c1, w4)" by force
  define w6 where "w6 = cout (''Connection state after disconnect: '' @ state_text Client @ endl)
    (cout (''PacketForge client disconnected successfully'' @ endl) w4)"
  have c1: "c1 = Client" using cli.release_fresh [OF assms(2), of P w3] d by simp
  have p2: "prints w w2" unfolding w2_def by (intro prints_cout print_response_prints prints_refl)
  have p6: "prints w4 w6" unfolding w6_def by (intro prints_cout prints_refl)
  have "(code, c', w') = (0, Client, w6\<lparr>log := log w6 @ map Out refusal_transcript\<rparr>)"
    using assms(1) unfolding finish_exchange_def Let_def w2_def [symmetric] w3_def [symmetric] d prod.case c1
      w6_def [symmetric] use_after_disconnect_fresh by simp
  moreover have "prints w6 (w6\<lparr>log := log w6 @ map Out refusal_transcript\<rparr>)" by (auto simp: prints_def)
  ultimately have e: "code = 0" "c' = Client" "prints w6 w'" "log w' = log w6 @ map Out refusal_transcript"
    by auto
  have "transfers (client_owned c) w (client_owned c) w3"
    unfolding w3_def by (intro stdin_frame prints_transfers [OF p2]) auto
  from transfers_trans [OF this cli.release_transfers_pair [OF assms(2) d]]
  have t: "transfers (client_owned c) w {#} w'"
    by (intro prints_transfers [OF e(3)] prints_transfers [OF p6])
  have "diagnostics (log w4) = diagnostics (log w)" "sent f (log w4) = sent f (log w)"
    "received f (log w4) = received f (log w)"
    using prints_frame [OF p2] arg_cong [OF d, of snd, symmetric]
    by (simp_all add: w3_def stdin_frame stdin_streams)
  then show ?thesis using e t prints_frame [OF p6] prints_frame [OF e(3)] by auto
qed

text \<open>A failure that is reported, after which the client is disconnected.\<close>

lemma give_up_ok:
  assumes "client_disconnect P c (cerr s w1) = (c', w')" "client_inv c"
    "transfers R w (client_owned c) w1" "diagnostics (log w1) = diagnostics (log w)"
  shows "c' = Client" "transfers R w {#} w'" "diagnostics (log w') = diagnostics (log w) @ [s]"
  using cli.release_fresh [OF assms(2), of P "cerr s w1"] assms(1)
    transfers_trans [OF cerr_transfers [OF assms(3)] cli.release_transfers_pair [OF assms(2,1)]]
    client_disconnect_frame(3) [of P c "cerr s w1"] assms(4)
  by simp_all

lemma give_up_streams:
  assumes "(c', w') = client_disconnect P c (cerr s w1)" "client_inv c"
  shows "c' = Client \<and> sent f (log w') = sent f (log w1) \<and> received f (log w') = received f (log w1)"
  using cli.release_fresh [OF assms(2), of P "cerr s w1"] arg_cong [OF assms(1), of fst]
    arg_cong [OF assms(1), of snd] by simp

lemma client_phase_ok_gave_up:
  "c' = Client \<Longrightarrow> transfers (client_owned c) w {#} w' \<Longrightarrow>
    diagnostics (log w') = diagnostics (log w) @ [s] \<Longrightarrow> client_phase_ok c w 1 c' w'"
  by (simp add: client_phase_ok_def cli.fresh_inv cli.owned_fresh)

lemma await_response_ok:
  assumes "await_response P c packet w = (code, c', w')" "client_inv c"
  shows "client_phase_ok c w code c' w'"
proof -
  define w2 where "w2 = cout (''Waiting for server response...'' @ endl) (cout (''Packet sent successfully'' @ endl) w)"
  obtain e response c1 w3 where r: "client_receive P c Packet w2 = (e, response, c1, w3)"
    by (metis prod_cases4)
  have p2: "prints w w2" unfolding w2_def by (intro prints_cout prints_refl)
  note rc = client_receive_keeps [OF r assms(2)]
  have t3: "transfers (client_owned c) w (client_owned c1) w3"
    using transfers_trans [OF prints_transfers [OF p2 transfers_refl]] rc by blast
  have d3: "diagnostics (log w3) = diagnostics (log w)"
    using client_receive_frame [OF r] prints_frame [OF p2] by simp
  show ?thesis
  proof (cases "error_ok e")
    case True
    then have "finish_exchange P c1 packet response w3 = (code, c', w')"
      using assms(1) unfolding await_response_def Let_def w2_def [symmetric] r prod.case by simp
    from finish_exchange_result [OF this] rc t3 d3 show ?thesis
      by (auto simp: client_phase_ok_def cli.fresh_inv cli.owned_fresh intro: transfers_trans)
  next
    case False
    obtain c2 w4 where g: "client_disconnect P c1
        (cerr (''Failed to receive server response: '' @ error_message e @ endl) w3) = (c2, w4)" by force
    have "(code, c', w') = (1, c2, w4)"
      using assms(1) False unfolding await_response_def Let_def w2_def [symmetric] r prod.case g by simp
    then show ?thesis using client_phase_ok_gave_up give_up_ok [OF g _ t3 d3] rc by simp
  qed
qed

lemma await_response_frame:
  assumes "await_response P c packet w = (code, c', w')" "client_inv c" "kernel_ok P"
  defines "fd \<equiv> transport_handle (cl_transport c)"
  shows "c' = Client \<and> sent fd (log w') = sent fd (log w) \<and>
    (code = 0 \<longrightarrow> (\<exists>response r es. encode (native P) response = Inr r \<and>
       received fd (log w') = received fd (log w) @ r \<and> log w' = es @ map Out refusal_transcript))"
proof -
  define w2 where "w2 = cout (''Waiting for server response...'' @ endl) (cout (''Packet sent successfully'' @ endl) w)"
  obtain e response c1 w3 where r: "client_receive P c Packet w2 = (e, response, c1, w3)"
    by (metis prod_cases4)
  have p2: "prints w w2" unfolding w2_def by (intro prints_cout prints_refl)
  have s3: "sent fd (log w3) = sent fd (log w)"
    using client_receive_frame [OF r, of fd] prints_frame [OF p2] by simp
  show ?thesis
  proof (cases "error_ok e")
    case True
    then have "finish_exchange P c1 packet response w3 = (code, c', w')"
      using assms(1) unfolding await_response_def Let_def w2_def [symmetric] r prod.case by simp
    moreover obtain d where "c1 = c" "encode (native P) response = Inr d"
      "received fd (log w3) = received fd (log w) @ d"
      using client_receive_frame_taken [OF r assms(3) True] prints_frame [OF p2] by (auto simp: fd_def)
    ultimately show ?thesis using finish_exchange_result [of P c1 packet response w3 code c' w' fd] assms(2) s3
      by auto
  next
    case False
    then have g: "code = 1" "(c', w') = client_disconnect P c1
        (cerr (''Failed to receive server response: '' @ error_message e @ endl) w3)"
      using assms(1) unfolding await_response_def Let_def w2_def [symmetric] r prod.case
      by (simp_all split: prod.splits)
    have "client_inv c1" using client_receive_keeps [OF r assms(2)] by simp
    from give_up_streams [OF g(2) this] show ?thesis using g(1) s3 by simp
  qed
qed

lemma send_request_ok:
  assumes "send_request P c packet w = (code, c', w')" "client_inv c"
  shows "client_phase_ok c w code c' w'"
proof (cases "packet_isValid packet")
  case False
  obtain c1 w1 where g: "client_disconnect P c (cerr (''Packet validation failed'' @ endl) w) = (c1, w1)" by force
  then have "(code, c', w') = (1, c1, w1)" using assms(1) False by (simp add: send_request_def)
  then show ?thesis
    using client_phase_ok_gave_up give_up_ok [OF g assms(2) transfers_refl refl] by simp
next
  case True
  have p: "prints w (print_request packet w)" by (intro print_request_prints prints_refl)
  obtain e w2 where s: "client_send P c packet (print_request packet w) = (e, w2)" by force
  have t2: "transfers (client_owned c) w (client_owned c) w2"
    using transfers_trans [OF prints_transfers [OF p transfers_refl] client_send_transfers [OF s assms(2)]] .
  have d2: "diagnostics (log w2) = diagnostics (log w)"
    using client_send_frame [OF s] prints_frame [OF p] by simp
  show ?thesis
  proof (cases "error_ok e")
    case ok: True
    then have "await_response P c packet w2 = (code, c', w')"
      using assms(1) True s by (simp add: send_request_def)
    from await_response_ok [OF this assms(2)] t2 d2 show ?thesis by (rule client_phase_ok_after)
  next
    case False
    obtain c1 w3 where g: "client_disconnect P c
        (cerr (''Failed to send packet: '' @ error_message e @ endl) w2) = (c1, w3)" by force
    have "(code, c', w') = (1, c1, w3)"
      using assms(1) True False s g by (simp add: send_request_def)
    then show ?thesis using client_phase_ok_gave_up give_up_ok [OF g assms(2) t2 d2] by simp
  qed
qed


lemma send_request_succeeds:
  assumes "packet_isValid packet" "client_inv c"
    "error_ok (fst (client_send P c packet (print_request packet w)))"
    "error_ok (fst (client_receive P c Packet (cout (''Waiting for server response...'' @ endl)
       (cout (''Packet sent successfully'' @ endl) (snd (client_send P c packet (print_request packet w)))))))"
  shows "fst (send_request P c packet w) = 0"
proof -
  obtain e w2 where s: "client_send P c packet (print_request packet w) = (e, w2)" by force
  let ?w3 = "cout (''Waiting for server response...'' @ endl) (cout (''Packet sent successfully'' @ endl) w2)"
  obtain e' r c1 w4 where rc: "client_receive P c Packet ?w3 = (e', r, c1, w4)" by (metis prod_cases4)
  have "send_request P c packet w = finish_exchange P c1 packet r w4"
    using assms(1,3,4) s rc by (simp add: send_request_def await_response_def Let_def)
  moreover have "client_inv c1" using client_receive_keeps [OF rc assms(2)] by simp
  ultimately show ?thesis using finish_exchange_result by (metis prod.collapse)
qed

lemma connect_and_exchange_ok:
  assumes "connect_and_exchange P Client w = (code, c', w')"
  shows "client_phase_ok Client w code c' w'"
proof -
  define w2 where "w2 = cout (''Connecting to PacketForge server...'' @ endl)
    (cout (''Initial connection state: '' @ state_text Client @ endl) w)"
  obtain e c1 w3 where c: "client_connect P Client ''127.0.0.1'' 9090 w2 = (e, c1, w3)"
    by (metis prod_cases3)
  have p: "prints w w2" unfolding w2_def by (intro prints_cout prints_refl)
  have t: "transfers (client_owned Client) w (client_owned c1) w3"
    using transfers_trans [OF prints_transfers [OF p transfers_refl] client_connect_transfers [OF c]] .
  have i: "client_inv c1" using client_connect_inv [OF cli.fresh_inv c] .
  have d: "diagnostics (log w3) = diagnostics (log w)"
    using client_connect_diagnostics [OF c] prints_frame [OF p] by simp
  show ?thesis
  proof (cases "error_ok e")
    case True
    then have "send_request P c1 hello_request w3 = (code, c', w')"
      using assms unfolding connect_and_exchange_def Let_def w2_def [symmetric] c prod.case by simp
    from send_request_ok [OF this i] t d show ?thesis by (rule client_phase_ok_after)
  next
    case False
    then have "(code, c', w') = (1, c1, cout (''Connection state after failure: '' @ state_text c1 @ endl)
        (cerr (''Failed to connect to PacketForge server: '' @ error_message e @ endl) w3))"
      using assms unfolding connect_and_exchange_def Let_def w2_def [symmetric] c prod.case
      by (simp only: not_False_eq_True if_True)
    moreover from i d cout_transfers [OF cerr_transfers [OF t]]
    have "client_phase_ok Client w 1 c1 (cout s (cerr s' w3))" for s s'
      by (auto simp: client_phase_ok_def)
    ultimately show ?thesis by (simp only: prod.inject)
  qed
qed

lemma client_main_split:
  obtains code c w1 where "connect_and_exchange P Client w = (code, c, w1)" "client_inv c"
    "client_main P w = (code, client_destroy P c w1)" "client_phase_ok Client w code c w1"
  using connect_and_exchange_ok [of P w] unfolding client_main_def client_phase_ok_def
  by (cases "connect_and_exchange P Client w") auto

section \<open>Properties\<close>

text \<open>
  C27. The client application leaks no descriptor, closes none twice and uses none that is closed, on
  every exit path and whatever the kernel answers; and it exits with 1 exactly when it wrote a
  diagnostic to \<open>std::cerr\<close>, with 0 otherwise.
\<close>

theorem client_main_exit:
  "transfers {#} w {#} (snd (client_main P w)) \<and>
   (\<exists>ds. diagnostics (log (snd (client_main P w))) = diagnostics (log w) @ ds \<and>
      fst (client_main P w) = (if ds = [] then 0 else 1))"
proof (rule client_main_split [of P w])
  fix code c w1
  assume i: "client_inv c" and m: "client_main P w = (code, client_destroy P c w1)"
    and ok: "client_phase_ok Client w code c w1"
  have "transfers {#} w (client_owned c) w1" using ok by (simp add: client_phase_ok_def cli.owned_fresh)
  from transfers_trans [OF this cli.release_transfers [OF i, of w1 P]]
  show ?thesis using ok m by (simp add: client_destroy_eq client_phase_ok_def)
qed

text \<open>
  C26. One exchange of the client application. Whatever happens, the client ends disconnected and has
  sent nothing but a prefix of the encoding of its greeting request, a valid packet. Exit code 0
  means that the whole request went out, that exactly one frame, the encoding of one packet, was
  taken from the connection, and that afterwards the client refused every operation without a
  system call, as the transcript at the end of the log shows.
\<close>

theorem client_exchange:
  assumes "kernel_ok P" "client_inv c" "send_request P c hello_request w = (code, c', w')"
  shows "c' = Client \<and> packet_isValid hello_request \<and>
    (\<exists>d n. encode (native P) hello_request = Inr d \<and>
       sent (transport_handle (cl_transport c)) (log w') =
         sent (transport_handle (cl_transport c)) (log w) @ take n d \<and>
       (code = 0 \<longrightarrow> n = length d \<and>
          (\<exists>response r es. encode (native P) response = Inr r \<and>
             received (transport_handle (cl_transport c)) (log w') =
               received (transport_handle (cl_transport c)) (log w) @ r \<and>
             log w' = es @ map Out refusal_transcript)))"
proof -
  let ?fd = "transport_handle (cl_transport c)"
  have v: "packet_isValid hello_request"
    by (simp add: hello_request_def packet_unfold packet_isValid_iff)
  define w1 where "w1 = print_request hello_request w"
  have p1: "prints w w1" unfolding w1_def by (intro print_request_prints prints_refl)
  obtain e w2 where s: "client_send P c hello_request w1 = (e, w2)" by force
  from client_send_prefix [OF s assms(1) v] prints_frame [OF p1] obtain d n where d:
    "encode (native P) hello_request = Inr d" "sent ?fd (log w2) = sent ?fd (log w) @ take n d"
    "error_ok e \<Longrightarrow> n = length d"
    by auto
  have rec2: "received ?fd (log w2) = received ?fd (log w)"
    using client_send_frame [OF s] prints_frame [OF p1] by simp
  show ?thesis
  proof (cases "error_ok e")
    case False
    then have "code = 1" "(c', w') = client_disconnect P c
        (cerr (''Failed to send packet: '' @ error_message e @ endl) w2)"
      using assms(3) v s unfolding send_request_def w1_def [symmetric] by (simp_all split: prod.splits)
    from this(1) give_up_streams [OF this(2) assms(2), of ?fd] show ?thesis
      using d v by (intro conjI exI [of _ d] exI [of _ n]) simp_all
  next
    case True
    then have aw: "await_response P c hello_request w2 = (code, c', w')"
      using assms(3) v s unfolding send_request_def w1_def [symmetric] by simp
    note f = await_response_frame [OF aw assms(2,1)]
    have "sent ?fd (log w') = sent ?fd (log w) @ take n d" "n = length d" using f d True by simp_all
    then show ?thesis using f d(1) v unfolding rec2 by blast
  qed
qed


theorem client_exchange_witness:
  "\<exists>w'. send_request (sim_platform Big) \<lparr>cl_transport = demo_transport\<rparr> hello_request
      (sim_world [] [[0x50, 0x46, 0x4B, 0x54, 1, 0, 0, 2, 0, 0, 0, 1, 0, 0, 0, 2, 72, 105]] 40 []) =
      (0, Client, w') \<and>
    encode Big hello_request = Inr (sent 3 (log w')) \<and> (\<exists>es. log w' = es @ map Out refusal_transcript)"
proof -
  let ?w = "sim_world [] [[0x50, 0x46, 0x4B, 0x54, 1, 0, 0, 2, 0, 0, 0, 1, 0, 0, 0, 2, 72, 105]] 40 []"
  let ?c = "\<lparr>cl_transport = demo_transport\<rparr>"
  let ?r = "send_request (sim_platform Big) ?c hello_request ?w"
  have inv: "client_inv ?c" "packet_isValid hello_request" by code_simp+
  have code: "fst ?r = 0"
    by (rule send_request_succeeds [OF inv(2,1)]; code_simp)
  have r: "?r = (0, fst (snd ?r), snd (snd ?r))"
    by (rule prod_eqI) (simp_all only: code fst_conv snd_conv prod.collapse)
  have "sent 3 (log ?w) = []" "native (sim_platform Big) = Big"
    by (simp_all add: sim_world_def kernel_simps sim_platform_def)
  with client_exchange [OF sim_kernel_ok inv(1) r]
  have "fst (snd ?r) = Client" "encode Big hello_request = Inr (sent 3 (log (snd (snd ?r))))"
    "\<exists>es. log (snd (snd ?r)) = es @ map Out refusal_transcript" by auto
  with r show ?thesis by metis
qed

end
