(* ===== verification/Byte_Buffer.thy ===== *)
theory Byte_Buffer
  imports Prelude
begin

text \<open>
  \<open>packetforge::common::Buffer\<close> (\<open>include/common/buffer.hpp\<close>, \<open>src/common/buffer.cpp\<close>): a byte
  vector that is appended to and a read position that only moves forward until \<open>clear\<close>. Sizes are
  64-bit words where the code computes with them (\<open>readableSize\<close> subtracts, \<open>read\<close> adds), so the
  invariant has to show that neither wraps. The specification is a queue of bytes that also counts
  the bytes consumed since the last \<open>clear\<close>, which the code keeps stored.
\<close>

section \<open>State and operations\<close>

record buffer =
  bf_buffer :: bytes
  bf_readPosition :: u64

text \<open>The default constructor, and the one that reserves capacity.\<close>

definition Buffer :: buffer where
  "Buffer = \<lparr>bf_buffer = [], bf_readPosition = 0\<rparr>"

definition Buffer_capacity :: "u64 \<Rightarrow> std_exception + buffer" where
  "Buffer_capacity capacity =
     (if unat capacity > vector_max_size then Inl length_error else Inr Buffer)"

text \<open>\<open>write\<close>: the bytes are the \<open>size\<close> bytes at \<open>data\<close>, which lie outside the buffer.\<close>

definition buffer_write :: "bytes \<Rightarrow> buffer \<Rightarrow> std_exception + buffer" where
  "buffer_write bs b =
     (if length bs > vector_max_size - length (bf_buffer b) then Inl length_error
      else Inr (b\<lparr>bf_buffer := bf_buffer b @ bs\<rparr>))"

definition buffer_readableSize :: "buffer \<Rightarrow> u64" where
  "buffer_readableSize b = word_of_nat (length (bf_buffer b)) - bf_readPosition b"

text \<open>\<open>read\<close>: \<open>None\<close> is the result false, which leaves the destination alone.\<close>

definition buffer_read :: "u64 \<Rightarrow> buffer \<Rightarrow> bytes option \<times> buffer" where
  "buffer_read n b =
     (if buffer_readableSize b < n then (None, b)
      else (Some (take (unat n) (drop (unat (bf_readPosition b)) (bf_buffer b))),
            b\<lparr>bf_readPosition := bf_readPosition b + n\<rparr>))"

definition buffer_size :: "buffer \<Rightarrow> u64" where
  "buffer_size b = word_of_nat (length (bf_buffer b))"

definition buffer_clear :: "buffer \<Rightarrow> buffer" where
  "buffer_clear b = b\<lparr>bf_buffer := [], bf_readPosition := 0\<rparr>"

definition buffer_data :: "buffer \<Rightarrow> bytes" where
  "buffer_data b = bf_buffer b"

section \<open>Invariant and abstraction\<close>

definition buffer_inv :: "buffer \<Rightarrow> bool" where
  "buffer_inv b \<longleftrightarrow> length (bf_buffer b) \<le> vector_max_size \<and>
     unat (bf_readPosition b) \<le> length (bf_buffer b)"

definition buffer_unread :: "buffer \<Rightarrow> bytes" where
  "buffer_unread b = drop (unat (bf_readPosition b)) (bf_buffer b)"

lemma max_size_bound: "n \<le> vector_max_size \<Longrightarrow> n < 2 ^ 64"
  by (simp add: vector_max_size_def)

lemma unat_size: "n \<le> vector_max_size \<Longrightarrow> unat (word_of_nat n :: u64) = n"
  using max_size_bound [of n] by (simp add: unat_of_nat)

lemma readableSize_unread:
  assumes "buffer_inv b"
  shows "unat (buffer_readableSize b) = length (buffer_unread b)"
  using assms unat_sub [of "bf_readPosition b" "word_of_nat (length (bf_buffer b))"]
  by (simp add: buffer_inv_def buffer_readableSize_def buffer_unread_def unat_size word_le_nat_alt)

lemma buffer_read_cases:
  assumes "buffer_inv b" "buffer_read n b = (r, b')"
  shows "buffer_inv b' \<and> bf_buffer b' = bf_buffer b \<and>
    (if unat n \<le> length (buffer_unread b)
     then r = Some (take (unat n) (buffer_unread b)) \<and> buffer_unread b' = drop (unat n) (buffer_unread b) \<and>
       unat (bf_readPosition b') = unat (bf_readPosition b) + unat n
     else r = None \<and> b' = b)"
proof (cases "unat n \<le> length (buffer_unread b)")
  case False
  then have "buffer_readableSize b < n" using readableSize_unread [OF assms(1)] by (simp add: word_less_nat_alt)
  then show ?thesis using assms False by (simp add: buffer_read_def)
next
  case True
  have le: "unat (bf_readPosition b) + unat n \<le> length (bf_buffer b)"
    using True assms(1) unfolding buffer_unread_def buffer_inv_def length_drop by linarith
  then have "unat (bf_readPosition b) + unat n < 2 ^ 64"
    using assms(1) max_size_bound [of "length (bf_buffer b)"] by (simp add: buffer_inv_def)
  then have u: "unat (bf_readPosition b + n) = unat (bf_readPosition b) + unat n"
    using unat_add_lem [of "bf_readPosition b" n] by simp
  have "\<not> buffer_readableSize b < n"
    using True readableSize_unread [OF assms(1)] by (simp add: word_less_nat_alt)
  then show ?thesis using assms True u le
    by (auto simp: buffer_read_def buffer_inv_def buffer_unread_def add.commute)
qed

lemma buffer_write_cases:
  assumes "buffer_inv b"
  shows "buffer_write bs b =
    (if length (bf_buffer b) + length bs \<le> vector_max_size
     then Inr (b\<lparr>bf_buffer := bf_buffer b @ bs\<rparr>) else Inl length_error)"
  using assms by (auto simp: buffer_write_def buffer_inv_def)

lemma buffer_write_inv:
  assumes "buffer_inv b" "buffer_write bs b = Inr b'"
  shows "buffer_inv b' \<and> buffer_unread b' = buffer_unread b @ bs"
  using assms
  by (auto simp: buffer_write_cases buffer_inv_def buffer_unread_def split: if_splits)

lemma buffer_clear_inv: "buffer_inv (buffer_clear b) \<and> buffer_unread (buffer_clear b) = []"
  by (simp add: buffer_clear_def buffer_inv_def buffer_unread_def)

section \<open>A queue of bytes\<close>

text \<open>
  The contract of a byte queue, and what follows from it for any series of reads: read in any
  portions, the bytes come out in the order they went in.
\<close>

fun read_all :: "(u64 \<Rightarrow> 'b \<Rightarrow> bytes option \<times> 'b) \<Rightarrow> u64 list \<Rightarrow> 'b \<Rightarrow> bytes option list \<times> 'b" where
  "read_all get [] b = ([], b)"
| "read_all get (n # ns) b =
     (case get n b of (r, b1) \<Rightarrow> (case read_all get ns b1 of (rs, b2) \<Rightarrow> (r # rs, b2)))"

locale byte_queue =
  fixes inv :: "'b \<Rightarrow> bool"
    and contents :: "'b \<Rightarrow> bytes"
    and put :: "bytes \<Rightarrow> 'b \<Rightarrow> std_exception + 'b"
    and get :: "u64 \<Rightarrow> 'b \<Rightarrow> bytes option \<times> 'b"
  assumes put_appends: "inv b \<Longrightarrow> put bs b = Inr b' \<Longrightarrow> inv b' \<and> contents b' = contents b @ bs"
    and get_takes: "inv b \<Longrightarrow> unat n \<le> length (contents b) \<Longrightarrow> get n b = (r, b') \<Longrightarrow>
      inv b' \<and> r = Some (take (unat n) (contents b)) \<and> contents b' = drop (unat n) (contents b)"
    and get_refuses: "inv b \<Longrightarrow> \<not> unat n \<le> length (contents b) \<Longrightarrow> get n b = (None, b)"
begin

lemma get_inv: "inv b \<Longrightarrow> get n b = (r, b') \<Longrightarrow> inv b'"
  using get_takes [of b n r b'] get_refuses [of b n] by (cases "unat n \<le> length (contents b)") auto

text \<open>Reads that ask for no more than is there all succeed, and return a prefix in order.\<close>

lemma read_all_prefix:
  assumes "inv b" "sum_list (map unat ns) \<le> length (contents b)" "read_all get ns b = (rs, b')"
  shows "inv b' \<and> None \<notin> set rs \<and> map (length \<circ> the) rs = map unat ns \<and>
    contents b = concat (map the rs) @ contents b'"
  using assms
proof (induction ns arbitrary: b rs)
  case Nil
  then show ?case by simp
next
  case (Cons n ns)
  obtain r b1 where g: "get n b = (r, b1)" by force
  obtain rs1 where rs: "read_all get ns b1 = (rs1, b')" "rs = r # rs1"
    using Cons.prems(3) g by (auto split: prod.splits)
  have b1: "inv b1" "r = Some (take (unat n) (contents b))" "contents b1 = drop (unat n) (contents b)"
    using get_takes [OF Cons.prems(1) _ g] Cons.prems(2) by auto
  have n: "unat n \<le> length (contents b)" "sum_list (map unat ns) \<le> length (contents b1)"
    using Cons.prems(2) b1(3) by simp_all
  note ih = Cons.IH [OF b1(1) n(2) rs(1)]
  have "contents b = take (unat n) (contents b) @ concat (map the rs1) @ contents b'"
    using ih b1(3) by (metis append_take_drop_id)
  then have "contents b = concat (map the rs) @ contents b'"
    unfolding rs(2) b1(2) by (simp only: list.map concat.simps option.sel append_assoc)
  moreover have "map (length \<circ> the) rs = map unat (n # ns)"
    unfolding rs(2) b1(2) using ih n(1) by (simp add: min_absorb2 comp_def)
  ultimately show ?case using ih rs(2) b1(2) by (metis list.set_intros option.distinct(1) set_ConsD)
qed

lemma put_read_all:
  assumes "inv b" "contents b = []" "put bs b = Inr b1" "sum_list (map unat ns) = length bs"
    "read_all get ns b1 = (rs, b2)"
  shows "concat (map the rs) = bs \<and> None \<notin> set rs \<and> contents b2 = []"
proof -
  have b1: "inv b1" "contents b1 = bs" using put_appends [OF assms(1,3)] assms(2) by auto
  note p = read_all_prefix [OF b1(1) _ assms(5)]
  have "length (concat (map the rs)) = sum_list (map unat ns)"
    using p b1(2) assms(4) by (simp add: length_concat comp_def)
  moreover have "contents b1 = concat (map the rs) @ contents b2" "None \<notin> set rs"
    using p b1(2) assms(4) by simp_all
  ultimately show ?thesis using b1(2) assms(4) by (metis append_Nil2 append_eq_append_conv)
qed

end

interpretation bqueue: byte_queue buffer_inv buffer_unread buffer_write buffer_read
proof unfold_locales
  show "buffer_inv b' \<and> buffer_unread b' = buffer_unread b @ bs"
    if "buffer_inv b" "buffer_write bs b = Inr b'" for b bs b'
    using buffer_write_inv [OF that] .
  show "buffer_inv b' \<and> r = Some (take (unat n) (buffer_unread b)) \<and>
      buffer_unread b' = drop (unat n) (buffer_unread b)"
    if "buffer_inv b" "unat n \<le> length (buffer_unread b)" "buffer_read n b = (r, b')" for b n r b'
    using buffer_read_cases [OF that(1,3)] that(2) by simp
  show "buffer_read n b = (None, b)"
    if "buffer_inv b" "\<not> unat n \<le> length (buffer_unread b)" for b n
    using buffer_read_cases [OF that(1) prod.collapse [symmetric], of n] that(2) by (simp add: prod_eq_iff)
qed


section \<open>Sequences of operations\<close>

datatype buffer_op = Write bytes | Read u64 | Clear

datatype buffer_reply = Written | Refused std_exception | Got bytes | NotEnough | Cleared

definition buffer_step :: "buffer_op \<Rightarrow> buffer \<Rightarrow> buffer_reply \<times> buffer" where
  "buffer_step c b =
     (case c of
        Write bs \<Rightarrow> (case buffer_write bs b of Inl e \<Rightarrow> (Refused e, b) | Inr b' \<Rightarrow> (Written, b'))
      | Read n \<Rightarrow> (case buffer_read n b of
            (None, b') \<Rightarrow> (NotEnough, b') | (Some bs, b') \<Rightarrow> (Got bs, b'))
      | Clear \<Rightarrow> (Cleared, buffer_clear b))"

text \<open>
  The specification: a number of consumed bytes and a queue. Consumed bytes count against the largest
  vector size until \<open>Clear\<close>, which removes them, as the comment in \<open>buffer.hpp\<close> says. The code drops
  unread bytes as well; \<open>clears_after_reading\<close> says of a sequence of calls that there are none to drop
  when it clears.
\<close>

fun queue_step :: "buffer_op \<Rightarrow> nat \<times> bytes \<Rightarrow> buffer_reply \<times> (nat \<times> bytes)" where
  "queue_step (Write bs) (used, q) =
     (if used + length q + length bs \<le> vector_max_size then (Written, (used, q @ bs))
      else (Refused length_error, (used, q)))"
| "queue_step (Read n) (used, q) =
     (if unat n \<le> length q then (Got (take (unat n) q), (used + unat n, drop (unat n) q))
      else (NotEnough, (used, q)))"
| "queue_step Clear (used, q) = (Cleared, (0, q))"

fun clears_after_reading :: "buffer_op list \<Rightarrow> nat \<times> bytes \<Rightarrow> bool" where
  "clears_after_reading [] s \<longleftrightarrow> True"
| "clears_after_reading (c # cs) s \<longleftrightarrow>
     (c = Clear \<longrightarrow> snd s = []) \<and> clears_after_reading cs (snd (queue_step c s))"

fun run_ops :: "('c \<Rightarrow> 's \<Rightarrow> 'r \<times> 's) \<Rightarrow> 'c list \<Rightarrow> 's \<Rightarrow> 'r list \<times> 's" where
  "run_ops step [] s = ([], s)"
| "run_ops step (c # cs) s =
     (case step c s of (r, s1) \<Rightarrow> (case run_ops step cs s1 of (rs, s2) \<Rightarrow> (r # rs, s2)))"

definition buffer_abs :: "buffer \<Rightarrow> nat \<times> bytes" where
  "buffer_abs b = (unat (bf_readPosition b), buffer_unread b)"

lemma buffer_length_split:
  "buffer_inv b \<Longrightarrow> length (bf_buffer b) = unat (bf_readPosition b) + length (buffer_unread b)"
  by (simp add: buffer_inv_def buffer_unread_def)

lemma buffer_step_refines:
  assumes "buffer_inv b" "buffer_step c b = (r, b')" "c = Clear \<longrightarrow> buffer_unread b = []"
  shows "buffer_inv b' \<and> queue_step c (buffer_abs b) = (r, buffer_abs b')"
proof (cases c)
  case (Write bs)
  note len = buffer_length_split [OF assms(1)] and w = buffer_write_cases [OF assms(1), of bs]
  show ?thesis
  proof (cases "length (bf_buffer b) + length bs \<le> vector_max_size")
    case True
    then have "buffer_write bs b = Inr (b\<lparr>bf_buffer := bf_buffer b @ bs\<rparr>)" using w by simp
    with buffer_write_inv [OF assms(1) this] True assms(2) Write show ?thesis
      unfolding len by (auto simp: buffer_step_def buffer_abs_def)
  next
    case False
    then have "r = Refused length_error" "b' = b" using w assms(2) Write by (auto simp: buffer_step_def)
    with False show ?thesis using assms(1) Write unfolding len by (simp add: buffer_abs_def)
  qed
next
  case (Read n)
  obtain res b1 where g: "buffer_read n b = (res, b1)" by force
  note c = buffer_read_cases [OF assms(1) g]
  show ?thesis
  proof (cases "unat n \<le> length (buffer_unread b)")
    case True
    then have "r = Got (take (unat n) (buffer_unread b))" "b' = b1"
      using assms(2) g c Read by (simp_all add: buffer_step_def)
    with True show ?thesis using c Read by (simp add: buffer_abs_def)
  next
    case False
    then have "r = NotEnough" "b' = b"
      using assms(2) g c Read by (simp_all add: buffer_step_def)
    with False show ?thesis using assms(1) Read by (simp add: buffer_abs_def)
  qed
next
  case Clear
  then show ?thesis using assms buffer_clear_inv [of b]
    by (auto simp: buffer_step_def buffer_abs_def buffer_clear_def)
qed

lemma run_ops_refines:
  "buffer_inv b \<Longrightarrow> run_ops buffer_step cs b = (rs, b') \<Longrightarrow> clears_after_reading cs (buffer_abs b) \<Longrightarrow>
    buffer_inv b' \<and> run_ops queue_step cs (buffer_abs b) = (rs, buffer_abs b')"
proof (induction cs arbitrary: b rs)
  case Nil
  then show ?case by simp
next
  case (Cons c cs)
  obtain r b1 where s: "buffer_step c b = (r, b1)" by force
  obtain rs1 where rest: "run_ops buffer_step cs b1 = (rs1, b')" "rs = r # rs1"
    using Cons.prems(2) s by (auto split: prod.splits)
  have "c = Clear \<longrightarrow> buffer_unread b = []" using Cons.prems(3) by (simp add: buffer_abs_def)
  note step = buffer_step_refines [OF Cons.prems(1) s this]
  then have "clears_after_reading cs (buffer_abs b1)" using Cons.prems(3) by simp
  with step Cons.IH [OF _ rest(1)] rest(2) show ?case by simp
qed

lemma Buffer_inv: "buffer_inv Buffer \<and> buffer_abs Buffer = (0, []) \<and> buffer_unread Buffer = []"
  by (simp add: Buffer_def buffer_inv_def buffer_abs_def buffer_unread_def)

section \<open>Properties\<close>

text \<open>
  C38. The buffer is a first-in first-out queue of bytes. Any sequence of writes, reads and clears on a
  new buffer that clears only when every byte was read gives the replies and ends in the state of the
  specification, a queue with a count of consumed bytes; in particular its 64-bit sizes never wrap,
  \<open>readableSize\<close> is the number of bytes not yet read, and a write is refused only when the bytes
  stored since the last \<open>clear\<close>, consumed ones included, would exceed the largest vector.
\<close>

theorem buffer_is_queue:
  assumes "clears_after_reading cs (0, [])"
  shows "\<exists>rs b. run_ops buffer_step cs Buffer = (rs, b) \<and>
     run_ops queue_step cs (0, []) = (rs, (unat (bf_readPosition b), buffer_unread b)) \<and>
     unat (buffer_readableSize b) = length (buffer_unread b) \<and>
     unat (buffer_size b) = unat (bf_readPosition b) + length (buffer_unread b)"
proof -
  obtain rs b where r: "run_ops buffer_step cs Buffer = (rs, b)" by force
  from run_ops_refines [OF _ this] Buffer_inv assms
  have b: "buffer_inv b" "run_ops queue_step cs (0, []) = (rs, buffer_abs b)" by auto
  then have "unat (buffer_size b) = unat (bf_readPosition b) + length (buffer_unread b)"
    using unat_size [of "length (bf_buffer b)"] buffer_length_split [OF b(1)]
    unfolding buffer_size_def buffer_inv_def by (elim conjE) metis
  then show ?thesis using r b readableSize_unread [OF b(1)] by (simp add: buffer_abs_def)
qed

theorem buffer_is_queue_witness:
  "\<exists>rs b. run_ops buffer_step [Write [1, 2, 3], Read 2, Read 2, Read 1, Clear, Write [4]] Buffer = (rs, b) \<and>
     run_ops queue_step [Write [1, 2, 3], Read 2, Read 2, Read 1, Clear, Write [4]] (0, []) = (rs, (0, [4])) \<and>
     unat (buffer_readableSize b) = 1"
proof -
  let ?cs = "[Write [1, 2, 3], Read 2, Read 2, Read 1, Clear, Write [4]]"
  have c: "clears_after_reading ?cs (0, [])"
    "snd (run_ops queue_step ?cs (0, [])) = (0, [4])"
    by (simp_all add: vector_max_size_def)
  from buffer_is_queue [OF c(1)] obtain rs b where r: "run_ops buffer_step ?cs Buffer = (rs, b)"
    "run_ops queue_step ?cs (0, []) = (rs, (unat (bf_readPosition b), buffer_unread b))"
    "unat (buffer_readableSize b) = length (buffer_unread b)"
    by blast
  then have "unat (bf_readPosition b) = 0" "buffer_unread b = [4]" using c(2) by (simp_all only: snd_conv prod.inject)
  with r show ?thesis by (metis One_nat_def length_Cons list.size(3))
qed

text \<open>With bytes left unread the code departs from the comment: \<open>clear\<close> drops them.\<close>

lemma clear_drops_unread:
  "run_ops buffer_step [Write [1], Clear, Read 1] Buffer \<noteq> ([Written, Cleared, Got [1]], b)"
  "fst (run_ops queue_step [Write [1], Clear, Read 1] (0, [])) = [Written, Cleared, Got [1]]"
  by (simp_all add: buffer_step_def buffer_write_def buffer_read_def buffer_clear_def buffer_readableSize_def
      Buffer_def vector_max_size_def)

text \<open>
  Bytes written to an empty buffer come out unchanged and in order, however the reads cut them:
  if the sizes of the reads add up to the number of bytes, every read succeeds, their results put
  together are the bytes, and the buffer is empty again.
\<close>

theorem buffer_write_read:
  assumes "buffer_inv b" "buffer_unread b = []" "buffer_write bs b = Inr b1"
    "sum_list (map unat ns) = length bs" "read_all buffer_read ns b1 = (rs, b2)"
  shows "concat (map the rs) = bs \<and> None \<notin> set rs \<and> buffer_readableSize b2 = 0"
proof -
  note b1 = buffer_write_inv [OF assms(1,3)]
  have "buffer_inv b2" "concat (map the rs) = bs" "None \<notin> set rs" "buffer_unread b2 = []"
    using bqueue.read_all_prefix [OF _ _ assms(5)] bqueue.put_read_all [OF assms] b1 assms(2,4) by simp_all
  then show ?thesis using readableSize_unread [of b2] by (simp add: unat_eq_0)
qed

theorem buffer_write_read_witness:
  "\<exists>b1 rs b2. buffer_write [1, 2, 3, 4, 5] Buffer = Inr b1 \<and>
    read_all buffer_read [2, 0, 3] b1 = (rs, b2) \<and> concat (map the rs) = [1, 2, 3, 4, 5] \<and>
    buffer_readableSize b2 = 0"
proof -
  let ?b1 = "\<lparr>bf_buffer = [1, 2, 3, 4, 5], bf_readPosition = 0\<rparr>"
  have w: "buffer_write [1, 2, 3, 4, 5] Buffer = Inr ?b1"
    by (simp add: buffer_write_def Buffer_def vector_max_size_def)
  obtain rs b2 where r: "read_all buffer_read [2, 0, 3] ?b1 = (rs, b2)" by force
  have "sum_list (map unat [2, 0, 3 :: u64]) = length [1, 2, 3, 4, 5 :: u8]" by simp
  from buffer_write_read [OF _ _ w this r] Buffer_inv w r show ?thesis by blast
qed

end
