(* ===== verification/Logging.thy ===== *)
theory Logging
  imports Platform
begin

text \<open>
  \<open>packetforge::common::Logger\<close> (\<open>include/common/logger.hpp\<close>, \<open>src/common/logger.cpp\<close>). A level is
  a value of an \<open>enum class\<close> over \<open>int\<close>, so \<open>toString\<close> is modelled on the value and has a branch for
  values that are no enumerator.
\<close>

datatype log_level = LL_Debug | LL_Info | LL_Warning | LL_Error

fun log_level_value :: "log_level \<Rightarrow> int" where
  "log_level_value LL_Debug = 0"
| "log_level_value LL_Info = 1"
| "log_level_value LL_Warning = 2"
| "log_level_value LL_Error = 3"

definition logger_toString :: "int \<Rightarrow> string" where
  "logger_toString level =
     (if level = log_level_value LL_Debug then ''DEBUG''
      else if level = log_level_value LL_Info then ''INFO''
      else if level = log_level_value LL_Warning then ''WARNING''
      else if level = log_level_value LL_Error then ''ERROR''
      else ''UNKNOWN'')"

definition logger_log :: "int \<Rightarrow> string \<Rightarrow> 'w world \<Rightarrow> 'w world" where
  "logger_log level message w =
     (let stream = (if level = log_level_value LL_Error then cerr else cout)
      in stream (''['' @ logger_toString level @ ''] '' @ message @ endl) w)"

definition logger_debug :: "string \<Rightarrow> 'w world \<Rightarrow> 'w world" where
  "logger_debug message w = logger_log (log_level_value LL_Debug) message w"

definition logger_info :: "string \<Rightarrow> 'w world \<Rightarrow> 'w world" where
  "logger_info message w = logger_log (log_level_value LL_Info) message w"

definition logger_warning :: "string \<Rightarrow> 'w world \<Rightarrow> 'w world" where
  "logger_warning message w = logger_log (log_level_value LL_Warning) message w"

definition logger_error :: "string \<Rightarrow> 'w world \<Rightarrow> 'w world" where
  "logger_error message w = logger_log (log_level_value LL_Error) message w"

text \<open>The four operations by level.\<close>

fun logger_at :: "log_level \<Rightarrow> string \<Rightarrow> 'w world \<Rightarrow> 'w world" where
  "logger_at LL_Debug = logger_debug"
| "logger_at LL_Info = logger_info"
| "logger_at LL_Warning = logger_warning"
| "logger_at LL_Error = logger_error"

lemma logger_at_log: "logger_at l m w = logger_log (log_level_value l) m w"
  by (cases l) (simp_all add: logger_debug_def logger_info_def logger_warning_def logger_error_def)

lemma logger_log_event:
  "\<exists>line. log (logger_log (log_level_value l) m w) =
     log w @ [if l = LL_Error then Err line else Out line] \<and>
   line = ''['' @ logger_toString (log_level_value l) @ ''] '' @ m @ endl"
  by (cases l) (simp_all add: logger_log_def kernel_simps)

section \<open>Properties\<close>

text \<open>
  A log call appends exactly one line, to \<open>std::cerr\<close> for errors and to \<open>std::cout\<close> otherwise,
  and the line determines the call: whatever the messages contain, calls that wrote the same event
  had the same level and the same message.
\<close>

theorem logger_line_determines_call:
  "\<exists>e. log (logger_at l m w) = log w @ [e] \<and> ((\<exists>s. e = Err s) \<longleftrightarrow> l = LL_Error) \<and>
     (\<forall>l' m'. log (logger_at l' m' w) = log w @ [e] \<longleftrightarrow> l' = l \<and> m' = m)"
proof -
  have tags: "logger_toString (log_level_value l) @ ''] '' @ m = logger_toString (log_level_value l') @ ''] '' @ m'
      \<longleftrightarrow> l = l' \<and> m = m'" for l l' m m'
    by (cases l; cases l') (simp_all add: logger_toString_def)
  have same: "log (logger_at l' m' w) = log (logger_at l m w) \<longleftrightarrow> l' = l \<and> m' = m" for l' m'
    using logger_log_event [of l m w] logger_log_event [of l' m' w] tags [of l' m' l m]
    unfolding logger_at_log by (cases "l = LL_Error"; cases "l' = LL_Error") auto
  from logger_log_event [of l m w] obtain e where "log (logger_at l m w) = log w @ [e]"
    "(\<exists>s. e = Err s) \<longleftrightarrow> l = LL_Error"
    by (auto simp: logger_at_log split: if_splits)
  with same show ?thesis by metis
qed

end
