(* ===== verification/Configs.thy ===== *)
theory Configs
  imports Prelude
begin

text \<open>
  \<open>packetforge::config::ConfigValue\<close> and \<open>packetforge::config::Config\<close>
  (\<open>include/config/config_value.hpp\<close>, \<open>src/config/config_value.cpp\<close>, \<open>include/config/config.hpp\<close>,
  \<open>src/config/config.cpp\<close>): a variant of a string, a 64-bit integer and a truth value, and a map
  from strings to such values. \<open>std::unordered_map\<close> is a partial map; the program never iterates
  over one, so its order plays no part.
\<close>

section \<open>Values\<close>

datatype config_value =
    VString string
  | VInteger u64
  | VBoolean bool

definition ConfigValue :: config_value where
  "ConfigValue = VString ''''"

definition configvalue_isString :: "config_value \<Rightarrow> bool" where
  "configvalue_isString v = (case v of VString _ \<Rightarrow> True | _ \<Rightarrow> False)"

definition configvalue_isInteger :: "config_value \<Rightarrow> bool" where
  "configvalue_isInteger v = (case v of VInteger _ \<Rightarrow> True | _ \<Rightarrow> False)"

definition configvalue_isBoolean :: "config_value \<Rightarrow> bool" where
  "configvalue_isBoolean v = (case v of VBoolean _ \<Rightarrow> True | _ \<Rightarrow> False)"

definition configvalue_asString :: "config_value \<Rightarrow> std_exception + string" where
  "configvalue_asString v =
     (case v of VString s \<Rightarrow> Inr s | _ \<Rightarrow> Inl (runtime_error ''ConfigValue does not contain a string''))"

text \<open>A \<open>std::int64_t\<close> is the signed reading of a 64-bit word.\<close>

definition configvalue_asInteger :: "config_value \<Rightarrow> std_exception + int" where
  "configvalue_asInteger v =
     (case v of VInteger n \<Rightarrow> Inr (sint n)
      | _ \<Rightarrow> Inl (runtime_error ''ConfigValue does not contain an integer''))"

definition configvalue_asBoolean :: "config_value \<Rightarrow> std_exception + bool" where
  "configvalue_asBoolean v =
     (case v of VBoolean b \<Rightarrow> Inr b
      | _ \<Rightarrow> Inl (runtime_error ''ConfigValue does not contain a boolean''))"

section \<open>Configurations\<close>

record config =
  cfg_values :: "string \<rightharpoonup> config_value"

definition Config :: config where
  "Config = \<lparr>cfg_values = Map.empty\<rparr>"

definition config_contains :: "config \<Rightarrow> string \<Rightarrow> bool" where
  "config_contains c key \<longleftrightarrow> cfg_values c key \<noteq> None"

definition config_set :: "string \<Rightarrow> config_value \<Rightarrow> config \<Rightarrow> config" where
  "config_set key v c = c\<lparr>cfg_values := (cfg_values c)(key \<mapsto> v)\<rparr>"

text \<open>\<open>None\<close> is the null pointer.\<close>

definition config_get :: "config \<Rightarrow> string \<Rightarrow> config_value option" where
  "config_get c key = cfg_values c key"

definition config_clear :: "config \<Rightarrow> config" where
  "config_clear c = c\<lparr>cfg_values := Map.empty\<rparr>"

section \<open>The contract of a key-value store\<close>

locale kv_store =
  fixes fresh :: 's
    and get :: "'s \<Rightarrow> 'k \<Rightarrow> 'v option"
    and put :: "'k \<Rightarrow> 'v \<Rightarrow> 's \<Rightarrow> 's"
    and clear :: "'s \<Rightarrow> 's"
  assumes get_fresh: "get fresh k = None"
    and get_put: "get (put k v s) k' = (if k' = k then Some v else get s k')"
    and get_clear: "get (clear s) k = None"
begin

definition put_all :: "('k \<times> 'v) list \<Rightarrow> 's \<Rightarrow> 's" where
  "put_all kvs s = fold (\<lambda>(k, v). put k v) kvs s"

text \<open>After a series of insertions the last one of each key counts.\<close>

lemma get_put_all: "get (put_all kvs s) k = (case map_of (rev kvs) k of None \<Rightarrow> get s k | Some v \<Rightarrow> Some v)"
  unfolding put_all_def
  by (induction kvs arbitrary: s) (auto simp: get_put map_add_def split: option.splits)

lemma get_put_all_fresh: "get (put_all kvs fresh) = map_of (rev kvs)"
  by (rule ext) (simp add: get_put_all get_fresh split: option.splits)

lemma put_all_snoc: "put_all (kvs @ [(k, v)]) s = put k v (put_all kvs s)"
  by (simp add: put_all_def)

end

interpretation cfg: kv_store Config config_get config_set config_clear
  by unfold_locales (simp_all add: config_get_def config_set_def Config_def config_clear_def)

lemma config_contains_get: "config_contains c k \<longleftrightarrow> config_get c k \<noteq> None"
  by (simp add: config_contains_def config_get_def)

text \<open>Two configurations that answer every \<open>get\<close> alike are the same.\<close>

lemma config_eqI: "(\<And>k. config_get c k = config_get c' k) \<Longrightarrow> c = c'"
  by (cases c; cases c') (simp add: config_get_def fun_eq_iff)

section \<open>Properties\<close>

text \<open>
  A configuration after \<open>clear\<close> and any series of \<open>set\<close> calls: \<open>get\<close> returns the value set last
  for the key and the null pointer for a key never set, and \<open>contains\<close> agrees with \<open>get\<close>.
\<close>

theorem config_last_set:
  "config_get (fold (\<lambda>(k, v). config_set k v) kvs (config_clear c)) key = map_of (rev kvs) key \<and>
   config_contains (fold (\<lambda>(k, v). config_set k v) kvs (config_clear c)) key =
     (key \<in> fst ` set kvs)"
proof -
  have "config_get (cfg.put_all kvs (config_clear c)) key = map_of (rev kvs) key"
    by (simp add: cfg.get_put_all cfg.get_clear split: option.splits)
  then show ?thesis
    by (simp add: cfg.put_all_def config_contains_get map_of_eq_None_iff)
qed

text \<open>
  Reading a value back. Exactly one of the three inspections holds for every value, the access of
  that type returns the value, and the two other accesses throw; an integer is read with its sign.
\<close>

theorem configvalue_access:
  "(configvalue_isString v \<longleftrightarrow> (\<exists>s. v = VString s \<and> configvalue_asString v = Inr s)) \<and>
   (configvalue_isInteger v \<longleftrightarrow> (\<exists>n. v = VInteger n \<and> configvalue_asInteger v = Inr (sint n) \<and>
      word_of_int (sint n) = n)) \<and>
   (configvalue_isBoolean v \<longleftrightarrow> (\<exists>b. v = VBoolean b \<and> configvalue_asBoolean v = Inr b)) \<and>
   length (filter (\<lambda>x. x) [configvalue_isString v, configvalue_isInteger v, configvalue_isBoolean v]) = 1 \<and>
   length (filter (\<lambda>x. x) [isl (configvalue_asString v), isl (configvalue_asInteger v),
     isl (configvalue_asBoolean v)]) = 2"
  by (cases v) (simp_all add: configvalue_isString_def configvalue_isInteger_def configvalue_isBoolean_def
    configvalue_asString_def configvalue_asInteger_def configvalue_asBoolean_def)

end
