(* ===== verification/Config_Loader.thy ===== *)
theory Config_Loader
  imports Configs
begin

text \<open>
  \<open>packetforge::config::ConfigLoader\<close> (\<open>include/config/config_loader.hpp\<close>,
  \<open>src/config/config_loader.cpp\<close>): lines \<open>key = value\<close>, comments and blank lines. The file system is
  a parameter: \<open>Some\<close> content for a path that opens. A thrown exception is the left of a sum.

  From the standard library: \<open>std::isspace\<close> in the "C" locale, \<open>std::string::substr\<close> and \<open>find\<close>,
  \<open>std::getline\<close>, and \<open>std::stoll\<close> with what it inherits from \<open>strtoll\<close>: it skips white space,
  takes one sign, stops at the first character that is no digit, and reads the string only up to its
  first NUL.
\<close>

section \<open>The standard library\<close>

definition isspace :: "char \<Rightarrow> bool" where
  "isspace c \<longleftrightarrow> c \<in> {CHR 0x20, CHR 0x09, CHR 0x0A, CHR 0x0B, CHR 0x0C, CHR 0x0D}"

definition substr :: "nat \<Rightarrow> nat \<Rightarrow> string \<Rightarrow> string" where
  "substr pos count s = take count (drop pos s)"

text \<open>\<open>find\<close> of a character; \<open>None\<close> is \<open>npos\<close>.\<close>

definition find_char :: "char \<Rightarrow> string \<Rightarrow> nat option" where
  "find_char c s =
     (let n = length (takeWhile (\<lambda>x. x \<noteq> c) s) in if n < length s then Some n else None)"

definition stoll :: "string \<Rightarrow> std_exception + int \<times> nat" where
  "stoll str =
     (let s = c_str str;
          skipped = length (takeWhile isspace s);
          s1 = drop skipped s;
          (negative, signs) = (case s1 of
              [] \<Rightarrow> (False, 0)
            | c # _ \<Rightarrow> if c = CHR ''-'' then (True, 1) else if c = CHR ''+'' then (False, 1) else (False, 0));
          ds = takeWhile isdigit (drop signs s1);
          n = (if negative then - digits_value ds else digits_value ds)
      in if ds = [] then Inl invalid_argument
         else if n < - (2 ^ 63) \<or> n > 2 ^ 63 - 1 then Inl out_of_range
         else Inr (n, skipped + signs + length ds))"

text \<open>The lines a \<open>while (std::getline(file, line))\<close> loop sees.\<close>

function getlines :: "string \<Rightarrow> string list" where
  "getlines s =
     (if s = [] then []
      else takeWhile (\<lambda>c. c \<noteq> CHR 0x0A) s # getlines (drop 1 (dropWhile (\<lambda>c. c \<noteq> CHR 0x0A) s)))"
  by pat_completeness auto
termination
proof (relation "measure length")
  fix s :: string assume "s \<noteq> []"
  then show "(drop 1 (dropWhile (\<lambda>c. c \<noteq> CHR 0x0A) s), s) \<in> measure length"
    using length_dropWhile_le [of "\<lambda>c. c \<noteq> CHR 0x0A" s] by (cases s) auto
qed simp

declare getlines.simps [simp del]

section \<open>The loader\<close>

function trim_begin :: "string \<Rightarrow> nat \<Rightarrow> nat" where
  "trim_begin value i =
     (if i < length value \<and> isspace (value ! i) then trim_begin value (i + 1) else i)"
  by pat_completeness auto
termination
  by (relation "measure (\<lambda>(value, i). length value - i)") auto

fun trim_end :: "string \<Rightarrow> nat \<Rightarrow> nat \<Rightarrow> nat" where
  "trim_end value i 0 = 0"
| "trim_end value i (Suc j) =
     (if Suc j > i \<and> isspace (value ! j) then trim_end value i j else Suc j)"

declare trim_begin.simps [simp del]

definition trim :: "string \<Rightarrow> string" where
  "trim value =
     (let i = trim_begin value 0;
          j = trim_end value i (length value)
      in substr i (j - i) value)"

definition parseValue :: "string \<Rightarrow> std_exception + config_value" where
  "parseValue text =
     (let value = trim text in
      if value = [] then Inl (runtime_error ''Configuration value cannot be empty'')
      else if value = ''true'' then Inr (VBoolean True)
      else if value = ''false'' then Inr (VBoolean False)
      else (case stoll value of
          Inl _ \<Rightarrow> Inr (VString value)
        | Inr (integerValue, position) \<Rightarrow>
            if position = length value then Inr (VInteger (word_of_int integerValue))
            else Inr (VString value)))"

fun load_lines :: "string list \<Rightarrow> nat \<Rightarrow> config \<Rightarrow> std_exception + config" where
  "load_lines [] lineNumber config = Inr config"
| "load_lines (line # rest) lineNumber0 config =
     (let lineNumber = lineNumber0 + 1;
          trimmedLine = trim line
      in if trimmedLine = [] then load_lines rest lineNumber config
         else if trimmedLine ! 0 = CHR ''#'' then load_lines rest lineNumber config
         else (case find_char (CHR ''='') trimmedLine of
             None \<Rightarrow> Inl (runtime_error
               (''Malformed configuration at line '' @ to_string (int lineNumber)))
           | Some separator \<Rightarrow>
               let key = trim (substr 0 separator trimmedLine);
                   value = trim (substr (separator + 1) (length trimmedLine) trimmedLine)
               in if key = [] then Inl (runtime_error
                    (''Configuration key cannot be empty at line '' @ to_string (int lineNumber)))
                  else if value = [] then Inl (runtime_error
                    (''Configuration value cannot be empty at line '' @ to_string (int lineNumber)))
                  else (case parseValue value of
                      Inl e \<Rightarrow> Inl e
                    | Inr v \<Rightarrow> load_lines rest lineNumber (config_set key v config))))"

definition load :: "(string \<Rightarrow> string option) \<Rightarrow> string \<Rightarrow> std_exception + config" where
  "load files path =
     (case files (c_str path) of
        None \<Rightarrow> Inl (runtime_error (''Failed to open configuration file: '' @ path))
      | Some content \<Rightarrow> load_lines (getlines content) 0 Config)"

section \<open>Trimming\<close>

lemma trim_begin_eq: "i \<le> length v \<Longrightarrow> trim_begin v i = i + length (takeWhile isspace (drop i v))"
proof (induction v i rule: trim_begin.induct)
  case (1 v i)
  show ?case
  proof (cases "i < length v \<and> isspace (v ! i)")
    case True
    then have "drop i v = v ! i # drop (i + 1) v" by (simp add: Cons_nth_drop_Suc)
    with 1 True show ?thesis by (subst trim_begin.simps) simp
  next
    case False
    then have "takeWhile isspace (drop i v) = []"
      using 1 by (cases "i = length v") (auto simp: takeWhile_eq_Nil_iff hd_drop_conv_nth)
    then show ?thesis using False by (subst trim_begin.simps) auto
  qed
qed

lemma trim_end_eq:
  "j \<le> length v \<Longrightarrow> i \<le> j \<Longrightarrow>
    trim_end v i j = j - length (takeWhile isspace (rev (drop i (take j v))))"
proof (induction v i j rule: trim_end.induct)
  case (1 v i)
  then show ?case by simp
next
  case (2 v i j)
  show ?case
  proof (cases "i \<le> j")
    case True
    then have "drop i (take (Suc j) v) = drop i (take j v) @ [v ! j]"
      using 2 by (simp add: take_Suc_conv_app_nth)
    with 2 True show ?thesis by auto
  next
    case False
    then show ?thesis using 2 by simp
  qed
qed

definition strip :: "string \<Rightarrow> string" where
  "strip s = rev (dropWhile isspace (rev (dropWhile isspace s)))"

lemma trim_strip: "trim s = strip s"
proof -
  define i where "i = length (takeWhile isspace s)"
  define r where "r = dropWhile isspace s"
  have r: "drop i s = r" "i \<le> length s"
    unfolding i_def r_def by (simp_all add: dropWhile_eq_drop length_takeWhile_le)
  have "trim_end s i (length s) = length s - length (takeWhile isspace (rev r))"
    using trim_end_eq [of "length s" s i] r by simp
  moreover have "length r = length s - i" using r by auto
  moreover have "rev (dropWhile isspace (rev r)) = take (length r - length (takeWhile isspace (rev r))) r"
    by (metis dropWhile_eq_drop rev_drop rev_rev_ident length_rev)
  ultimately show ?thesis
    using r trim_begin_eq [of 0 s]
    by (simp add: trim_def Let_def substr_def strip_def i_def [symmetric] r_def [symmetric] add.commute)
qed

definition trimmed :: "string \<Rightarrow> bool" where
  "trimmed s \<longleftrightarrow> s = [] \<or> \<not> isspace (hd s) \<and> \<not> isspace (last s)"

lemma trimmed_strip: "trimmed s \<Longrightarrow> strip s = s"
proof (cases "s = []")
  case False
  assume "trimmed s"
  with False have "dropWhile isspace s = s" "dropWhile isspace (rev s) = rev s"
    by (simp_all add: trimmed_def dropWhile_eq_self_iff hd_rev)
  then show ?thesis by (simp add: strip_def)
qed (simp add: strip_def)

lemma strip_trimmed: "trimmed (strip s)"
proof -
  define r where "r = rev (dropWhile isspace s)"
  define d where "d = dropWhile isspace r"
  have strip: "strip s = rev d" by (simp add: strip_def d_def r_def)
  show ?thesis
  proof (cases "d = []")
    case False
    have "r = takeWhile isspace r @ d" by (simp add: d_def)
    then have "last d = last r" "r \<noteq> []" using False by (metis last_appendR, auto)
    then have "last d = hd (dropWhile isspace s)" "dropWhile isspace s \<noteq> []"
      by (simp_all add: r_def last_rev)
    then have "\<not> isspace (last d)" using hd_dropWhile by metis
    moreover have "\<not> isspace (hd d)" using False hd_dropWhile unfolding d_def by blast
    ultimately show ?thesis by (simp add: strip trimmed_def hd_rev last_rev)
  qed (simp add: strip trimmed_def)
qed

lemma strip_idem: "strip (strip s) = strip s"
  by (rule trimmed_strip [OF strip_trimmed])

lemma set_strip: "set (strip s) \<subseteq> set s"
  by (auto simp: strip_def dest!: set_dropWhileD)

lemma strip_space: "isspace c \<Longrightarrow> strip (c # s) = strip s" "isspace c \<Longrightarrow> strip (s @ [c]) = strip s"
  subgoal by (simp add: strip_def)
  subgoal
    by (cases "\<forall>x \<in> set s. isspace x")
      (simp_all add: strip_def dropWhile_append [where xs = s] dropWhile_eq_Nil_conv [THEN iffD2])
  done

section \<open>Reading integers\<close>

text \<open>What the loader takes for an integer: one sign at most, then digits only, in the range of 64 bits.\<close>

definition integer_value :: "string \<Rightarrow> int option" where
  "integer_value v =
     (let (negative, ds) = (case v of
          [] \<Rightarrow> (False, [])
        | c # r \<Rightarrow> if c = CHR ''-'' then (True, r) else if c = CHR ''+'' then (False, r) else (False, v));
          n = (if negative then - digits_value ds else digits_value ds)
      in if ds \<noteq> [] \<and> list_all isdigit ds \<and> - (2 ^ 63) \<le> n \<and> n \<le> 2 ^ 63 - 1 then Some n else None)"

lemma isdigit_facts: "isdigit c \<Longrightarrow> \<not> isspace c \<and> c \<noteq> CHR 0x00 \<and> c \<noteq> CHR ''-'' \<and> c \<noteq> CHR ''+''"
  by (auto simp: isdigit_def isspace_def)

lemma c_str_prefix: "\<exists>r. s = c_str s @ r" "length (c_str s) = length s \<Longrightarrow> c_str s = s"
  unfolding c_str_def by (metis takeWhile_dropWhile_id, metis takeWhile_eq_take take_all_iff order_refl)

lemma takeWhile_full: "length (takeWhile P xs) = length xs \<longleftrightarrow> list_all P xs"
  by (induction xs) auto

lemma takeWhile_list_all: "list_all P xs \<Longrightarrow> takeWhile P xs = xs"
  by (induction xs) auto


text \<open>For a string that starts with no white space, \<open>stoll\<close> consuming everything is that grammar.\<close>

lemma stoll_integer_value:
  assumes "s \<noteq> []" "\<not> isspace (hd s)"
  shows "integer_value s =
    (case stoll s of Inl _ \<Rightarrow> None | Inr (n, p) \<Rightarrow> if p = length s then Some n else None)"
proof -
  obtain c r where s: "s = c # r" using assms(1) by (cases s) auto
  define signs where "signs = (if c = CHR ''-'' \<or> c = CHR ''+'' then 1 else 0 :: nat)"
  define num where "num ds = (if c = CHR ''-'' then - digits_value ds else digits_value ds)" for ds
  have grammar: "integer_value s = (let ds = drop signs s in
      if ds \<noteq> [] \<and> list_all isdigit ds \<and> - (2 ^ 63) \<le> num ds \<and> num ds \<le> 2 ^ 63 - 1 then Some (num ds) else None)"
    by (cases "c = CHR ''-''"; cases "c = CHR ''+''")
      (simp_all add: integer_value_def s signs_def num_def Let_def)
  show ?thesis
  proof (cases "c = CHR 0x00")
    case True
    then have "c_str s = []" "\<not> isdigit c" "signs = 0"
      using isdigit_facts [of c] by (auto simp: c_str_def s signs_def)
    then show ?thesis unfolding grammar by (simp add: stoll_def s)
  next
    case False
    then obtain r' where c: "c_str s = c # r'" by (simp add: c_str_def s)
    define ds where "ds = takeWhile isdigit (drop signs (c_str s))"
    have st: "stoll s = (if ds = [] then Inl invalid_argument
        else if num ds < - (2 ^ 63) \<or> num ds > 2 ^ 63 - 1 then Inl out_of_range
        else Inr (num ds, signs + length ds))"
    proof -
      have "\<not> isspace c" using assms(2) s by simp
      then have ws: "takeWhile isspace (c # r') = []" by simp
      have sg: "(case c # r' of [] \<Rightarrow> (False, 0 :: nat) | d # _ \<Rightarrow> if d = CHR ''-'' then (True, 1)
          else if d = CHR ''+'' then (False, 1) else (False, 0)) = (c = CHR ''-'', signs)"
        by (simp add: signs_def)
      show ?thesis
        unfolding stoll_def Let_def ds_def c ws list.size(3) drop_0 sg prod.case num_def by simp
    qed
    have sg: "signs \<le> length (c_str s)" by (simp add: c signs_def)
    have le: "length ds \<le> length (c_str s) - signs" "length (c_str s) \<le> length s"
      using length_takeWhile_le [of isdigit "drop signs (c_str s)"] length_takeWhile_le
      unfolding ds_def c_str_def by (auto simp: length_drop)
    have full: "signs + length ds = length s \<longleftrightarrow> list_all isdigit (drop signs s)"
    proof
      assume e: "signs + length ds = length s"
      then have "length (c_str s) = length s" using le sg by linarith
      then have "c_str s = s" by (rule c_str_prefix(2))
      with e show "list_all isdigit (drop signs s)"
        using takeWhile_full [of isdigit "drop signs s"] unfolding ds_def length_drop
        by (metis add_diff_cancel_left')
    next
      assume a: "list_all isdigit (drop signs s)"
      then have "CHR 0x00 \<notin> set (drop signs s)" using isdigit_facts by (auto simp: list_all_iff)
      then have "CHR 0x00 \<notin> set s" using False by (auto simp: s signs_def split: if_splits)
      then have "ds = drop signs s" using takeWhile_list_all [OF a] by (simp add: ds_def c_str_id)
      then show "signs + length ds = length s" by (simp add: s signs_def)
    qed
    have "list_all isdigit (drop signs s) \<Longrightarrow> ds = drop signs s"
      using full le sg c_str_prefix(2) takeWhile_list_all unfolding ds_def
      by (metis add.commute le_add_diff_inverse2 le_antisym nat_add_left_cancel_le)
    then show ?thesis unfolding st grammar using full by (auto simp: Let_def)
  qed
qed


section \<open>The specification of the format\<close>

text \<open>
  What a trimmed value means, what a line means, and what a file means: the first bad line decides,
  otherwise the entries are set in order. None of it speaks of indices or of \<open>strtoll\<close>.
\<close>

definition read_value :: "string \<Rightarrow> config_value" where
  "read_value v =
     (if v = ''true'' then VBoolean True else if v = ''false'' then VBoolean False
      else (case integer_value v of Some n \<Rightarrow> VInteger (word_of_int n) | None \<Rightarrow> VString v))"

datatype line_kind =
    Skipped
  | Entry string config_value
  | Bad string

definition classify :: "string \<Rightarrow> line_kind" where
  "classify line =
     (let t = strip line;
          key = strip (takeWhile (\<lambda>c. c \<noteq> CHR ''='') t);
          v = strip (drop 1 (dropWhile (\<lambda>c. c \<noteq> CHR ''='') t))
      in if t = [] \<or> hd t = CHR ''#'' then Skipped
         else if CHR ''='' \<notin> set t then Bad ''Malformed configuration at line ''
         else if key = [] then Bad ''Configuration key cannot be empty at line ''
         else if v = [] then Bad ''Configuration value cannot be empty at line ''
         else Entry key (read_value v))"

fun line_entry :: "line_kind \<Rightarrow> (string \<times> config_value) list" where
  "line_entry (Entry k v) = [(k, v)]"
| "line_entry _ = []"

fun line_error :: "nat \<times> line_kind \<Rightarrow> string list" where
  "line_error (n, Bad text) = [text @ to_string (int n)]"
| "line_error _ = []"

definition entries :: "string list \<Rightarrow> (string \<times> config_value) list" where
  "entries ls = concat (map (line_entry \<circ> classify) ls)"

text \<open>The complaints about the lines numbered from \<open>n + 1\<close>.\<close>

definition complaints :: "nat \<Rightarrow> string list \<Rightarrow> string list" where
  "complaints n ls = concat (map line_error (zip [n + 1 ..< n + 1 + length ls] (map classify ls)))"

definition reference_load :: "string \<Rightarrow> std_exception + config" where
  "reference_load content =
     (case complaints 0 (getlines content) of
        [] \<Rightarrow> Inr (cfg.put_all (entries (getlines content)) Config)
      | text # _ \<Rightarrow> Inl (runtime_error text))"

lemma parseValue_read:
  assumes "trimmed v" "v \<noteq> []"
  shows "parseValue v = Inr (read_value v)"
proof -
  have "\<not> isspace (hd v)" using assms by (simp add: trimmed_def)
  from stoll_integer_value [OF assms(2) this] show ?thesis
    using assms by (auto simp: parseValue_def trim_strip trimmed_strip read_value_def Let_def split: sum.splits)
qed

lemma find_char_split:
  "find_char c s = (if c \<in> set s then Some (length (takeWhile (\<lambda>x. x \<noteq> c) s)) else None)"
  "substr 0 (length (takeWhile (\<lambda>x. x \<noteq> c) s)) s = takeWhile (\<lambda>x. x \<noteq> c) s"
  "substr (length (takeWhile (\<lambda>x. x \<noteq> c) s) + 1) (length s) s = drop 1 (dropWhile (\<lambda>x. x \<noteq> c) s)"
proof -
  have "length (takeWhile (\<lambda>x. x \<noteq> c) s) < length s \<longleftrightarrow> c \<in> set s"
    by (induction s) auto
  then show "find_char c s = (if c \<in> set s then Some (length (takeWhile (\<lambda>x. x \<noteq> c) s)) else None)"
    by (simp add: find_char_def Let_def)
  show "substr 0 (length (takeWhile (\<lambda>x. x \<noteq> c) s)) s = takeWhile (\<lambda>x. x \<noteq> c) s"
    by (simp add: substr_def takeWhile_eq_take [symmetric])
  show "substr (length (takeWhile (\<lambda>x. x \<noteq> c) s) + 1) (length s) s = drop 1 (dropWhile (\<lambda>x. x \<noteq> c) s)"
    by (simp add: substr_def dropWhile_eq_drop add.commute)
qed

lemma load_lines_step:
  "load_lines (line # rest) n config =
    (case classify line of
       Skipped \<Rightarrow> load_lines rest (n + 1) config
     | Bad text \<Rightarrow> Inl (runtime_error (text @ to_string (int (n + 1))))
     | Entry k v \<Rightarrow> load_lines rest (n + 1) (config_set k v config))"
proof -
  have first: "t \<noteq> [] \<Longrightarrow> t ! 0 = hd t" for t :: string by (simp add: hd_conv_nth)
  have v: "strip w \<noteq> [] \<Longrightarrow> parseValue (strip w) = Inr (read_value (strip w))" for w
    using parseValue_read [OF strip_trimmed] by blast
  show ?thesis
    by (simp add: classify_def Let_def trim_strip find_char_split(1,2) find_char_split(3) [simplified] first v)
qed

declare load_lines.simps(2) [simp del]

lemma load_lines_reference:
  "load_lines ls n config =
    (case complaints n ls of
       [] \<Rightarrow> Inr (cfg.put_all (entries ls) config)
     | text # _ \<Rightarrow> Inl (runtime_error text))"
proof (induction ls arbitrary: n config)
  case Nil
  then show ?case by (simp add: complaints_def entries_def cfg.put_all_def)
next
  case (Cons l ls)
  have "[n + 1 ..< n + 1 + length (l # ls)] = (n + 1) # [n + 2 ..< n + 2 + length ls]"
    using upt_conv_Cons [of "n + 1" "n + 2 + length ls"] by (simp del: upt_Suc)
  then have "complaints n (l # ls) = line_error (n + 1, classify l) @ complaints (n + 1) ls"
    by (simp add: complaints_def)
  with Cons show ?case
    by (cases "classify l") (simp_all add: load_lines_step entries_def cfg.put_all_def split: list.split)
qed


lemma load_is_reference:
  "load files path =
     (case files (c_str path) of
        None \<Rightarrow> Inl (runtime_error (''Failed to open configuration file: '' @ path))
      | Some content \<Rightarrow> reference_load content)"
  by (simp add: load_def reference_load_def load_lines_reference split: option.splits)

section \<open>The configuration document\<close>

text \<open>
  The loader takes more than \<open>docs/Phase 6 Configuration Framework.md\<close> allows (\<open>lenient_format\<close>). What
  follows is the part of the format on which the two agree. A key has the form \<open>component.property\<close>: only
  letters, digits, \<open>_\<close>, \<open>-\<close> and \<open>.\<close>, with a dot inside and no two dots in a row (section 12). A value
  that looks like a number is an integer of 64 bits, since decimals would be doubles and an overflow an
  error (sections 16 and 23), and there are no quotes (section 17). A comment starts its line.
\<close>

definition key_char :: "char \<Rightarrow> bool" where
  "key_char c \<longleftrightarrow> c \<in> set ''abcdefghijklmnopqrstuvwxyzABCDEFGHIJKLMNOPQRSTUVWXYZ0123456789_-.''"

definition documented_key :: "string \<Rightarrow> bool" where
  "documented_key k \<longleftrightarrow> list_all key_char k \<and> CHR ''.'' \<in> set k \<and> hd k \<noteq> CHR ''.'' \<and> last k \<noteq> CHR ''.'' \<and>
     successively (\<lambda>a b. a \<noteq> CHR ''.'' \<or> b \<noteq> CHR ''.'') k"

definition numeral_text :: "string \<Rightarrow> bool" where
  "numeral_text v \<longleftrightarrow> list_ex isdigit v \<and> list_all (\<lambda>c. isdigit c \<or> c \<in> set ''+-.eE'') v \<and>
     length (filter (\<lambda>c. c = CHR ''.'') v) \<le> 1"

fun documented_value :: "config_value \<Rightarrow> bool" where
  "documented_value (VString s) \<longleftrightarrow> \<not> numeral_text s \<and> CHR 0x22 \<notin> set s"
| "documented_value _ \<longleftrightarrow> True"

definition documented_line :: "string \<Rightarrow> bool" where
  "documented_line line =
     (case classify line of
        Skipped \<Rightarrow> strip line = [] \<or> hd line = CHR ''#''
      | Bad _ \<Rightarrow> True
      | Entry k v \<Rightarrow> documented_key k \<and> documented_value v)"


section \<open>What a loaded configuration holds\<close>

text \<open>Keys and string values as lines can express them.\<close>

definition plain :: "string \<Rightarrow> bool" where
  "plain s \<longleftrightarrow> s \<noteq> [] \<and> trimmed s \<and> CHR 0x0A \<notin> set s"

definition good_key :: "string \<Rightarrow> bool" where
  "good_key k \<longleftrightarrow> plain k \<and> CHR ''='' \<notin> set k \<and> hd k \<noteq> CHR ''#''"

fun good_value :: "config_value \<Rightarrow> bool" where
  "good_value (VString s) \<longleftrightarrow> plain s \<and> s \<noteq> ''true'' \<and> s \<noteq> ''false'' \<and> integer_value s = None"
| "good_value _ \<longleftrightarrow> True"

lemma read_value_good: "plain v \<Longrightarrow> good_value (read_value v)"
  by (auto simp: read_value_def split: option.splits)

lemma getlines_no_newline: "l \<in> set (getlines s) \<Longrightarrow> CHR 0x0A \<notin> set l"
proof (induction s rule: getlines.induct)
  case (1 s)
  then show ?case
    by (subst (asm) (2) getlines.simps) (auto split: if_splits dest: set_takeWhileD)
qed

lemma hd_strip_takeWhile:
  assumes "trimmed t" "t \<noteq> []" "strip (takeWhile P t) \<noteq> []"
  shows "hd (strip (takeWhile P t)) = hd t"
proof -
  have ne: "takeWhile P t \<noteq> []" using assms(3) by (auto simp: strip_def)
  then have h: "hd (takeWhile P t) = hd t" by (cases t) (auto split: if_splits)
  have "dropWhile isspace (takeWhile P t) = takeWhile P t"
    using ne h assms by (simp add: dropWhile_eq_self_iff trimmed_def)
  then have s: "strip (takeWhile P t) = rev (dropWhile isspace (rev (takeWhile P t)))"
    by (simp add: strip_def)
  define r where "r = rev (takeWhile P t)"
  have "r = takeWhile isspace r @ dropWhile isspace r" by simp
  moreover have "dropWhile isspace r \<noteq> []" using assms(3) s by (simp add: r_def)
  ultimately have "last (dropWhile isspace r) = last r" by (metis last_appendR)
  then show ?thesis using ne h assms(3) by (simp add: s r_def [symmetric] hd_rev) (simp add: r_def last_rev)
qed

lemma entry_good:
  assumes "classify l = Entry k v" "CHR 0x0A \<notin> set l"
  shows "good_key k \<and> good_value v"
proof -
  define t where "t = strip l"
  define a where "a = takeWhile (\<lambda>c. c \<noteq> CHR ''='') t"
  define b where "b = drop 1 (dropWhile (\<lambda>c. c \<noteq> CHR ''='') t)"
  have c: "t \<noteq> []" "hd t \<noteq> CHR ''#''" "strip a \<noteq> []" "strip b \<noteq> []" "k = strip a" "v = read_value (strip b)"
    using assms(1) unfolding classify_def Let_def t_def [symmetric] a_def [symmetric] b_def [symmetric]
    by (auto split: if_splits)
  have sub: "set (strip a) \<subseteq> set a" "set (strip b) \<subseteq> set b" "set t \<subseteq> set l"
    by (simp_all only: set_strip t_def)
  have ab: "set a \<subseteq> set t" "CHR ''='' \<notin> set a" "set b \<subseteq> set t"
    unfolding a_def b_def by (auto dest: set_takeWhileD set_dropWhileD in_set_dropD)
  have "trimmed t" by (simp add: t_def strip_trimmed)
  then have "hd (strip a) = hd t" using c hd_strip_takeWhile unfolding a_def by blast
  then have "good_key k" using c sub ab assms(2) by (auto simp: good_key_def plain_def strip_trimmed)
  moreover have "plain (strip b)" using c sub ab assms(2) by (auto simp: plain_def strip_trimmed)
  then have "good_value v" using c read_value_good by simp
  ultimately show ?thesis by simp
qed


lemma entries_good:
  assumes "(k, v) \<in> set (entries (getlines s))"
  shows "good_key k \<and> good_value v"
proof -
  obtain l where l: "l \<in> set (getlines s)" "(k, v) \<in> set (line_entry (classify l))"
    using assms by (auto simp: entries_def)
  then have "classify l = Entry k v" by (cases "classify l") auto
  then show ?thesis using entry_good getlines_no_newline [OF l(1)] by blast
qed

text \<open>
  The invariant of a loaded configuration, whatever the file. Every key is a nonempty line fragment without leading
  or trailing white space, without \<open>=\<close>, and not starting with \<open>#\<close>; every string value is a nonempty
  trimmed fragment that is neither a boolean nor an integer of 64 bits, so no value was classified
  too weakly.
\<close>

lemma load_wellformed:
  assumes "load files path = Inr c" "config_get c k = Some v"
  shows "good_key k \<and> good_value v"
proof -
  obtain s where "c = cfg.put_all (entries (getlines s)) Config"
    using assms(1)
    by (auto simp: load_def load_lines_reference split: option.splits list.splits)
  then have "map_of (rev (entries (getlines s))) k = Some v"
    using assms(2) by (simp add: cfg.get_put_all_fresh)
  then have "(k, v) \<in> set (entries (getlines s))" by (auto dest: map_of_SomeD)
  then show ?thesis by (rule entries_good)
qed

section \<open>Round trips\<close>

text \<open>How a configuration is written down.\<close>

fun print_value :: "config_value \<Rightarrow> string" where
  "print_value (VString s) = s"
| "print_value (VInteger n) = to_string (sint n)"
| "print_value (VBoolean b) = (if b then ''true'' else ''false'')"

definition print_config :: "(string \<times> config_value) list \<Rightarrow> string" where
  "print_config kvs = concat (map (\<lambda>(k, v). k @ '' = '' @ print_value v @ endl) kvs)"

lemma to_string_plain:
  fixes w :: "64 word"
  shows "integer_value (to_string (sint w)) = Some (sint w)" "plain (to_string (sint w))"
proof -
  define n where "n = sint w"
  have r: "- (2 ^ 63) \<le> n" "n \<le> 2 ^ 63 - 1"
    using sint_greater_eq [of w] sint_less [of w] by (simp_all add: n_def)
  define ds where "ds = digits 10 (if n < 0 then - n else n)"
  have ds: "list_all isdigit ds" "digits_value ds = (if n < 0 then - n else n)" "ds \<noteq> []"
    using digits_10 [of "if n < 0 then - n else n"] by (auto simp: ds_def)
  have t: "to_string n = (if n < 0 then CHR ''-'' # ds else ds)" by (simp add: to_string_def ds_def)
  have h: "isdigit (hd ds)" "isdigit (last ds)" using ds(1,3) by (simp_all add: list_all_iff)
  then have hd: "hd ds \<noteq> CHR ''-''" "hd ds \<noteq> CHR ''+''" using isdigit_facts by blast+
  show "integer_value (to_string (sint w)) = Some (sint w)"
    using ds r hd by (cases ds) (auto simp: n_def [symmetric] t integer_value_def Let_def)
  have "\<not> isdigit (CHR 0x0A)" "\<not> isspace CHR ''-''" by (simp_all add: isdigit_def isspace_def)
  then show "plain (to_string (sint w))"
    using ds h isdigit_facts by (auto simp: n_def [symmetric] t plain_def trimmed_def list_all_iff)
qed


lemma read_print_value:
  assumes "good_value v"
  shows "read_value (print_value v) = v \<and> plain (print_value v)"
proof (cases v)
  case (VString s)
  then show ?thesis using assms by (simp add: read_value_def)
next
  case (VInteger n)
  have iv: "integer_value ''true'' = None" "integer_value ''false'' = None"
    by (simp_all add: integer_value_def isdigit_def Let_def)
  then have "to_string (sint n) \<noteq> ''true''" "to_string (sint n) \<noteq> ''false''"
    using to_string_plain(1) [of n] by (metis option.distinct(1))+
  then show ?thesis using VInteger to_string_plain [of n] by (simp add: read_value_def)
next
  case (VBoolean b)
  have "plain ''true''" "plain ''false''" by (simp_all add: plain_def trimmed_def isspace_def)
  then show ?thesis using VBoolean by (simp add: read_value_def)
qed

lemma classify_printed:
  assumes "good_key k" "good_value v"
  shows "classify (k @ '' = '' @ print_value v) = Entry k v"
proof -
  define p where "p = print_value v"
  have p: "plain p" "read_value p = v" using read_print_value [OF assms(2)] by (simp_all add: p_def)
  have k: "plain k" "CHR ''='' \<notin> set k" "hd k \<noteq> CHR ''#''" using assms(1) by (simp_all add: good_key_def)
  define t where "t = k @ '' = '' @ p"
  have sp: "isspace CHR '' ''" by (simp add: isspace_def)
  have "trimmed t" using p k by (auto simp: t_def plain_def trimmed_def)
  then have t: "strip t = t" by (rule trimmed_strip)
  have "takeWhile (\<lambda>c. c \<noteq> CHR ''='') t = k @ '' ''" "dropWhile (\<lambda>c. c \<noteq> CHR ''='') t = ''= '' @ p"
    unfolding t_def using k(2)
    by ((subst takeWhile_append2 dropWhile_append2; auto), (subst takeWhile_append2 dropWhile_append2; auto))
  moreover have "strip (k @ '' '') = k" "strip ('' '' @ p) = p"
    using sp p k by (simp_all add: strip_space plain_def trimmed_strip)
  moreover have "t \<noteq> []" "hd t = hd k" "CHR ''='' \<in> set t" "k \<noteq> []" "p \<noteq> []"
    using p k by (simp_all add: t_def plain_def)
  ultimately have "classify t = Entry k (read_value p)"
    using k(3) by (simp add: classify_def Let_def t)
  then show ?thesis using p by (simp add: t_def p_def)
qed

lemma getlines_line: "CHR 0x0A \<notin> set l \<Longrightarrow> getlines (l @ endl @ s) = l # getlines s"
proof -
  assume "CHR 0x0A \<notin> set l"
  then have "takeWhile (\<lambda>c. c \<noteq> CHR 0x0A) (l @ endl @ s) = l"
    "dropWhile (\<lambda>c. c \<noteq> CHR 0x0A) (l @ endl @ s) = endl @ s"
    by (induction l) (auto simp: endl_def)
  then show ?thesis by (subst getlines.simps) (simp add: endl_def)
qed

lemma getlines_print:
  assumes "\<forall>(k, v) \<in> set kvs. good_key k \<and> good_value v"
  shows "map classify (getlines (print_config kvs)) = map (\<lambda>(k, v). Entry k v) kvs"
  using assms
proof (induction kvs)
  case Nil
  then show ?case by (subst getlines.simps) (simp add: print_config_def)
next
  case (Cons kv kvs)
  obtain k v where kv: "kv = (k, v)" by (cases kv)
  have g: "good_key k" "good_value v" using Cons.prems kv by auto
  have "CHR 0x0A \<notin> set (k @ '' = '' @ print_value v)"
    using g read_print_value [OF g(2)] by (auto simp: good_key_def plain_def)
  from getlines_line [OF this] have "getlines (print_config ((k, v) # kvs)) =
    (k @ '' = '' @ print_value v) # getlines (print_config kvs)"
    by (simp add: print_config_def)
  then show ?case using Cons g kv classify_printed [OF g] by simp
qed

lemma complaints_entries:
  assumes "map classify ls = map (\<lambda>(k, v). Entry k v) kvs"
  shows "complaints n ls = []" "entries ls = kvs"
proof -
  show "complaints n ls = []"
    unfolding complaints_def assms by (auto dest!: set_zip_rightD)
  have "entries ls = concat (map line_entry (map classify ls))" by (simp add: entries_def)
  also have "\<dots> = kvs" unfolding assms by (induction kvs) auto
  finally show "entries ls = kvs" .
qed

lemma load_printed:
  assumes "\<forall>(k, v) \<in> set kvs. good_key k \<and> good_value v"
    and "files (c_str path) = Some (print_config kvs)"
  shows "\<exists>c. load files path = Inr c \<and> config_get c = map_of (rev kvs)"
proof -
  note lines = complaints_entries [OF getlines_print [OF assms(1)]]
  have "load files path = Inr (cfg.put_all kvs Config)"
    using assms(2) by (simp add: load_def load_lines_reference lines)
  then show ?thesis by (simp add: cfg.get_put_all_fresh)
qed

lemma documented_key_good: "documented_key k \<Longrightarrow> good_key k"
proof -
  assume d: "documented_key k"
  have c: "key_char c \<Longrightarrow> \<not> isspace c \<and> c \<noteq> CHR ''='' \<and> c \<noteq> CHR ''#'' \<and> c \<noteq> CHR 0x0A" for c
    by (auto simp: key_char_def isspace_def)
  from d have "k \<noteq> []" "\<forall>c \<in> set k. key_char c" by (auto simp: documented_key_def list_all_iff)
  then show ?thesis using c by (auto simp: good_key_def plain_def trimmed_def)
qed

text \<open>
  C34. Written and read back. Take any list of entries whose keys keep the rules of the configuration
  document and whose string values are nonempty trimmed pieces of a line, without quotes, that do not
  read as a boolean or a number. Printed one entry per line and loaded, it gives the configuration
  with those entries, the last one of each key; in particular every 64-bit integer, the two extremes
  included, comes back as that integer.
\<close>

theorem load_print:
  assumes "\<forall>(k, v) \<in> set kvs. documented_key k \<and> good_value v \<and> documented_value v"
    and "files (c_str path) = Some (print_config kvs)"
  shows "\<exists>c. load files path = Inr c \<and> config_get c = map_of (rev kvs)"
proof -
  have "\<forall>(k, v) \<in> set kvs. good_key k \<and> good_value v" using assms(1) documented_key_good by blast
  from load_printed [of kvs files path, OF this assms(2)] show ?thesis .
qed

section \<open>Typed access\<close>

text \<open>The text of the value on a line.\<close>

definition value_text :: "string \<Rightarrow> string" where
  "value_text line = strip (drop 1 (dropWhile (\<lambda>c. c \<noteq> CHR ''='') (strip line)))"

lemma classify_value: "classify line = Entry k v \<Longrightarrow> v = read_value (value_text line)"
  by (auto simp: classify_def value_text_def Let_def split: if_splits)

lemma integer_numeral: "integer_value t = Some n \<Longrightarrow> numeral_text t \<and> - (2 ^ 63) \<le> n \<and> n \<le> 2 ^ 63 - 1"
proof -
  assume i: "integer_value t = Some n"
  then obtain c r where t: "t = c # r" by (cases t) (auto simp: integer_value_def Let_def)
  then have d: "list_all isdigit r" "isdigit c \<or> (c = CHR ''-'' \<or> c = CHR ''+'') \<and> r \<noteq> []"
    using i by (auto simp: integer_value_def Let_def split: if_splits)
  have "\<not> isdigit (CHR ''.'')" by (simp add: isdigit_def)
  then have "filter (\<lambda>c. c = CHR ''.'') r = []" using d(1) by (auto simp: filter_empty_conv list_all_iff)
  moreover have "list_ex isdigit t" using d t by (cases r) auto
  moreover have "list_all (\<lambda>c. isdigit c \<or> c \<in> set ''+-.eE'') t" using d t by (auto simp: list_all_iff)
  ultimately have "numeral_text t" by (simp add: numeral_text_def t)
  then show ?thesis using i by (auto simp: integer_value_def t Let_def split: if_splits)
qed

text \<open>Reading a text and accessing the value with one of the three accessors.\<close>

lemma read_value_access:
  assumes "documented_value (read_value t)"
  shows "configvalue_asBoolean (read_value t) = Inr b \<longleftrightarrow> t = (if b then ''true'' else ''false'')"
    "configvalue_asInteger (read_value t) = Inr n \<longleftrightarrow> integer_value t = Some n"
    "configvalue_asString (read_value t) = Inr s \<longleftrightarrow>
       s = t \<and> t \<noteq> ''true'' \<and> t \<noteq> ''false'' \<and> \<not> numeral_text t"
proof -
  have iv: "integer_value ''true'' = None" "integer_value ''false'' = None"
    by (simp_all add: integer_value_def isdigit_def Let_def)
  have w: "sint (word_of_int m :: u64) = m" if "integer_value t = Some m" for m
    using integer_numeral [OF that] by (simp add: sint_sbintrunc' signed_take_bit_int_eq_self)
  show "configvalue_asBoolean (read_value t) = Inr b \<longleftrightarrow> t = (if b then ''true'' else ''false'')"
    by (auto simp: read_value_def configvalue_asBoolean_def split: option.splits)
  show "configvalue_asInteger (read_value t) = Inr n \<longleftrightarrow> integer_value t = Some n"
    using w iv by (auto simp: read_value_def configvalue_asInteger_def split: option.splits)
  show "configvalue_asString (read_value t) = Inr s \<longleftrightarrow>
      s = t \<and> t \<noteq> ''true'' \<and> t \<noteq> ''false'' \<and> \<not> numeral_text t"
    using assms integer_numeral by (auto simp: read_value_def configvalue_asString_def split: if_splits option.splits)
qed

text \<open>The entry that counts for a key is the last one.\<close>

lemma last_entry:
  assumes "map_of (rev (entries ls)) k = Some v"
  shows "\<exists>pre line post. ls = pre @ line # post \<and> classify line = Entry k v \<and> k \<notin> fst ` set (entries post)"
  using assms
proof (induction ls)
  case Nil
  then show ?case by (simp add: entries_def)
next
  case (Cons l ls)
  have e: "entries (l # ls) = line_entry (classify l) @ entries ls" by (simp add: entries_def)
  show ?case
  proof (cases "map_of (rev (entries ls)) k")
    case None
    then have "map_of (rev (line_entry (classify l))) k = Some v" using Cons.prems by (simp add: e map_add_def)
    moreover have "k \<notin> fst ` set (entries ls)" using None by (simp add: map_of_eq_None_iff)
    ultimately have "map_of (rev (line_entry (classify l))) k = Some v" "k \<notin> fst ` set (entries ls)" .
    then have "classify l = Entry k v" by (cases "classify l") (auto split: if_splits)
    then show ?thesis using \<open>k \<notin> _\<close> by (metis append_Nil)
  next
    case (Some v')
    then have "map_of (rev (entries ls)) k = Some v" using Cons.prems by (simp add: e map_add_def)
    from Cons.IH [OF this] show ?thesis by (metis append_Cons)
  qed
qed

text \<open>
  C35. Typed access to a loaded configuration, for every file whose valid lines keep the rules of the
  configuration document. The value under a key is the one on the last line that sets the key, and
  the text on that line decides which of the three accesses succeeds: as a boolean exactly \<open>true\<close> and
  \<open>false\<close>, as an integer exactly the decimal integers of 64 bits, with their value, and as a string
  every other text, unchanged.
\<close>

theorem load_typed_access:
  assumes "files (c_str path) = Some content" "list_all documented_line (getlines content)"
    "load files path = Inr c" "config_get c k = Some v"
  shows "\<exists>pre line post t. getlines content = pre @ line # post \<and> classify line = Entry k v \<and>
    k \<notin> fst ` set (entries post) \<and> documented_key k \<and> t = value_text line \<and>
    (\<forall>b. configvalue_asBoolean v = Inr b \<longleftrightarrow> t = (if b then ''true'' else ''false'')) \<and>
    (\<forall>n. configvalue_asInteger v = Inr n \<longleftrightarrow> integer_value t = Some n) \<and>
    (\<forall>s. configvalue_asString v = Inr s \<longleftrightarrow> s = t \<and> t \<noteq> ''true'' \<and> t \<noteq> ''false'' \<and> \<not> numeral_text t)"
proof -
  have "c = cfg.put_all (entries (getlines content)) Config"
    using assms(1,3) by (auto simp: load_is_reference reference_load_def split: list.splits)
  then have "map_of (rev (entries (getlines content))) k = Some v"
    using assms(4) by (simp add: cfg.get_put_all_fresh)
  from last_entry [OF this] obtain pre line post where l: "getlines content = pre @ line # post"
    "classify line = Entry k v" "k \<notin> fst ` set (entries post)" by blast
  then have "documented_key k" "documented_value v"
    using assms(2) by (simp_all add: documented_line_def)
  then show ?thesis using l read_value_access [of "value_text line"] classify_value [OF l(2)] by blast
qed

section \<open>Witnesses\<close>

lemma demo_file:
  "\<exists>c. load (\<lambda>_. Some (''server.port = 80'' @ endl @ ''# a comment'' @ endl @ '' server.port =8080'')) ''f'' = Inr c \<and>
     config_get c ''server.port'' = Some (VInteger 8080) \<and>
   list_all documented_line (getlines (''server.port = 80'' @ endl @ ''# a comment'' @ endl @ '' server.port =8080''))"
proof -
  have "case load (\<lambda>_. Some (''server.port = 80'' @ endl @ ''# a comment'' @ endl @ '' server.port =8080'')) ''f'' of
      Inl _ \<Rightarrow> False | Inr c \<Rightarrow> config_get c ''server.port'' = Some (VInteger 8080)"
    by code_simp
  moreover have "list_all documented_line
      (getlines (''server.port = 80'' @ endl @ ''# a comment'' @ endl @ '' server.port =8080''))"
    by code_simp
  ultimately show ?thesis by (auto split: sum.splits)
qed


theorem load_typed_access_witness:
  "\<exists>c v. load (\<lambda>_. Some (''server.port = 80'' @ endl @ ''# a comment'' @ endl @ '' server.port =8080'')) ''f'' = Inr c \<and>
     config_get c ''server.port'' = Some v \<and> configvalue_asInteger v = Inr 8080 \<and>
     (\<exists>line. classify line = Entry ''server.port'' v \<and> integer_value (value_text line) = Some 8080)"
proof -
  from demo_file obtain c where c:
    "load (\<lambda>_. Some (''server.port = 80'' @ endl @ ''# a comment'' @ endl @ '' server.port =8080'')) ''f'' = Inr c"
    "config_get c ''server.port'' = Some (VInteger 8080)" and
    d: "list_all documented_line (getlines (''server.port = 80'' @ endl @ ''# a comment'' @ endl @ '' server.port =8080''))"
    by blast
  have "configvalue_asInteger (VInteger 8080) = Inr 8080" by code_simp
  with load_typed_access [OF refl d c] c show ?thesis by blast
qed

theorem load_print_witness:
  "\<exists>c. load (\<lambda>_. Some (print_config [(''a.x'', VInteger (- 1)), (''b.y'', VBoolean True), (''a.x'', VString ''10.0.0.1'')])) ''f'' = Inr c \<and>
     config_get c = map_of (rev [(''a.x'', VInteger (- 1)), (''b.y'', VBoolean True), (''a.x'', VString ''10.0.0.1'')])"
proof (rule load_print)
  show "\<forall>(k, v) \<in> set [(''a.x'', VInteger (- 1)), (''b.y'', VBoolean True), (''a.x'', VString ''10.0.0.1'')].
      documented_key k \<and> good_value v \<and> documented_value v"
    by code_simp
qed simp

text \<open>
  Where the loader takes more than the project's configuration document: a decimal fraction and an
  integer beyond 64 bits are strings, quotes stay part of the value, and a key may start with a dot.
\<close>

lemma lenient_format:
  "parseValue ''3.14'' = Inr (VString ''3.14'')"
  "parseValue ''9223372036854775808'' = Inr (VString ''9223372036854775808'')"
  "parseValue [CHR 0x22, CHR ''a'', CHR 0x22] = Inr (VString [CHR 0x22, CHR ''a'', CHR 0x22])"
  "classify ''.a..b=1'' = Entry ''.a..b'' (VInteger 1)"
  by code_simp+

end
