(* ===== verification/Event_Systems.thy ===== *)
theory Event_Systems
  imports Prelude "HOL-Library.Multiset" "HOL-Library.Sublist"
begin

text \<open>
  Concurrent programs as systems that do one atomic action at a time: an action that is enabled gives
  an event and the next state. Runs, invariants of all reachable states, and bounds on the number of
  events, each stated once as a contract (a locale) that a program's own actions fulfil.
\<close>

type_synonym ('a, 'e, 's) action_system = "'a \<Rightarrow> 's \<Rightarrow> ('e \<times> 's) option"

inductive run :: "('a, 'e, 's) action_system \<Rightarrow> 's \<Rightarrow> 'e list \<Rightarrow> 's \<Rightarrow> bool" for act s where
  run_start [intro]: "run act s [] s"
| run_step: "run act s es s1 \<Longrightarrow> act a s1 = Some (e, s2) \<Longrightarrow> run act s (es @ [e]) s2"

text \<open>What the events say to an observer who reads a list out of each.\<close>

abbreviation history :: "('e \<Rightarrow> 'b list) \<Rightarrow> 'e list \<Rightarrow> 'b list" where
  "history f es \<equiv> concat (map f es)"

text \<open>The run that a given schedule of actions takes, when all of them are enabled.\<close>

fun run_schedule :: "('a, 'e, 's) action_system \<Rightarrow> 'a list \<Rightarrow> 's \<Rightarrow> ('e list \<times> 's) option" where
  "run_schedule act [] s = Some ([], s)"
| "run_schedule act (a # as) s =
     (case act a s of
        None \<Rightarrow> None
      | Some (e, s1) \<Rightarrow> map_option (\<lambda>(es, s2). (e # es, s2)) (run_schedule act as s1))"

lemma run_trans:
  assumes "run act s1 es' s2" "run act s es s1"
  shows "run act s (es @ es') s2"
  using assms by (induction rule: run.induct) (auto intro: run_step simp flip: append_assoc)

lemma run_schedule_run: "run_schedule act as s = Some (es, s') \<Longrightarrow> run act s es s'"
proof (induction as arbitrary: s es)
  case (Cons a as)
  then obtain e s1 es1 where "act a s = Some (e, s1)" "run_schedule act as s1 = Some (es1, s')" "es = e # es1"
    by (auto split: option.splits)
  moreover from this have "run act s [e] s1" using run_step [OF run_start] by force
  ultimately show ?case using Cons.IH run_trans by fastforce
qed auto

text \<open>An inductive invariant, which may speak of the events so far.\<close>

locale event_invariant =
  fixes act :: "('a, 'e, 's) action_system"
    and start :: "'s \<Rightarrow> bool"
    and inv :: "'e list \<Rightarrow> 's \<Rightarrow> bool"
  assumes inv_start: "start s \<Longrightarrow> inv [] s"
    and inv_act: "inv es s \<Longrightarrow> act a s = Some (e, s') \<Longrightarrow> inv (es @ [e]) s'"
begin

lemma inv_run: "run act s es s' \<Longrightarrow> start s \<Longrightarrow> inv es s'"
  by (induction rule: run.induct) (auto intro: inv_start inv_act)

lemma inv_continue: "run act s1 es' s2 \<Longrightarrow> inv es s1 \<Longrightarrow> inv (es @ es') s2"
  by (induction rule: run.induct) (auto intro: inv_act simp flip: append_assoc)

end

text \<open>A state that stays in a phase where every counted event uses up some of a finite budget.\<close>

locale event_budget =
  fixes act :: "('a, 'e, 's) action_system"
    and phase :: "'s \<Rightarrow> bool"
    and counted :: "'e \<Rightarrow> bool"
    and budget :: "'s \<Rightarrow> nat"
  assumes phase_act: "phase s \<Longrightarrow> act a s = Some (e, s') \<Longrightarrow> phase s'"
    and budget_act: "phase s \<Longrightarrow> act a s = Some (e, s') \<Longrightarrow>
      budget s' + (if counted e then 1 else 0) \<le> budget s"
begin

lemma budget_run: "run act s es s' \<Longrightarrow> phase s \<Longrightarrow>
    phase s' \<and> budget s' + length (filter counted es) \<le> budget s"
proof (induction rule: run.induct)
  case (run_step es s1 a e s2)
  then show ?case using phase_act [of s1 a e s2] budget_act [of s1 a e s2] by (auto split: if_splits)
qed simp

end

text \<open>
  A system that simulates another while an invariant of its own holds: each of its events is one of
  the other's actions on the abstract state, or leaves the abstract state alone. Then its runs are the
  other's runs.
\<close>

locale event_simulation =
  fixes act :: "('a, 'e, 's) action_system"
    and act' :: "('b, 'f, 't) action_system"
    and abs_state :: "'s \<Rightarrow> 't"
    and abs_event :: "'e \<Rightarrow> 'f list"
    and inv :: "'s \<Rightarrow> bool"
  assumes inv_stays: "inv s \<Longrightarrow> act a s = Some (e, s') \<Longrightarrow> inv s'"
    and simulates_act: "inv s \<Longrightarrow> act a s = Some (e, s') \<Longrightarrow>
      (\<exists>a' e'. abs_event e = [e'] \<and> act' a' (abs_state s) = Some (e', abs_state s')) \<or>
      abs_event e = [] \<and> abs_state s' = abs_state s"
begin

lemma simulates_run:
  "run act s es s' \<Longrightarrow> inv s \<Longrightarrow>
    inv s' \<and> run act' (abs_state s) (history abs_event es) (abs_state s')"
proof (induction rule: run.induct)
  case (run_step es s1 a e s2)
  then show ?case using simulates_act [of s1 a e s2] inv_stays [of s1 a e s2] by (auto intro: run.run_step)
qed auto

end

text \<open>The contract with no invariant.\<close>

locale event_refinement =
  fixes act :: "('a, 'e, 's) action_system"
    and act' :: "('b, 'f, 't) action_system"
    and abs_state :: "'s \<Rightarrow> 't"
    and abs_event :: "'e \<Rightarrow> 'f list"
  assumes refines_act: "act a s = Some (e, s') \<Longrightarrow>
      (\<exists>a' e'. abs_event e = [e'] \<and> act' a' (abs_state s) = Some (e', abs_state s')) \<or>
      abs_event e = [] \<and> abs_state s' = abs_state s"

sublocale event_refinement \<subseteq> event_simulation act act' abs_state abs_event "\<lambda>_. True"
  by unfold_locales (auto dest: refines_act)

context event_refinement
begin

lemma refines_run: "run act s es s' \<Longrightarrow> run act' (abs_state s) (history abs_event es) (abs_state s')"
  using simulates_run by blast

end

section \<open>The rounds of one thread\<close>

text \<open>
  A thread whose own events come in rounds: \<open>whole r\<close> is the log of a round that went as \<open>r\<close> says,
  \<open>ok rs\<close> that the rounds \<open>rs\<close> may follow each other, \<open>part rs s l\<close> that in state \<open>s\<close> the thread has
  logged \<open>l\<close> of the round after \<open>rs\<close>. When every event continues or ends the current round, what the
  thread did in a run is always a beginning of whole rounds.
\<close>

locale event_rounds =
  fixes act :: "('a, 'e, 's) action_system"
    and start :: "'s \<Rightarrow> bool"
    and mine :: "'e \<Rightarrow> bool"
    and whole :: "'r \<Rightarrow> 'e list"
    and ok :: "'r list \<Rightarrow> bool"
    and part :: "'r list \<Rightarrow> 's \<Rightarrow> 'e list \<Rightarrow> bool"
  assumes rounds_start: "start s \<Longrightarrow> ok [] \<and> part [] s []"
    and rounds_act: "ok rs \<Longrightarrow> part rs s l \<Longrightarrow> act a s = Some (e, s') \<Longrightarrow>
      part rs s' (l @ filter mine [e]) \<or>
      (\<exists>r. ok (rs @ [r]) \<and> l @ filter mine [e] = whole r \<and> part (rs @ [r]) s' [])"
    and part_completes: "ok rs \<Longrightarrow> part rs s l \<Longrightarrow> \<exists>r. ok (rs @ [r]) \<and> prefix l (whole r)"

sublocale event_rounds \<subseteq> event_invariant act start
    "\<lambda>es s. \<exists>rs l. ok rs \<and> part rs s l \<and> filter mine es = concat (map whole rs) @ l"
proof
  fix s assume "start s"
  then show "\<exists>rs l. ok rs \<and> part rs s l \<and> filter mine [] = concat (map whole rs) @ l"
    using rounds_start [of s] by (intro exI [of _ "[]"]) simp
next
  fix es s a e s'
  assume "\<exists>rs l. ok rs \<and> part rs s l \<and> filter mine es = concat (map whole rs) @ l" and a: "act a s = Some (e, s')"
  then obtain rs l where r: "ok rs" "part rs s l" "filter mine es = concat (map whole rs) @ l" by blast
  then have f: "filter mine (es @ [e]) = concat (map whole rs) @ l @ filter mine [e]" by simp
  from rounds_act [OF r(1,2) a]
  show "\<exists>rs l. ok rs \<and> part rs s' l \<and> filter mine (es @ [e]) = concat (map whole rs) @ l"
  proof (elim disjE exE conjE)
    fix r0 assume r0: "ok (rs @ [r0])" "l @ filter mine [e] = whole r0" "part (rs @ [r0]) s' []"
    then have "filter mine (es @ [e]) = concat (map whole (rs @ [r0])) @ []" using f by simp
    with r0 show ?thesis by blast
  qed (use r(1) f in blast)
qed

context event_rounds
begin

lemma rounds_run:
  assumes "run act s es s'" "start s"
  shows "\<exists>rs. ok rs \<and> prefix (filter mine es) (concat (map whole rs))"
proof -
  from inv_run [OF assms] obtain rs l where r: "ok rs" "part rs s' l" "filter mine es = concat (map whole rs) @ l"
    by blast
  from part_completes [OF r(1,2)] obtain r0 where "ok (rs @ [r0])" "prefix l (whole r0)" by blast
  then show ?thesis using r(3) by (intro exI [of _ "rs @ [r0]"]) simp
qed

end

section \<open>Counting over the threads of a program\<close>

lemma mset_concat_map_update:
  "i < length xs \<Longrightarrow>
    mset (concat (map f (xs[i := x]))) + mset (f (xs ! i)) = mset (concat (map f xs)) + mset (f x)"
proof (induction xs arbitrary: i)
  case (Cons y xs)
  then show ?case by (cases i) (auto simp: ac_simps)
qed simp

lemma sum_list_map_update:
  fixes f :: "'a \<Rightarrow> nat"
  shows "i < length xs \<Longrightarrow> sum_list (map f (xs[i := x])) + f (xs ! i) = sum_list (map f xs) + f x"
proof (induction xs arbitrary: i)
  case (Cons y xs)
  then show ?case by (cases i) auto
qed simp


text \<open>A count that changed with one thread's part, when that part balances two others.\<close>

lemma mset_balance:
  fixes A :: "'a multiset"
  assumes "A' + x = A + y" "y + b = x + t"
  shows "A' + b = A + t"
proof -
  have "(A' + b) + (x + y) = (A' + x) + (y + b)" by (simp add: ac_simps)
  also have "\<dots> = (A + t) + (x + y)" unfolding assms by (simp add: ac_simps)
  finally show ?thesis by simp
qed

lemma mset_concat_map_upt:
  assumes "i < n" "\<And>k. k \<noteq> i \<Longrightarrow> k < n \<Longrightarrow> f' k = f k"
  shows "mset (concat (map f' [0 ..< n])) + mset (f i) = mset (concat (map f [0 ..< n])) + mset (f' i)"
  using assms
proof (induction n)
  case (Suc n)
  show ?case
  proof (cases "i = n")
    case True
    then have "concat (map f' [0 ..< n]) = concat (map f [0 ..< n])"
      using Suc.prems by (intro arg_cong [of _ _ concat]) simp
    then show ?thesis using True by (simp add: ac_simps)
  next
    case False
    then show ?thesis using Suc by (simp add: ac_simps)
  qed
qed simp


lemma distinct_submset:
  assumes "distinct ys" "mset xs \<subseteq># mset ys"
  shows "distinct xs"
proof -
  have "count (mset xs) a \<le> 1" for a
  proof -
    have "count (mset xs) a \<le> count (mset ys) a" using assms(2) by (rule mset_subset_eq_count)
    moreover have "count (mset ys) a \<le> 1"
      using assms(1) by (cases "a \<in> set ys") (simp_all add: distinct_count_atmost_1)
    ultimately show ?thesis by (rule le_trans)
  qed
  then show ?thesis
    unfolding distinct_count_atmost_1 by (metis One_nat_def count_mset_0_iff le_0_eq le_SucE)
qed

end
