(* ===== verification/Thread_Pool.thy ===== *)
theory Thread_Pool
  imports Event_Systems
begin

text \<open>
  \<open>class ThreadPool\<close> of the thread-pool server (\<open>Version1/src/Server.cpp\<close>; the class in
  \<open>Version_2/src/Server.cpp\<close> is the same text): a bounded queue of tasks under one mutex, workers that
  wait on one condition variable, and a destructor that lets them drain the queue.

  A thread of the program is a program counter whose values are the points between its atomic
  actions; \<open>worker_step\<close>, \<open>enqueue_step\<close> and \<open>destructor_step\<close> translate the statements at each
  point, \<open>None\<close> meaning that the thread cannot move. The mutex is its owner; the condition variable is
  the set of the threads blocked in \<open>wait\<close>. A wait releases the mutex and blocks in one action, a
  notification takes a thread out of the set, a spurious wake-up does so at any time, and a thread out
  of the set still has to get the mutex back before it tests the predicate again.

  A task is opaque: it is begun, it may ask for request numbers, and it returns. The threads that call
  \<open>enqueue\<close> are a list of callers. The C++ lifetime rules are guards of the environment's actions:
  nobody calls before the constructor is done, and the destructor begins when no call is in progress.
\<close>

section \<open>State\<close>

datatype thread = Worker nat | Caller nat | Destroyer

text \<open>The points of a worker's loop; the tasks it holds are part of the point.\<close>

datatype 't worker_point =
    W_Lock        \<comment> \<open>before \<open>unique_lock lock(queueMutex)\<close>\<close>
  | W_Test        \<comment> \<open>in \<open>condition.wait\<close>, about to evaluate the predicate\<close>
  | W_Block       \<comment> \<open>the predicate was false, about to release and block\<close>
  | W_Wait        \<comment> \<open>blocked, or notified and about to lock again\<close>
  | W_Check       \<comment> \<open>\<open>if(stop && tasks.empty())\<close>\<close>
  | W_Return      \<comment> \<open>leaving the thread function, the lock still held\<close>
  | W_Take        \<comment> \<open>\<open>task = move(tasks.front()); tasks.pop()\<close>\<close>
  | W_Unlock 't   \<comment> \<open>end of the locked block\<close>
  | W_Name 't     \<comment> \<open>\<open>cout << workerName\<close>\<close>
  | W_Print 't    \<comment> \<open>\<open>cout << " picked a request\n"\<close>\<close>
  | W_Call 't     \<comment> \<open>\<open>task()\<close>\<close>
  | W_Running 't
  | W_Done

datatype 't caller_point =
    E_Idle
  | E_Lock 't     \<comment> \<open>before \<open>lock_guard lock(queueMutex)\<close>\<close>
  | E_Size 't     \<comment> \<open>\<open>if(tasks.size() >= maxQueueSize)\<close>\<close>
  | E_Refuse      \<comment> \<open>\<open>return false\<close>, the guard still held\<close>
  | E_Push 't
  | E_Unlock
  | E_Notify      \<comment> \<open>\<open>condition.notify_one()\<close>\<close>
  | E_Return      \<comment> \<open>\<open>return true\<close>\<close>

datatype destructor_point =
    D_Alive       \<comment> \<open>the destructor has not been called\<close>
  | D_Lock
  | D_Stop        \<comment> \<open>\<open>stop=true\<close>\<close>
  | D_Unlock
  | D_Notify      \<comment> \<open>\<open>condition.notify_all()\<close>\<close>
  | D_Join nat    \<comment> \<open>\<open>workers[k].join()\<close>\<close>
  | D_Done

record 't pool =
  tp_workers :: "'t worker_point list"
  tp_tasks :: "'t list"
  tp_queueMutex :: "thread option"
  tp_condition :: "nat set"
  tp_stop :: bool
  tp_maxQueueSize :: nat
  tp_requestCounter :: "32 word"
  tp_threadCount :: nat
  tp_callers :: "'t caller_point list"
  tp_destructor :: destructor_point

text \<open>What an observer sees of an action.\<close>

datatype 't pool_event =
    Silent
  | Pushed nat 't          \<comment> \<open>a caller put a task into the queue\<close>
  | Took nat 't            \<comment> \<open>a worker took a task out of the queue\<close>
  | Printed nat string
  | Began nat 't
  | Finished nat 't
  | Numbered nat int       \<comment> \<open>the result of \<open>getRequestNumber\<close>\<close>
  | Returned nat bool      \<comment> \<open>the result of \<open>enqueue\<close>\<close>

text \<open>The object when the constructor begins, with the threads that will call it.\<close>

definition ThreadPool :: "nat \<Rightarrow> nat \<Rightarrow> 't pool" where
  "ThreadPool threadCount callers =
     \<lparr>tp_workers = [], tp_tasks = [], tp_queueMutex = None, tp_condition = {}, tp_stop = False,
      tp_maxQueueSize = 1000, tp_requestCounter = 0, tp_threadCount = threadCount,
      tp_callers = replicate callers E_Idle, tp_destructor = D_Alive\<rparr>"

section \<open>The threads\<close>

text \<open>One turn of the constructor's loop starts a worker.\<close>

definition spawn_worker :: "'t pool \<Rightarrow> ('t pool_event \<times> 't pool) option" where
  "spawn_worker p =
     (if length (tp_workers p) < tp_threadCount p
      then Some (Silent, p\<lparr>tp_workers := tp_workers p @ [W_Lock]\<rparr>)
      else None)"

abbreviation go_worker :: "nat \<Rightarrow> 't worker_point \<Rightarrow> 't pool \<Rightarrow> 't pool" where
  "go_worker i pc p \<equiv> p\<lparr>tp_workers := (tp_workers p)[i := pc]\<rparr>"

definition workerName :: "nat \<Rightarrow> string" where
  "workerName i = ''Worker-'' @ to_string (int i + 1)"

definition worker_step :: "nat \<Rightarrow> 't pool \<Rightarrow> ('t pool_event \<times> 't pool) option" where
  "worker_step i p =
     (case tp_workers p ! i of
        W_Lock \<Rightarrow>
          if tp_queueMutex p = None
          then Some (Silent, go_worker i W_Test (p\<lparr>tp_queueMutex := Some (Worker i)\<rparr>))
          else None
      | W_Test \<Rightarrow>
          if tp_stop p \<or> tp_tasks p \<noteq> []
          then Some (Silent, go_worker i W_Check p)
          else Some (Silent, go_worker i W_Block p)
      | W_Block \<Rightarrow>
          Some (Silent, go_worker i W_Wait
            (p\<lparr>tp_queueMutex := None, tp_condition := insert i (tp_condition p)\<rparr>))
      | W_Wait \<Rightarrow>
          if i \<notin> tp_condition p \<and> tp_queueMutex p = None
          then Some (Silent, go_worker i W_Test (p\<lparr>tp_queueMutex := Some (Worker i)\<rparr>))
          else None
      | W_Check \<Rightarrow>
          if tp_stop p \<and> tp_tasks p = []
          then Some (Silent, go_worker i W_Return p)
          else Some (Silent, go_worker i W_Take p)
      | W_Return \<Rightarrow> Some (Silent, go_worker i W_Done (p\<lparr>tp_queueMutex := None\<rparr>))
      | W_Take \<Rightarrow>
          (case tp_tasks p of
             [] \<Rightarrow> None
           | t # ts \<Rightarrow> Some (Took i t, go_worker i (W_Unlock t) (p\<lparr>tp_tasks := ts\<rparr>)))
      | W_Unlock t \<Rightarrow> Some (Silent, go_worker i (W_Name t) (p\<lparr>tp_queueMutex := None\<rparr>))
      | W_Name t \<Rightarrow> Some (Printed i (workerName i), go_worker i (W_Print t) p)
      | W_Print t \<Rightarrow> Some (Printed i ('' picked a request'' @ endl), go_worker i (W_Call t) p)
      | W_Call t \<Rightarrow> Some (Began i t, go_worker i (W_Running t) p)
      | W_Running t \<Rightarrow> Some (Finished i t, go_worker i W_Lock p)
      | W_Done \<Rightarrow> None)"

abbreviation go_caller :: "nat \<Rightarrow> 't caller_point \<Rightarrow> 't pool \<Rightarrow> 't pool" where
  "go_caller j pc p \<equiv> p\<lparr>tp_callers := (tp_callers p)[j := pc]\<rparr>"

text \<open>
  \<open>notify_one\<close> wakes one of the blocked threads; which one is the scheduler's choice \<open>i\<close>. With no
  thread blocked it does nothing.
\<close>

definition enqueue_step :: "nat \<Rightarrow> nat \<Rightarrow> 't pool \<Rightarrow> ('t pool_event \<times> 't pool) option" where
  "enqueue_step j i p =
     (case tp_callers p ! j of
        E_Idle \<Rightarrow> None
      | E_Lock t \<Rightarrow>
          if tp_queueMutex p = None
          then Some (Silent, go_caller j (E_Size t) (p\<lparr>tp_queueMutex := Some (Caller j)\<rparr>))
          else None
      | E_Size t \<Rightarrow>
          if tp_maxQueueSize p \<le> length (tp_tasks p)
          then Some (Silent, go_caller j E_Refuse p)
          else Some (Silent, go_caller j (E_Push t) p)
      | E_Refuse \<Rightarrow> Some (Returned j False, go_caller j E_Idle (p\<lparr>tp_queueMutex := None\<rparr>))
      | E_Push t \<Rightarrow> Some (Pushed j t, go_caller j E_Unlock (p\<lparr>tp_tasks := tp_tasks p @ [t]\<rparr>))
      | E_Unlock \<Rightarrow> Some (Silent, go_caller j E_Notify (p\<lparr>tp_queueMutex := None\<rparr>))
      | E_Notify \<Rightarrow>
          if tp_condition p = {} \<or> i \<in> tp_condition p
          then Some (Silent, go_caller j E_Return (p\<lparr>tp_condition := tp_condition p - {i}\<rparr>))
          else None
      | E_Return \<Rightarrow> Some (Returned j True, go_caller j E_Idle p))"

definition getRequestNumber :: "'t pool \<Rightarrow> int \<times> 't pool" where
  "getRequestNumber p =
     (let n = tp_requestCounter p + 1 in (sint n, p\<lparr>tp_requestCounter := n\<rparr>))"

definition destructor_step :: "'t pool \<Rightarrow> ('t pool_event \<times> 't pool) option" where
  "destructor_step p =
     (case tp_destructor p of
        D_Alive \<Rightarrow> None
      | D_Lock \<Rightarrow>
          if tp_queueMutex p = None
          then Some (Silent, p\<lparr>tp_queueMutex := Some Destroyer, tp_destructor := D_Stop\<rparr>)
          else None
      | D_Stop \<Rightarrow> Some (Silent, p\<lparr>tp_stop := True, tp_destructor := D_Unlock\<rparr>)
      | D_Unlock \<Rightarrow> Some (Silent, p\<lparr>tp_queueMutex := None, tp_destructor := D_Notify\<rparr>)
      | D_Notify \<Rightarrow> Some (Silent, p\<lparr>tp_condition := {}, tp_destructor := D_Join 0\<rparr>)
      | D_Join k \<Rightarrow>
          if k < length (tp_workers p)
          then if tp_workers p ! k = W_Done then Some (Silent, p\<lparr>tp_destructor := D_Join (k + 1)\<rparr>)
               else None
          else Some (Silent, p\<lparr>tp_destructor := D_Done\<rparr>)
      | D_Done \<Rightarrow> None)"

section \<open>The system\<close>

text \<open>Who acts next: the scheduler, the callers and the running tasks decide.\<close>

datatype 't action =
    Spawn
  | Work nat
  | Spurious nat           \<comment> \<open>a spurious wake-up of a blocked worker\<close>
  | Number nat             \<comment> \<open>the task a worker runs calls \<open>getRequestNumber\<close>\<close>
  | Enqueue nat 't         \<comment> \<open>a caller calls \<open>enqueue\<close>\<close>
  | Call nat nat           \<comment> \<open>a caller moves on, its notification going to the given worker\<close>
  | Destroy                \<comment> \<open>the owner destroys the pool\<close>
  | Destruct

definition constructed :: "'t pool \<Rightarrow> bool" where
  "constructed p \<longleftrightarrow> length (tp_workers p) = tp_threadCount p"

definition running :: "'t worker_point \<Rightarrow> bool" where
  "running pc = (case pc of W_Running _ \<Rightarrow> True | _ \<Rightarrow> False)"

fun pool_act :: "('t action, 't pool_event, 't pool) action_system" where
  "pool_act Spawn p = spawn_worker p"
| "pool_act (Work i) p = (if i < length (tp_workers p) then worker_step i p else None)"
| "pool_act (Spurious i) p =
     (if i \<in> tp_condition p then Some (Silent, p\<lparr>tp_condition := tp_condition p - {i}\<rparr>) else None)"
| "pool_act (Number i) p =
     (if i < length (tp_workers p) \<and> running (tp_workers p ! i)
      then (case getRequestNumber p of (n, p') \<Rightarrow> Some (Numbered i n, p'))
      else None)"
| "pool_act (Enqueue j t) p =
     (if constructed p \<and> tp_destructor p = D_Alive \<and> j < length (tp_callers p) \<and> tp_callers p ! j = E_Idle
      then Some (Silent, go_caller j (E_Lock t) p)
      else None)"
| "pool_act (Call j i) p = (if j < length (tp_callers p) then enqueue_step j i p else None)"
| "pool_act Destroy p =
     (if constructed p \<and> tp_destructor p = D_Alive \<and> (\<forall>pc \<in> set (tp_callers p). pc = E_Idle)
      then Some (Silent, p\<lparr>tp_destructor := D_Lock\<rparr>)
      else None)"
| "pool_act Destruct p = destructor_step p"


section \<open>Mutual exclusion\<close>

definition worker_locked :: "'t worker_point \<Rightarrow> bool" where
  "worker_locked pc = (case pc of
     W_Test \<Rightarrow> True | W_Block \<Rightarrow> True | W_Check \<Rightarrow> True | W_Return \<Rightarrow> True | W_Take \<Rightarrow> True
   | W_Unlock _ \<Rightarrow> True | _ \<Rightarrow> False)"

definition caller_locked :: "'t caller_point \<Rightarrow> bool" where
  "caller_locked pc = (case pc of E_Size _ \<Rightarrow> True | E_Refuse \<Rightarrow> True | E_Push _ \<Rightarrow> True
   | E_Unlock \<Rightarrow> True | _ \<Rightarrow> False)"

definition destructor_locked :: "destructor_point \<Rightarrow> bool" where
  "destructor_locked pc = (case pc of D_Stop \<Rightarrow> True | D_Unlock \<Rightarrow> True | _ \<Rightarrow> False)"

lemmas locked_defs = worker_locked_def caller_locked_def destructor_locked_def

text \<open>The threads between a lock and the matching unlock.\<close>

fun holds :: "'t pool \<Rightarrow> thread \<Rightarrow> bool" where
  "holds p (Worker i) \<longleftrightarrow> i < length (tp_workers p) \<and> worker_locked (tp_workers p ! i)"
| "holds p (Caller j) \<longleftrightarrow> j < length (tp_callers p) \<and> caller_locked (tp_callers p ! j)"
| "holds p Destroyer \<longleftrightarrow> destructor_locked (tp_destructor p)"

definition mutex_inv :: "'t pool \<Rightarrow> bool" where
  "mutex_inv p \<longleftrightarrow> (\<forall>th. holds p th \<longleftrightarrow> tp_queueMutex p = Some th)"

text \<open>One enabled action, by the thread and its point.\<close>

lemmas step_defs = worker_step_def enqueue_step_def destructor_step_def spawn_worker_def
  getRequestNumber_def Let_def

lemma worker_frame:
  assumes "worker_step i p = Some (e, p')"
  shows "tp_callers p' = tp_callers p" "tp_destructor p' = tp_destructor p" "tp_stop p' = tp_stop p"
    "tp_maxQueueSize p' = tp_maxQueueSize p" "tp_threadCount p' = tp_threadCount p"
    "tp_requestCounter p' = tp_requestCounter p" "length (tp_workers p') = length (tp_workers p)"
    "k \<noteq> i \<Longrightarrow> tp_workers p' ! k = tp_workers p ! k"
  using assms by (cases "tp_workers p ! i"; auto simp: worker_step_def split: if_splits list.splits)+

lemma enqueue_frame:
  assumes "enqueue_step j i p = Some (e, p')"
  shows "tp_workers p' = tp_workers p" "tp_destructor p' = tp_destructor p" "tp_stop p' = tp_stop p"
    "tp_maxQueueSize p' = tp_maxQueueSize p" "tp_threadCount p' = tp_threadCount p"
    "tp_requestCounter p' = tp_requestCounter p" "length (tp_callers p') = length (tp_callers p)"
    "k \<noteq> j \<Longrightarrow> tp_callers p' ! k = tp_callers p ! k"
  using assms by (cases "tp_callers p ! j"; auto simp: enqueue_step_def split: if_splits)+

lemma destructor_frame:
  assumes "destructor_step p = Some (e, p')"
  shows "tp_workers p' = tp_workers p" "tp_callers p' = tp_callers p" "tp_tasks p' = tp_tasks p"
    "tp_maxQueueSize p' = tp_maxQueueSize p" "tp_threadCount p' = tp_threadCount p"
    "tp_requestCounter p' = tp_requestCounter p" "e = Silent"
  using assms by (auto simp: destructor_step_def split: destructor_point.splits if_splits)

text \<open>A thread that moves keeps the lock discipline if it does for itself.\<close>

lemma mutex_inv_move:
  assumes "mutex_inv p"
    and "\<And>th'. th' \<noteq> th \<Longrightarrow> holds p' th' = holds p th'"
    and "holds p th = (tp_queueMutex p = Some th) \<Longrightarrow>
      holds p' th = (tp_queueMutex p' = Some th) \<and>
      (tp_queueMutex p' = tp_queueMutex p \<or>
       tp_queueMutex p = None \<and> tp_queueMutex p' = Some th \<or> tp_queueMutex p = Some th \<and> tp_queueMutex p' = None)"
  shows "mutex_inv p'"
proof -
  have h: "holds p th' = (tp_queueMutex p = Some th')" for th' using assms(1) by (simp add: mutex_inv_def)
  have "holds p' th' = (tp_queueMutex p' = Some th')" for th'
  proof (cases "th' = th")
    case True
    then show ?thesis using assms(3) [OF h] by simp
  next
    case False
    have "holds p' th' = (tp_queueMutex p = Some th')" using assms(2) [OF False] h [of th'] by simp
    then show ?thesis using assms(3) [OF h] False by (elim conjE disjE) simp_all
  qed
  then show ?thesis by (simp add: mutex_inv_def)
qed

lemma mutex_inv_act:
  assumes "mutex_inv p" "pool_act a p = Some (e, p')"
  shows "mutex_inv p'"
proof (cases a)
  case Spawn
  then have "holds p' th = holds p th" "tp_queueMutex p' = tp_queueMutex p" for th
    using assms(2) by (cases th; auto simp: spawn_worker_def nth_append worker_locked_def split: if_splits)+
  then show ?thesis using assms(1) by (simp add: mutex_inv_def)
next
  case (Work i)
  then have s: "i < length (tp_workers p)" "worker_step i p = Some (e, p')"
    using assms(2) by (auto split: if_splits)
  show ?thesis
  proof (rule mutex_inv_move [OF assms(1), of "Worker i"])
    fix th' assume "th' \<noteq> Worker i"
    then show "holds p' th' = holds p th'" using worker_frame [OF s(2)] by (cases th') auto
  next
    assume "holds p (Worker i) = (tp_queueMutex p = Some (Worker i))"
    then show "holds p' (Worker i) = (tp_queueMutex p' = Some (Worker i)) \<and>
      (tp_queueMutex p' = tp_queueMutex p \<or>
       tp_queueMutex p = None \<and> tp_queueMutex p' = Some (Worker i) \<or>
       tp_queueMutex p = Some (Worker i) \<and> tp_queueMutex p' = None)"
      using s by (cases "tp_workers p ! i") (auto simp: worker_step_def worker_locked_def split: if_splits list.splits)
  qed
next
  case (Call j i)
  then have s: "j < length (tp_callers p)" "enqueue_step j i p = Some (e, p')"
    using assms(2) by (auto split: if_splits)
  show ?thesis
  proof (rule mutex_inv_move [OF assms(1), of "Caller j"])
    fix th' assume "th' \<noteq> Caller j"
    then show "holds p' th' = holds p th'" using enqueue_frame [OF s(2)] by (cases th') auto
  next
    assume "holds p (Caller j) = (tp_queueMutex p = Some (Caller j))"
    then show "holds p' (Caller j) = (tp_queueMutex p' = Some (Caller j)) \<and>
      (tp_queueMutex p' = tp_queueMutex p \<or>
       tp_queueMutex p = None \<and> tp_queueMutex p' = Some (Caller j) \<or>
       tp_queueMutex p = Some (Caller j) \<and> tp_queueMutex p' = None)"
      using s by (cases "tp_callers p ! j") (auto simp: enqueue_step_def caller_locked_def split: if_splits)
  qed
next
  case (Enqueue j t)
  show ?thesis
  proof (rule mutex_inv_move [OF assms(1), of "Caller j"])
    fix th' assume "th' \<noteq> Caller j"
    then show "holds p' th' = holds p th'" using assms(2) Enqueue by (cases th') (auto split: if_splits)
  qed (use assms(2) Enqueue in \<open>auto simp: caller_locked_def split: if_splits\<close>)
next
  case Destruct
  then have s: "destructor_step p = Some (e, p')" using assms(2) by simp
  show ?thesis
  proof (rule mutex_inv_move [OF assms(1), of Destroyer])
    fix th' assume "th' \<noteq> Destroyer"
    then show "holds p' th' = holds p th'" using destructor_frame [OF s] by (cases th') auto
  qed (use s in \<open>auto simp: destructor_step_def destructor_locked_def split: destructor_point.splits if_splits\<close>)
next
  case Destroy
  have "holds p' th = holds p th" "tp_queueMutex p' = tp_queueMutex p" for th
    using assms(2) Destroy by (cases th; auto simp: destructor_locked_def split: if_splits)+
  then show ?thesis using assms(1) by (simp add: mutex_inv_def)
next
  case (Spurious i)
  have "holds p' th = holds p th" "tp_queueMutex p' = tp_queueMutex p" for th
    using assms(2) Spurious by (cases th; auto split: if_splits)+
  then show ?thesis using assms(1) by (simp add: mutex_inv_def)
next
  case (Number i)
  have "holds p' th = holds p th" "tp_queueMutex p' = tp_queueMutex p" for th
    using assms(2) Number by (cases th; auto simp: getRequestNumber_def Let_def split: if_splits)+
  then show ?thesis using assms(1) by (simp add: mutex_inv_def)
qed

end
