(* ===== verification/Pool_Invariants.thy ===== *)
theory Pool_Invariants
  imports Thread_Pool
begin

text \<open>
  What holds in every reachable state of the thread pool: the mutex protects the queue, the facts each
  thread relies on at its point, the phases of the destructor, and the two history facts (what was put
  into the queue, what came out, what was executed). The contract \<open>event_invariant\<close> is fulfilled by the
  pool's actions at the end.
\<close>

section \<open>The state invariant\<close>

text \<open>What a worker knows of the flag and the queue at its point.\<close>

fun worker_knows :: "bool \<Rightarrow> 't list \<Rightarrow> 't worker_point \<Rightarrow> bool" where
  "worker_knows stop ts W_Block \<longleftrightarrow> \<not> stop \<and> ts = []"
| "worker_knows stop ts W_Check \<longleftrightarrow> stop \<or> ts \<noteq> []"
| "worker_knows stop ts W_Take \<longleftrightarrow> ts \<noteq> []"
| "worker_knows stop ts W_Return \<longleftrightarrow> stop \<and> ts = []"
| "worker_knows stop ts W_Done \<longleftrightarrow> stop \<and> ts = []"
| "worker_knows stop ts _ \<longleftrightarrow> True"

definition workers_inv :: "'t pool \<Rightarrow> bool" where
  "workers_inv p \<longleftrightarrow>
     (\<forall>i < length (tp_workers p). worker_knows (tp_stop p) (tp_tasks p) (tp_workers p ! i)) \<and>
     (\<forall>i \<in> tp_condition p. i < length (tp_workers p) \<and> tp_workers p ! i = W_Wait) \<and>
     length (tp_workers p) \<le> tp_threadCount p"

fun caller_knows :: "nat \<Rightarrow> 't list \<Rightarrow> 't caller_point \<Rightarrow> bool" where
  "caller_knows limit ts E_Refuse \<longleftrightarrow> limit \<le> length ts"
| "caller_knows limit ts (E_Push _) \<longleftrightarrow> length ts < limit"
| "caller_knows limit ts _ \<longleftrightarrow> True"

definition callers_inv :: "'t pool \<Rightarrow> bool" where
  "callers_inv p \<longleftrightarrow>
     length (tp_tasks p) \<le> tp_maxQueueSize p \<and>
     (\<forall>j < length (tp_callers p). caller_knows (tp_maxQueueSize p) (tp_tasks p) (tp_callers p ! j))"

definition stopped :: "destructor_point \<Rightarrow> bool" where
  "stopped d \<longleftrightarrow> d \<noteq> D_Alive \<and> d \<noteq> D_Lock \<and> d \<noteq> D_Stop"

text \<open>How far the destructor has joined.\<close>

fun joined :: "'t worker_point list \<Rightarrow> destructor_point \<Rightarrow> bool" where
  "joined ws (D_Join k) \<longleftrightarrow> k \<le> length ws \<and> (\<forall>i < k. ws ! i = W_Done)"
| "joined ws D_Done \<longleftrightarrow> (\<forall>i < length ws. ws ! i = W_Done)"
| "joined ws _ \<longleftrightarrow> True"

definition notified_all :: "destructor_point \<Rightarrow> bool" where
  "notified_all d \<longleftrightarrow> stopped d \<and> d \<noteq> D_Unlock \<and> d \<noteq> D_Notify"

definition destructor_inv :: "'t pool \<Rightarrow> bool" where
  "destructor_inv p \<longleftrightarrow>
     tp_stop p = stopped (tp_destructor p) \<and>
     (tp_destructor p \<noteq> D_Alive \<longrightarrow> constructed p \<and> (\<forall>pc \<in> set (tp_callers p). pc = E_Idle)) \<and>
     (notified_all (tp_destructor p) \<longrightarrow> tp_condition p = {}) \<and>
     joined (tp_workers p) (tp_destructor p)"

definition pool_inv :: "'t pool \<Rightarrow> bool" where
  "pool_inv p \<longleftrightarrow> mutex_inv p \<and> workers_inv p \<and> callers_inv p \<and> destructor_inv p"

lemma pool_inv_parts:
  assumes "pool_inv p"
  shows "mutex_inv p" "workers_inv p" "callers_inv p" "destructor_inv p"
  using assms by (simp_all add: pool_inv_def)

lemma ThreadPool_inv: "pool_inv (ThreadPool n m)"
proof -
  have "holds (ThreadPool n m) th = (tp_queueMutex (ThreadPool n m) = Some th)" for th
    by (cases th) (simp_all add: ThreadPool_def locked_defs)
  then have "mutex_inv (ThreadPool n m)" unfolding mutex_inv_def by blast
  moreover have "workers_inv (ThreadPool n m)" "callers_inv (ThreadPool n m)" "destructor_inv (ThreadPool n m)"
    by (simp_all add: ThreadPool_def workers_inv_def callers_inv_def destructor_inv_def stopped_def notified_all_def)
  ultimately show ?thesis by (simp add: pool_inv_def)
qed

text \<open>A thread that does not hold the mutex relies on nothing that the holder can change.\<close>

lemma others_unlocked:
  assumes "mutex_inv p" "holds p th"
  shows "i < length (tp_workers p) \<Longrightarrow> th \<noteq> Worker i \<Longrightarrow> \<not> worker_locked (tp_workers p ! i)"
    "j < length (tp_callers p) \<Longrightarrow> th \<noteq> Caller j \<Longrightarrow> \<not> caller_locked (tp_callers p ! j)"
proof -
  have m: "tp_queueMutex p = Some th" using assms by (simp add: mutex_inv_def)
  show "i < length (tp_workers p) \<Longrightarrow> th \<noteq> Worker i \<Longrightarrow> \<not> worker_locked (tp_workers p ! i)"
    using assms(1) m unfolding mutex_inv_def by (metis holds.simps(1) option.inject)
  show "j < length (tp_callers p) \<Longrightarrow> th \<noteq> Caller j \<Longrightarrow> \<not> caller_locked (tp_callers p ! j)"
    using assms(1) m unfolding mutex_inv_def by (metis holds.simps(2) option.inject)
qed

lemma unlocked_knows:
  "\<not> worker_locked pc \<Longrightarrow> pc \<noteq> W_Done \<Longrightarrow> worker_knows stop ts pc"
  "\<not> caller_locked pc' \<Longrightarrow> caller_knows limit ts pc'"
  by (cases pc; simp add: worker_locked_def) (cases pc'; simp add: caller_locked_def)

text \<open>Nobody has left while there is work, or before the flag is set.\<close>

lemma done_only_drained:
  assumes "workers_inv p" "i < length (tp_workers p)" "\<not> tp_stop p \<or> tp_tasks p \<noteq> []"
  shows "tp_workers p ! i \<noteq> W_Done"
  using assms unfolding workers_inv_def by (metis worker_knows.simps(5))

text \<open>The only actions that touch the queue or the flag are done by the holder of the mutex.\<close>

lemma worker_take:
  assumes "worker_step i p = Some (e, p')"
  shows "(\<exists>t. tp_workers p ! i = W_Take \<and> tp_tasks p = t # tp_tasks p' \<and> e = Took i t \<and>
      p' = go_worker i (W_Unlock t) (p\<lparr>tp_tasks := tp_tasks p'\<rparr>)) \<or>
    tp_tasks p' = tp_tasks p \<and> tp_workers p ! i \<noteq> W_Take \<and> (\<forall>t. e \<noteq> Took i t)"
  using assms
  by (cases "tp_workers p ! i") (auto simp: worker_step_def split: if_splits list.splits)

lemma worker_knows_step:
  assumes "worker_step i p = Some (e, p')" "i < length (tp_workers p)"
    "worker_knows (tp_stop p) (tp_tasks p) (tp_workers p ! i)"
  shows "worker_knows (tp_stop p') (tp_tasks p') (tp_workers p' ! i)"
    "tp_workers p ! i = W_Take \<longrightarrow> tp_tasks p \<noteq> []"
    "tp_condition p' = tp_condition p \<or>
      tp_condition p' = insert i (tp_condition p) \<and> tp_workers p' ! i = W_Wait \<and> tp_workers p ! i = W_Block"
    "i \<in> tp_condition p \<Longrightarrow> tp_workers p ! i \<noteq> W_Wait"
    "tp_workers p ! i \<noteq> W_Done"
  using assms
  by (cases "tp_workers p ! i"; auto simp: worker_step_def split: if_splits list.splits)+

lemma workers_inv_worker:
  assumes inv: "mutex_inv p" "workers_inv p"
    and i: "i < length (tp_workers p)" and s: "worker_step i p = Some (e, p')"
  shows "workers_inv p'"
proof -
  note frame = worker_frame [OF s]
  have k: "worker_knows (tp_stop p) (tp_tasks p) (tp_workers p ! k)" if "k < length (tp_workers p)" for k
    using inv(2) that by (simp add: workers_inv_def)
  note own = worker_knows_step [OF s i k [OF i]]
  have "worker_knows (tp_stop p') (tp_tasks p') (tp_workers p' ! k)" if "k < length (tp_workers p')" for k
  proof (cases "k = i")
    case True
    then show ?thesis using own(1) by simp
  next
    case False
    then have same: "tp_workers p' ! k = tp_workers p ! k" "k < length (tp_workers p)"
      using frame that by auto
    show ?thesis
    proof (cases "tp_workers p ! i = W_Take")
      case True
      then have "holds p (Worker i)" using i by (simp add: worker_locked_def)
      from others_unlocked(1) [OF inv(1) this same(2)] False have "\<not> worker_locked (tp_workers p ! k)" by simp
      moreover have "tp_workers p ! k \<noteq> W_Done"
        using done_only_drained [OF inv(2) same(2)] own(2) True by simp
      ultimately show ?thesis using same unlocked_knows(1) by metis
    next
      case False
      then have "tp_tasks p' = tp_tasks p" using worker_take [OF s] by blast
      then show ?thesis using k [OF same(2)] same frame by simp
    qed
  qed
  moreover have "c < length (tp_workers p') \<and> tp_workers p' ! c = W_Wait" if "c \<in> tp_condition p'" for c
  proof (cases "c \<in> tp_condition p")
    case True
    then have c: "c < length (tp_workers p)" "tp_workers p ! c = W_Wait"
      using inv(2) by (simp_all add: workers_inv_def)
    then have "c \<noteq> i" using own(4) True by auto
    then show ?thesis using c frame by simp
  next
    case False
    then have "c = i" "tp_workers p' ! i = W_Wait" using that own(3) by auto
    then show ?thesis using i frame by simp
  qed
  ultimately show ?thesis using inv(2) frame by (simp add: workers_inv_def)
qed


lemma callers_idle_stopped:
  assumes "destructor_inv p" "tp_stop p" "j < length (tp_callers p)"
  shows "tp_callers p ! j = E_Idle"
  using assms by (auto simp: destructor_inv_def stopped_def split: if_splits)

text \<open>The same for the callers: the queue grows only by the caller at its push, below the limit.\<close>

lemma caller_push:
  assumes "enqueue_step j i p = Some (e, p')"
  shows "(\<exists>t. tp_callers p ! j = E_Push t \<and> e = Pushed j t \<and>
      p' = go_caller j E_Unlock (p\<lparr>tp_tasks := tp_tasks p @ [t]\<rparr>)) \<or>
    tp_tasks p' = tp_tasks p \<and> (\<forall>t. tp_callers p ! j \<noteq> E_Push t) \<and> (\<forall>t. e \<noteq> Pushed j t)"
    "tp_condition p' \<subseteq> tp_condition p"
  using assms
  by (cases "tp_callers p ! j"; auto simp: enqueue_step_def split: if_splits)+

lemma caller_knows_step:
  assumes "enqueue_step j i p = Some (e, p')" "j < length (tp_callers p)"
    "caller_knows (tp_maxQueueSize p) (tp_tasks p) (tp_callers p ! j)"
  shows "caller_knows (tp_maxQueueSize p') (tp_tasks p') (tp_callers p' ! j)"
    "length (tp_tasks p) \<le> tp_maxQueueSize p \<Longrightarrow> length (tp_tasks p') \<le> tp_maxQueueSize p"
  using assms
  by (cases "tp_callers p ! j"; auto simp: enqueue_step_def split: if_splits)+

lemma workers_inv_caller:
  assumes inv: "mutex_inv p" "workers_inv p" "destructor_inv p"
    and j: "j < length (tp_callers p)" and s: "enqueue_step j i p = Some (e, p')"
  shows "workers_inv p'"
proof -
  note frame = enqueue_frame [OF s]
  have k: "worker_knows (tp_stop p) (tp_tasks p) (tp_workers p ! k)" if "k < length (tp_workers p)" for k
    using inv(2) that by (simp add: workers_inv_def)
  have "worker_knows (tp_stop p') (tp_tasks p') (tp_workers p ! k)" if "k < length (tp_workers p)" for k
  proof (cases "\<exists>t. tp_callers p ! j = E_Push t")
    case True
    then have "holds p (Caller j)" using j by (auto simp: caller_locked_def)
    then have "\<not> worker_locked (tp_workers p ! k)" using others_unlocked(1) [OF inv(1) _ that] by blast
    moreover have "\<not> tp_stop p" using True callers_idle_stopped [OF inv(3) _ j] by force
    then have "tp_workers p ! k \<noteq> W_Done" using done_only_drained [OF inv(2) that] by blast
    ultimately show ?thesis by (rule unlocked_knows(1))
  next
    case False
    then have "tp_tasks p' = tp_tasks p" using caller_push(1) [OF s] by blast
    then show ?thesis using k [OF that] frame by simp
  qed
  then show ?thesis
    using inv(2) frame caller_push(2) [OF s] by (auto simp: workers_inv_def)
qed

lemma workers_inv_destructor:
  assumes inv: "mutex_inv p" "workers_inv p" "destructor_inv p"
    and s: "destructor_step p = Some (e, p')"
  shows "workers_inv p'"
proof -
  note frame = destructor_frame [OF s]
  have c: "tp_condition p' \<subseteq> tp_condition p"
    using s by (auto simp: destructor_step_def split: destructor_point.splits if_splits)
  have "worker_knows (tp_stop p') (tp_tasks p') (tp_workers p ! k)" if "k < length (tp_workers p)" for k
  proof (cases "tp_destructor p = D_Stop")
    case True
    then have "holds p Destroyer" by (simp add: destructor_locked_def)
    then have "\<not> worker_locked (tp_workers p ! k)" using others_unlocked(1) [OF inv(1) _ that] by blast
    moreover have "\<not> tp_stop p" using True inv(3) by (simp add: destructor_inv_def stopped_def)
    then have "tp_workers p ! k \<noteq> W_Done" using done_only_drained [OF inv(2) that] by blast
    ultimately show ?thesis by (rule unlocked_knows(1))
  next
    case False
    then have "tp_stop p' = tp_stop p"
      using s by (auto simp: destructor_step_def split: destructor_point.splits if_splits)
    then show ?thesis using inv(2) that frame by (simp add: workers_inv_def)
  qed
  then show ?thesis using inv(2) frame c by (auto simp: workers_inv_def)
qed

lemma workers_inv_act:
  assumes inv: "pool_inv p" and a: "pool_act a p = Some (e, p')"
  shows "workers_inv p'"
proof -
  note parts = pool_inv_parts [OF inv]
  show ?thesis
  proof (cases a)
    case (Work i)
    then show ?thesis using a workers_inv_worker [OF parts(1,2)] by (auto split: if_splits)
  next
    case (Call j i)
    then show ?thesis using a workers_inv_caller [OF parts(1,2,4)] by (auto split: if_splits)
  next
    case Destruct
    then show ?thesis using a workers_inv_destructor [OF parts(1,2,4)] by auto
  next
    case Spawn
    then show ?thesis using a parts(2)
      by (force simp: spawn_worker_def workers_inv_def nth_append split: if_splits)
  qed (use a parts(2) in \<open>auto simp: workers_inv_def getRequestNumber_def Let_def split: if_splits\<close>)
qed

text \<open>A caller's facts survive a change of the queue by another holder of the mutex.\<close>

lemma callers_inv_holder:
  assumes "mutex_inv p" "holds p th" "length (tp_tasks p') \<le> tp_maxQueueSize p'"
    "length (tp_callers p') = length (tp_callers p)"
    "\<And>j. j < length (tp_callers p) \<Longrightarrow> th \<noteq> Caller j \<Longrightarrow> tp_callers p' ! j = tp_callers p ! j"
    "\<And>j. j < length (tp_callers p) \<Longrightarrow> th = Caller j \<Longrightarrow>
      caller_knows (tp_maxQueueSize p') (tp_tasks p') (tp_callers p' ! j)"
  shows "callers_inv p'"
  unfolding callers_inv_def using assms others_unlocked(2) [OF assms(1,2)] unlocked_knows(2) by metis

lemma callers_inv_act:
  assumes inv: "pool_inv p" and a: "pool_act a p = Some (e, p')"
  shows "callers_inv p'"
proof -
  note parts = pool_inv_parts [OF inv]
  show ?thesis
  proof (cases a)
    case (Work i)
    then have s: "i < length (tp_workers p)" "worker_step i p = Some (e, p')" using a by (auto split: if_splits)
    note frame = worker_frame [OF s(2)]
    show ?thesis
    proof (cases "tp_workers p ! i = W_Take")
      case True
      then have h: "holds p (Worker i)" using s by (simp add: worker_locked_def)
      have "length (tp_tasks p') \<le> length (tp_tasks p)" using worker_take [OF s(2)] by force
      then have "length (tp_tasks p') \<le> tp_maxQueueSize p'"
        using parts(3) frame(4) by (simp add: callers_inv_def)
      then show ?thesis using callers_inv_holder [OF parts(1) h] frame(1) by simp
    next
      case False
      then have "tp_tasks p' = tp_tasks p" using worker_take [OF s(2)] by blast
      then show ?thesis using parts(3) frame by (simp add: callers_inv_def)
    qed
  next
    case (Call j i)
    then have s: "j < length (tp_callers p)" "enqueue_step j i p = Some (e, p')" using a by (auto split: if_splits)
    note frame = enqueue_frame [OF s(2)]
    have k: "length (tp_tasks p) \<le> tp_maxQueueSize p"
      "k < length (tp_callers p) \<Longrightarrow> caller_knows (tp_maxQueueSize p) (tp_tasks p) (tp_callers p ! k)" for k
      using parts(3) by (simp_all add: callers_inv_def)
    note own = caller_knows_step [OF s(2,1) k(2) [OF s(1)]]
    show ?thesis
    proof (cases "\<exists>t. tp_callers p ! j = E_Push t")
      case True
      then have h: "holds p (Caller j)" using s by (auto simp: caller_locked_def)
      show ?thesis
        by (rule callers_inv_holder [OF parts(1) h]) (use own k(1) frame in simp_all)
    next
      case False
      then have same: "tp_tasks p' = tp_tasks p" using caller_push(1) [OF s(2)] by blast
      have "caller_knows (tp_maxQueueSize p') (tp_tasks p') (tp_callers p' ! k)" if "k < length (tp_callers p)" for k
        using own(1) k(2) [OF that] frame same by (cases "k = j") simp_all
      then show ?thesis using k(1) same frame by (simp add: callers_inv_def)
    qed
  next
    case (Enqueue j t)
    then have p': "p' = go_caller j (E_Lock t) p" using a by (simp split: if_splits)
    have "caller_knows (tp_maxQueueSize p) (tp_tasks p) ((tp_callers p)[j := E_Lock t] ! k)"
      if "k < length (tp_callers p)" for k
      using parts(3) that by (cases "k = j") (auto simp: callers_inv_def)
    then show ?thesis using parts(3) unfolding callers_inv_def p' by simp
  next
    case Destruct
    then show ?thesis using a parts(3) destructor_frame [of p e p'] by (simp add: callers_inv_def)
  qed (use a parts(3) in \<open>auto simp: callers_inv_def getRequestNumber_def spawn_worker_def Let_def split: if_splits\<close>)
qed

lemma joined_workers:
  assumes "joined ws d" "length ws' = length ws" "\<And>k. k < length ws \<Longrightarrow> ws ! k = W_Done \<Longrightarrow> ws' ! k = W_Done"
  shows "joined ws' d"
  using assms by (cases d) auto

lemma destructor_inv_act:
  assumes inv: "pool_inv p" and a: "pool_act a p = Some (e, p')"
  shows "destructor_inv p'"
proof -
  note parts = pool_inv_parts [OF inv]
  show ?thesis
  proof (cases a)
    case (Work i)
    then have s: "i < length (tp_workers p)" "worker_step i p = Some (e, p')" using a by (auto split: if_splits)
    note frame = worker_frame [OF s(2)]
    have k: "worker_knows (tp_stop p) (tp_tasks p) (tp_workers p ! i)"
      using parts(2) s(1) by (simp add: workers_inv_def)
    note own = worker_knows_step [OF s(2,1) k]
    have "tp_workers p' ! k = W_Done" if "tp_workers p ! k = W_Done" for k
      using that own(5) frame(8) [of k] by (cases "k = i") auto
    then have "joined (tp_workers p') (tp_destructor p')"
      using joined_workers parts(4) frame(2,7) unfolding destructor_inv_def by metis
    moreover have "tp_condition p' = {}" if "notified_all (tp_destructor p')"
    proof -
      have "tp_stop p" using that parts(4) frame(2) by (auto simp: notified_all_def destructor_inv_def)
      then have "tp_workers p ! i \<noteq> W_Block" using k by auto
      then show ?thesis using own(3) that parts(4) frame(2) by (auto simp: destructor_inv_def)
    qed
    ultimately show ?thesis using parts(4) frame by (simp add: destructor_inv_def constructed_def)
  next
    case (Call j i)
    then have s: "j < length (tp_callers p)" "enqueue_step j i p = Some (e, p')" using a by (auto split: if_splits)
    note frame = enqueue_frame [OF s(2)]
    have "tp_callers p ! j \<noteq> E_Idle" using s(2) by (auto simp: enqueue_step_def)
    then have alive: "tp_destructor p = D_Alive"
      using parts(4) s(1) nth_mem by (force simp: destructor_inv_def)
    then show ?thesis using parts(4) frame by (simp add: destructor_inv_def notified_all_def stopped_def)
  next
    case Spawn
    then have "tp_destructor p = D_Alive" "tp_destructor p' = D_Alive" "tp_stop p' = tp_stop p"
      using a parts(4) by (auto simp: spawn_worker_def destructor_inv_def constructed_def split: if_splits)
    then show ?thesis using parts(4) by (simp add: destructor_inv_def notified_all_def stopped_def)
  next
    case Destruct
    then have s: "destructor_step p = Some (e, p')" using a by simp
    note frame = destructor_frame [OF s]
    have "tp_stop p' = stopped (tp_destructor p')" "tp_destructor p \<noteq> D_Alive"
      "notified_all (tp_destructor p') \<longrightarrow> tp_condition p' = {}"
      "joined (tp_workers p) (tp_destructor p')"
      using s parts(4)
      by (cases "tp_destructor p";
          auto simp: destructor_step_def destructor_inv_def stopped_def notified_all_def less_Suc_eq
            split: if_splits)+
    then show ?thesis using parts(4) frame by (simp add: destructor_inv_def constructed_def)
  next
    case (Spurious i)
    then have "p' = p\<lparr>tp_condition := tp_condition p - {i}\<rparr>" using a by (simp split: if_splits)
    then show ?thesis using parts(4) by (simp add: destructor_inv_def constructed_def)
  next
    case (Number i)
    then have "\<exists>n. p' = p\<lparr>tp_requestCounter := n\<rparr>"
      using a by (auto simp: getRequestNumber_def Let_def split: if_splits)
    then show ?thesis using parts(4) by (auto simp: destructor_inv_def constructed_def)
  next
    case (Enqueue j t)
    then have "p' = go_caller j (E_Lock t) p" "tp_destructor p = D_Alive" using a by (simp_all split: if_splits)
    then show ?thesis using parts(4) by (simp add: destructor_inv_def stopped_def notified_all_def)
  next
    case Destroy
    then have "p' = p\<lparr>tp_destructor := D_Lock\<rparr>" "tp_destructor p = D_Alive" "constructed p"
      "\<forall>pc \<in> set (tp_callers p). pc = E_Idle"
      using a by (simp_all split: if_splits)
    then show ?thesis using parts(4)
      by (simp add: destructor_inv_def stopped_def notified_all_def constructed_def)
  qed
qed

lemma pool_inv_act:
  assumes "pool_inv p" "pool_act a p = Some (e, p')"
  shows "pool_inv p'"
  using assms mutex_inv_act workers_inv_act callers_inv_act destructor_inv_act
  unfolding pool_inv_def by blast

interpretation pool: event_invariant pool_act "\<lambda>p. \<exists>n m. p = ThreadPool n m" "\<lambda>_. pool_inv"
  by unfold_locales (auto intro: ThreadPool_inv pool_inv_act)

lemma reachable_inv: "run pool_act (ThreadPool n m) es p \<Longrightarrow> pool_inv p"
  by (rule pool.inv_run) auto

end
