(* ===== verification/Pool_Histories.thy ===== *)
theory Pool_Histories
  imports Pool_Invariants
begin

text \<open>
  What the events of a run of the thread pool say about its state: the fate of every task, the answers
  of \<open>enqueue\<close>, the request numbers; and the invariant that no wake-up is lost. The contract
  \<open>event_invariant\<close> is fulfilled by all of them together.
\<close>

section \<open>Histories\<close>

fun pushed_of :: "'t pool_event \<Rightarrow> 't list" where
  "pushed_of (Pushed j t) = [t]"
| "pushed_of _ = []"

fun taken_of :: "'t pool_event \<Rightarrow> 't list" where
  "taken_of (Took i t) = [t]"
| "taken_of _ = []"

fun began_of :: "'t pool_event \<Rightarrow> 't list" where
  "began_of (Began i t) = [t]"
| "began_of _ = []"

fun finished_of :: "'t pool_event \<Rightarrow> 't list" where
  "finished_of (Finished i t) = [t]"
| "finished_of _ = []"

fun numbers_of :: "'t pool_event \<Rightarrow> int list" where
  "numbers_of (Numbered i n) = [n]"
| "numbers_of _ = []"

text \<open>A task a worker has taken and not begun, and one it executes.\<close>

fun in_hand :: "'t worker_point \<Rightarrow> 't list" where
  "in_hand (W_Unlock t) = [t]"
| "in_hand (W_Name t) = [t]"
| "in_hand (W_Print t) = [t]"
| "in_hand (W_Call t) = [t]"
| "in_hand _ = []"

fun executing :: "'t worker_point \<Rightarrow> 't list" where
  "executing (W_Running t) = [t]"
| "executing _ = []"



definition tasks_history :: "'t pool_event list \<Rightarrow> 't pool \<Rightarrow> bool" where
  "tasks_history es p \<longleftrightarrow>
     history pushed_of es = history taken_of es @ tp_tasks p \<and>
     mset (history taken_of es) =
       mset (history began_of es) + mset (concat (map in_hand (tp_workers p))) \<and>
     mset (history began_of es) =
       mset (history finished_of es) + mset (concat (map executing (tp_workers p)))"

definition numbers_history :: "'t pool_event list \<Rightarrow> 't pool \<Rightarrow> bool" where
  "numbers_history es p \<longleftrightarrow>
     tp_requestCounter p = of_nat (length (history numbers_of es)) \<and>
     history numbers_of es =
       map (\<lambda>k. sint (of_nat (k + 1) :: 32 word)) [0 ..< length (history numbers_of es)]"

text \<open>Whether a call of \<open>enqueue\<close> has pushed and still has to answer.\<close>

fun accepting :: "'t caller_point \<Rightarrow> nat" where
  "accepting E_Unlock = 1"
| "accepting E_Notify = 1"
| "accepting E_Return = 1"
| "accepting _ = 0"

fun pushes_by :: "nat \<Rightarrow> 't pool_event \<Rightarrow> 't list" where
  "pushes_by k (Pushed j t) = (if j = k then [t] else [])"
| "pushes_by k _ = []"

fun trues_to :: "nat \<Rightarrow> 't pool_event \<Rightarrow> unit list" where
  "trues_to k (Returned j True) = (if j = k then [()] else [])"
| "trues_to k _ = []"

definition answers_history :: "'t pool_event list \<Rightarrow> 't pool \<Rightarrow> bool" where
  "answers_history es p \<longleftrightarrow>
     (\<forall>j < length (tp_callers p). length (history (pushes_by j) es) =
       length (history (trues_to j) es) + accepting (tp_callers p ! j))"

definition unchanged :: "nat \<Rightarrow> nat \<Rightarrow> 't pool \<Rightarrow> bool" where
  "unchanged n m p \<longleftrightarrow> tp_maxQueueSize p = 1000 \<and> tp_threadCount p = n \<and> length (tp_callers p) = m"

lemma unchanged_act:
  assumes "pool_act a p = Some (e, p')"
  shows "unchanged n m p' = unchanged n m p"
proof (cases a)
  case (Work i)
  then show ?thesis using assms worker_frame [of i p e p'] by (auto simp: unchanged_def split: if_splits)
next
  case (Call j i)
  then show ?thesis using assms enqueue_frame [of j i p e p'] by (auto simp: unchanged_def split: if_splits)
next
  case Destruct
  then show ?thesis using assms destructor_frame [of p e p'] by (simp add: unchanged_def)
qed (use assms in \<open>auto simp: unchanged_def spawn_worker_def getRequestNumber_def Let_def split: if_splits\<close>)

lemma worker_history:
  assumes "worker_step i p = Some (e, p')" "i < length (tp_workers p)"
  shows "taken_of e @ tp_tasks p' = tp_tasks p" "pushed_of e = []" "numbers_of e = []"
    "pushes_by k e = []" "trues_to k e = []"
    "mset (in_hand (tp_workers p' ! i)) + mset (began_of e) = mset (in_hand (tp_workers p ! i)) + mset (taken_of e)"
    "mset (executing (tp_workers p' ! i)) + mset (finished_of e) =
      mset (executing (tp_workers p ! i)) + mset (began_of e)"
    "tp_workers p' = (tp_workers p)[i := tp_workers p' ! i]"
  using assms
  by (cases "tp_workers p ! i"; auto simp: worker_step_def split: if_splits list.splits)+

lemma enqueue_history:
  assumes "enqueue_step j i p = Some (e, p')" "j < length (tp_callers p)"
  shows "tp_tasks p' = tp_tasks p @ pushed_of e" "taken_of e = []" "numbers_of e = []"
    "began_of e = []" "finished_of e = []"
    "length (pushes_by j e) + accepting (tp_callers p ! j) = length (trues_to j e) + accepting (tp_callers p' ! j)"
    "k \<noteq> j \<Longrightarrow> pushes_by k e = []" "k \<noteq> j \<Longrightarrow> trues_to k e = []"
  using assms
  by (cases "tp_callers p ! j"; auto simp: enqueue_step_def split: if_splits)+

text \<open>The other actions are silent in these histories, or number a request.\<close>

lemma other_history:
  assumes "pool_act a p = Some (e, p')" "\<forall>i. a \<noteq> Work i" "\<forall>j i. a \<noteq> Call j i"
  shows "tp_tasks p' = tp_tasks p" "taken_of e = []" "pushed_of e = []" "began_of e = []" "finished_of e = []"
    "pushes_by k e = []" "trues_to k e = []"
    "concat (map in_hand (tp_workers p')) = concat (map in_hand (tp_workers p))"
    "concat (map executing (tp_workers p')) = concat (map executing (tp_workers p))"
proof -
  have "tp_tasks p' = tp_tasks p \<and> (e = Silent \<or> (\<exists>i n. e = Numbered i n)) \<and>
    (tp_workers p' = tp_workers p \<or> tp_workers p' = tp_workers p @ [W_Lock])"
  proof (cases a)
    case Destruct
    then show ?thesis using assms(1) destructor_frame [of p e p'] by simp
  qed (use assms in \<open>auto simp: spawn_worker_def getRequestNumber_def Let_def split: if_splits\<close>)
  then show "tp_tasks p' = tp_tasks p" "taken_of e = []" "pushed_of e = []" "began_of e = []" "finished_of e = []"
    "pushes_by k e = []" "trues_to k e = []"
    "concat (map in_hand (tp_workers p')) = concat (map in_hand (tp_workers p))"
    "concat (map executing (tp_workers p')) = concat (map executing (tp_workers p))"
    by auto
qed


lemma tasks_history_act:
  assumes h: "tasks_history es p" and a: "pool_act a p = Some (e, p')"
  shows "tasks_history (es @ [e]) p'"
proof (cases "\<exists>i. a = Work i")
  case True
  then obtain i where s: "i < length (tp_workers p)" "worker_step i p = Some (e, p')"
    using a by (auto split: if_splits)
  note w = worker_history [OF s(2,1)]
  have hand: "mset (concat (map in_hand (tp_workers p'))) + mset (began_of e) =
      mset (concat (map in_hand (tp_workers p))) + mset (taken_of e)"
    using mset_balance [OF mset_concat_map_update [OF s(1)] w(6)] unfolding w(8) [symmetric] .
  have exe: "mset (concat (map executing (tp_workers p'))) + mset (finished_of e) =
      mset (concat (map executing (tp_workers p))) + mset (began_of e)"
    using mset_balance [OF mset_concat_map_update [OF s(1)] w(7)] unfolding w(8) [symmetric] .
  have t: "history pushed_of es = history taken_of es @ tp_tasks p"
    "mset (history taken_of es) = mset (history began_of es) + mset (concat (map in_hand (tp_workers p)))"
    "mset (history began_of es) = mset (history finished_of es) + mset (concat (map executing (tp_workers p)))"
    using h by (simp_all add: tasks_history_def)
  have "history pushed_of (es @ [e]) = history taken_of (es @ [e]) @ tp_tasks p'"
    using t(1) w(1,2) by simp
  moreover have "mset (history taken_of (es @ [e])) =
      mset (history began_of (es @ [e])) + mset (concat (map in_hand (tp_workers p')))"
    using t(2) hand by (simp add: ac_simps)
  moreover have "mset (history began_of (es @ [e])) =
      mset (history finished_of (es @ [e])) + mset (concat (map executing (tp_workers p')))"
    using t(3) exe by (simp add: ac_simps)
  ultimately show ?thesis by (simp add: tasks_history_def)
next
  case False
  show ?thesis
  proof (cases "\<exists>j i. a = Call j i")
    case True
    then obtain j i where s: "j < length (tp_callers p)" "enqueue_step j i p = Some (e, p')"
      using a by (auto split: if_splits)
    show ?thesis using h enqueue_history(1-5) [OF s(2,1)] enqueue_frame [OF s(2)]
      by (simp add: tasks_history_def)
  next
    case no: False
    show ?thesis using h other_history [OF a] False no by (simp add: tasks_history_def)
  qed
qed

lemma numbers_history_act:
  assumes h: "numbers_history es p" and a: "pool_act a p = Some (e, p')"
  shows "numbers_history (es @ [e]) p'"
proof (cases "\<exists>i. a = Number i")
  case True
  then obtain i where e: "e = Numbered i (sint (tp_requestCounter p + 1))"
    and p': "p' = p\<lparr>tp_requestCounter := tp_requestCounter p + 1\<rparr>"
    using a by (auto simp: getRequestNumber_def Let_def split: if_splits)
  show ?thesis using h unfolding numbers_history_def e p' by (simp add: add.commute)
next
  case False
  have "numbers_of e = [] \<and> tp_requestCounter p' = tp_requestCounter p"
  proof (cases a)
    case (Work i)
    then have s: "i < length (tp_workers p)" "worker_step i p = Some (e, p')" using a by (auto split: if_splits)
    show ?thesis using worker_history(3) [OF s(2,1)] worker_frame(6) [OF s(2)] by simp
  next
    case (Call j i)
    then have s: "j < length (tp_callers p)" "enqueue_step j i p = Some (e, p')" using a by (auto split: if_splits)
    show ?thesis using enqueue_history(3) [OF s(2,1)] enqueue_frame(6) [OF s(2)] by simp
  next
    case Destruct
    then show ?thesis using a destructor_frame [of p e p'] by simp
  qed (use a False in \<open>auto simp: spawn_worker_def split: if_splits\<close>)
  then show ?thesis using h by (simp add: numbers_history_def)
qed

lemma answers_history_act:
  assumes h: "answers_history es p" and a: "pool_act a p = Some (e, p')"
  shows "answers_history (es @ [e]) p'"
proof (cases "\<exists>j i. a = Call j i")
  case True
  then obtain j i where s: "j < length (tp_callers p)" "enqueue_step j i p = Some (e, p')"
    using a by (auto split: if_splits)
  note frame = enqueue_frame [OF s(2)]
  note q = enqueue_history [OF s(2,1)]
  have "length (history (pushes_by k) (es @ [e])) =
      length (history (trues_to k) (es @ [e])) + accepting (tp_callers p' ! k)"
    if "k < length (tp_callers p)" for k
  proof -
    have "length (history (pushes_by k) es) = length (history (trues_to k) es) + accepting (tp_callers p ! k)"
      using h that by (simp add: answers_history_def)
    then show ?thesis using q(6) q(7,8) [of k] frame(8) [of k] by (cases "k = j") simp_all
  qed
  then show ?thesis using frame(7) by (simp add: answers_history_def)
next
  case no: False
  show ?thesis
  proof (cases "\<exists>i. a = Work i")
    case True
    then obtain i where s: "i < length (tp_workers p)" "worker_step i p = Some (e, p')"
      using a by (auto split: if_splits)
    show ?thesis using h worker_history(4,5) [OF s(2,1)] worker_frame(1) [OF s(2)] by (simp add: answers_history_def)
  next
    case False
    have "map accepting (tp_callers p') = map accepting (tp_callers p)"
    proof (cases a)
      case (Enqueue j t)
      then have "p' = go_caller j (E_Lock t) p" "j < length (tp_callers p)" "tp_callers p ! j = E_Idle"
        using a by (auto split: if_splits)
      then show ?thesis by (simp add: map_update list_update_same_conv)
    next
      case Destruct
      then show ?thesis using a destructor_frame [of p e p'] by simp
    qed (use a False no in \<open>auto simp: spawn_worker_def getRequestNumber_def Let_def split: if_splits\<close>)
    then have "length (tp_callers p') = length (tp_callers p)"
      "j < length (tp_callers p) \<Longrightarrow> accepting (tp_callers p' ! j) = accepting (tp_callers p ! j)" for j
      by (metis length_map, metis length_map nth_map)
    then show ?thesis using h other_history(6,7) [OF a] False no by (simp add: answers_history_def)
  qed
qed


section \<open>Wake-ups\<close>

text \<open>A worker awake on its way to the queue, and a caller that still owes a notification.\<close>

definition heading :: "'t worker_point \<Rightarrow> bool" where
  "heading pc = (case pc of
     W_Lock \<Rightarrow> True | W_Test \<Rightarrow> True | W_Wait \<Rightarrow> True | W_Check \<Rightarrow> True | W_Take \<Rightarrow> True | _ \<Rightarrow> False)"

definition looking :: "'t pool \<Rightarrow> nat set" where
  "looking p = {i. i < length (tp_workers p) \<and> i \<notin> tp_condition p \<and> heading (tp_workers p ! i)}"

definition owes_notify :: "'t caller_point \<Rightarrow> bool" where
  "owes_notify pc = (case pc of E_Unlock \<Rightarrow> True | E_Notify \<Rightarrow> True | _ \<Rightarrow> False)"

definition notifying :: "'t pool \<Rightarrow> nat set" where
  "notifying p = {j. j < length (tp_callers p) \<and> owes_notify (tp_callers p ! j)}"

definition wake_inv :: "'t pool \<Rightarrow> bool" where
  "wake_inv p \<longleftrightarrow>
     (tp_condition p \<noteq> {} \<longrightarrow> length (tp_tasks p) \<le> card (looking p) + card (notifying p))"

lemma finite_looking: "finite (looking p)" "finite (notifying p)"
  by (simp_all add: looking_def notifying_def)

lemma worker_looking:
  assumes "worker_step i p = Some (e, p')" "i < length (tp_workers p)" "workers_inv p"
  shows "tp_tasks p' = [] \<or> tp_condition p' = tp_condition p \<and>
    (tp_tasks p' = tp_tasks p \<and> looking p \<subseteq> looking p' \<or>
     length (tp_tasks p) = Suc (length (tp_tasks p')) \<and> looking p - {i} \<subseteq> looking p' \<and> i \<in> looking p)"
proof -
  note frame = worker_frame [OF assms(1)]
  have k: "worker_knows (tp_stop p) (tp_tasks p) (tp_workers p ! i)"
    and c: "i \<in> tp_condition p \<Longrightarrow> tp_workers p ! i = W_Wait"
    using assms(2,3) by (auto simp: workers_inv_def)
  have eq: "tp_workers p' = (tp_workers p)[i := tp_workers p' ! i]" by (rule worker_history(8) [OF assms(1,2)])
  have others: "looking p - {i} \<subseteq> looking p'" if "tp_condition p' = tp_condition p"
    using that frame(7,8) by (auto simp: looking_def)
  have stay: "looking p \<subseteq> looking p'"
    if "tp_condition p' = tp_condition p" "heading (tp_workers p ! i) \<longrightarrow> heading (tp_workers p' ! i)"
    using others [OF that(1)] that assms(2) frame(7) by (auto simp: looking_def)
  have mine: "i \<in> looking p" if "tp_workers p ! i = W_Take"
    using that assms(2) c by (auto simp: looking_def heading_def)
  have "tp_tasks p' = [] \<or> tp_condition p' = tp_condition p \<and>
    (tp_tasks p' = tp_tasks p \<and> (heading (tp_workers p ! i) \<longrightarrow> heading (tp_workers p' ! i)) \<or>
     length (tp_tasks p) = Suc (length (tp_tasks p')) \<and> tp_workers p ! i = W_Take)"
    using assms(1,2) k
    by (cases "tp_workers p ! i") (auto simp: worker_step_def heading_def split: if_splits list.splits)
  then show ?thesis using others stay mine by blast
qed

lemma caller_looking:
  assumes "enqueue_step j i p = Some (e, p')" "j < length (tp_callers p)" "workers_inv p"
  shows "tp_condition p' = {} \<or> tp_condition p \<noteq> {} \<and>
    length (tp_tasks p') + card (looking p) + card (notifying p) \<le>
    length (tp_tasks p) + card (looking p') + card (notifying p')"
proof -
  note frame = enqueue_frame [OF assms(1)]
  have same: "looking p' = looking p" if "tp_condition p' = tp_condition p"
    using that frame(1) by (simp add: looking_def)
  have own: "notifying p' - {j} = notifying p - {j}"
    using frame(7,8) by (auto simp: notifying_def)
  show ?thesis
  proof (cases "tp_callers p ! j = E_Notify \<and> tp_condition p \<noteq> {}")
    case True
    then have s: "i \<in> tp_condition p" "tp_condition p' = tp_condition p - {i}" "tp_tasks p' = tp_tasks p"
      "tp_callers p' ! j = E_Return"
      using assms by (auto simp: enqueue_step_def split: if_splits)
    have w: "i < length (tp_workers p)" "tp_workers p ! i = W_Wait" using assms(3) s(1) by (auto simp: workers_inv_def)
    have h: "heading (tp_workers p ! i)" by (simp add: w(2) heading_def)
    have l: "looking p' = insert i (looking p)" "i \<notin> looking p"
      unfolding looking_def frame(1) s(2) using h w(1) s(1) by blast+
    have "j \<notin> notifying p'" using s(4) by (simp add: notifying_def owes_notify_def)
    then have "notifying p' = notifying p - {j}" using own by auto
    moreover have "j \<in> notifying p" using True assms(2) by (simp add: notifying_def owes_notify_def)
    ultimately have "card (notifying p) = Suc (card (notifying p'))"
      using card_Suc_Diff1 [OF finite_looking(2)] by metis
    then show ?thesis using True s(3) l finite_looking(1) [of p] by simp
  next
    case False
    then have c: "tp_condition p' = {} \<or> tp_condition p' = tp_condition p" "tp_condition p' \<noteq> {} \<longrightarrow> tp_callers p ! j \<noteq> E_Notify"
      using assms(1,2) by (cases "tp_callers p ! j"; auto simp: enqueue_step_def split: if_splits)+
    show ?thesis
    proof (cases "tp_condition p' = {}")
      case nonempty: False
      then have l: "looking p' = looking p" using c(1) same by blast
      have "tp_callers p ! j \<noteq> E_Notify" using nonempty c(2) by blast
      then have o: "tp_tasks p' = tp_tasks p \<and> owes_notify (tp_callers p' ! j) = owes_notify (tp_callers p ! j) \<or>
        (\<exists>t. tp_tasks p' = tp_tasks p @ [t]) \<and> owes_notify (tp_callers p' ! j) \<and> \<not> owes_notify (tp_callers p ! j)"
        using assms(1,2)
        by (cases "tp_callers p ! j") (auto simp: enqueue_step_def owes_notify_def split: if_splits)
      have "j \<in> notifying p \<longleftrightarrow> owes_notify (tp_callers p ! j)" "j \<in> notifying p' \<longleftrightarrow> owes_notify (tp_callers p' ! j)"
        using assms(2) frame(7) by (simp_all add: notifying_def)
      with o own have "tp_tasks p' = tp_tasks p \<and> notifying p' = notifying p \<or>
        (\<exists>t. tp_tasks p' = tp_tasks p @ [t]) \<and> notifying p' = insert j (notifying p) \<and> j \<notin> notifying p"
        by blast
      then show ?thesis using nonempty c(1) l finite_looking(2) [of p] by auto
    qed simp
  qed
qed


lemma wake_inv_act:
  assumes inv: "pool_inv p" "wake_inv p" and a: "pool_act a p = Some (e, p')"
  shows "wake_inv p'"
proof -
  note parts = pool_inv_parts [OF inv(1)]
  have grow: "wake_inv p'" if "tp_condition p' = {} \<or> tp_condition p \<noteq> {}"
    "looking p \<subseteq> looking p'" "notifying p' = notifying p" "tp_tasks p' = tp_tasks p"
    using that inv(2) card_mono [OF finite_looking(1) that(2)] by (auto simp: wake_inv_def)
  show ?thesis
  proof (cases a)
    case (Work i)
    then have s: "worker_step i p = Some (e, p')" "i < length (tp_workers p)" using a by (auto split: if_splits)
    have n: "notifying p' = notifying p" using worker_frame(1) [OF s(1)] by (simp add: notifying_def)
    from worker_looking [OF s parts(2)] consider
        "tp_tasks p' = []"
      | "tp_condition p' = tp_condition p" "tp_tasks p' = tp_tasks p" "looking p \<subseteq> looking p'"
      | "tp_condition p' = tp_condition p" "length (tp_tasks p) = Suc (length (tp_tasks p'))"
        "looking p - {i} \<subseteq> looking p'" "i \<in> looking p"
      by blast
    then show ?thesis
    proof cases
      case 3
      then have "card (looking p) \<le> Suc (card (looking p'))"
        using card_mono [OF finite_looking(1) 3(3)] card_Suc_Diff1 [OF finite_looking(1) 3(4)] by simp
      then show ?thesis using 3 n inv(2) by (auto simp: wake_inv_def)
    qed (use n grow in \<open>auto simp: wake_inv_def\<close>)
  next
    case (Call j i)
    then have s: "enqueue_step j i p = Some (e, p')" "j < length (tp_callers p)" using a by (auto split: if_splits)
    show ?thesis using caller_looking [OF s parts(2)] inv(2) by (auto simp: wake_inv_def)
  next
    case Destruct
    then have s: "destructor_step p = Some (e, p')" using a by simp
    have "tp_condition p' = {} \<or> tp_condition p' = tp_condition p"
      using s by (auto simp: destructor_step_def split: destructor_point.splits if_splits)
    then show ?thesis using inv(2) destructor_frame [OF s]
      by (auto simp: wake_inv_def looking_def notifying_def)
  next
    case Spawn
    then have "p' = p\<lparr>tp_workers := tp_workers p @ [W_Lock]\<rparr>" using a by (simp add: spawn_worker_def split: if_splits)
    then show ?thesis by (intro grow) (auto simp: looking_def notifying_def nth_append)
  next
    case (Spurious i)
    then have "p' = p\<lparr>tp_condition := tp_condition p - {i}\<rparr>" "i \<in> tp_condition p" using a by (simp_all split: if_splits)
    then show ?thesis by (intro grow) (auto simp: looking_def notifying_def)
  next
    case (Number i)
    then have "\<exists>n. p' = p\<lparr>tp_requestCounter := n\<rparr>"
      using a by (auto simp: getRequestNumber_def Let_def split: if_splits)
    then show ?thesis using inv(2) by (auto simp: wake_inv_def looking_def notifying_def)
  next
    case (Enqueue j t)
    then have p': "p' = go_caller j (E_Lock t) p" "tp_callers p ! j = E_Idle" using a by (simp_all split: if_splits)
    then have "owes_notify (tp_callers p' ! k) = owes_notify (tp_callers p ! k)" if "k < length (tp_callers p)" for k
      using that by (cases "k = j") (simp_all add: owes_notify_def)
    then have "notifying p' = notifying p" using p'(1) by (auto simp: notifying_def)
    then show ?thesis using inv(2) p'(1) by (simp add: wake_inv_def looking_def)
  next
    case Destroy
    then have "p' = p\<lparr>tp_destructor := D_Lock\<rparr>" using a by (simp split: if_splits)
    then show ?thesis using inv(2) by (simp add: wake_inv_def looking_def notifying_def)
  qed
qed

section \<open>The contract of runs\<close>

interpretation pool_history: event_invariant pool_act "\<lambda>p. \<exists>n m. p = ThreadPool n m"
    "\<lambda>es p. pool_inv p \<and> wake_inv p \<and> tasks_history es p \<and> numbers_history es p \<and> answers_history es p"
proof
  fix s :: "'a pool" assume "\<exists>n m. s = ThreadPool n m"
  then show "pool_inv s \<and> wake_inv s \<and> tasks_history [] s \<and> numbers_history [] s \<and> answers_history [] s"
    by (auto simp: ThreadPool_inv)
      (simp_all add: ThreadPool_def wake_inv_def tasks_history_def numbers_history_def answers_history_def)
qed (auto intro: pool_inv_act wake_inv_act tasks_history_act numbers_history_act answers_history_act)

interpretation pool_fixed: event_invariant pool_act "unchanged n m" "\<lambda>_. unchanged n m" for n m
  by unfold_locales (simp_all add: unchanged_act)

lemma reachable:
  assumes "run pool_act (ThreadPool n m) es p"
  shows "pool_inv p" "wake_inv p" "tasks_history es p" "numbers_history es p" "answers_history es p"
    "tp_maxQueueSize p = 1000" "tp_threadCount p = n" "length (tp_callers p) = m"
proof -
  have "unchanged n m (ThreadPool n m)" by (simp add: unchanged_def ThreadPool_def)
  with assms have "unchanged n m p" by (rule pool_fixed.inv_run)
  then show "tp_maxQueueSize p = 1000" "tp_threadCount p = n" "length (tp_callers p) = m"
    by (simp_all add: unchanged_def)
  show "pool_inv p" "wake_inv p" "tasks_history es p" "numbers_history es p" "answers_history es p"
    using pool_history.inv_run [OF assms] by auto
qed

end
