(* ===== verification/Pool_Properties.thy ===== *)
theory Pool_Properties
  imports Pool_Histories
begin

text \<open>
  What the thread pool promises: mutual exclusion, the answers of \<open>enqueue\<close>, the fate of every task,
  no lost wake-up, rest only when idle, a destructor that ends and drains the queue, and request
  numbers. A run starts with the constructor of a pool of \<open>n\<close> workers that \<open>m\<close> threads call.
\<close>

section \<open>Who acts\<close>

fun actor :: "'t action \<Rightarrow> thread option" where
  "actor (Work i) = Some (Worker i)"
| "actor (Call j i) = Some (Caller j)"
| "actor Destruct = Some Destroyer"
| "actor _ = None"

lemma shared_by_holder:
  assumes "pool_act a p = Some (e, p')" "tp_tasks p' \<noteq> tp_tasks p \<or> tp_stop p' \<noteq> tp_stop p"
  shows "\<exists>th. actor a = Some th \<and> holds p th"
proof (cases a)
  case (Work i)
  then have s: "i < length (tp_workers p)" "worker_step i p = Some (e, p')" using assms(1) by (auto split: if_splits)
  then have "tp_workers p ! i = W_Take" using worker_take [OF s(2)] worker_frame(3) [OF s(2)] assms(2) by blast
  then show ?thesis using s Work by (simp add: worker_locked_def)
next
  case (Call j i)
  then have s: "j < length (tp_callers p)" "enqueue_step j i p = Some (e, p')" using assms(1) by (auto split: if_splits)
  then obtain t where "tp_callers p ! j = E_Push t"
    using caller_push(1) [OF s(2)] enqueue_frame(3) [OF s(2)] assms(2) by blast
  then show ?thesis using s Call by (simp add: caller_locked_def)
next
  case Destruct
  then have "tp_destructor p = D_Stop"
    using assms by (auto simp: destructor_step_def split: destructor_point.splits if_splits)
  then show ?thesis using Destruct by (simp add: destructor_locked_def)
qed (use assms in \<open>auto simp: spawn_worker_def getRequestNumber_def Let_def split: if_splits\<close>)

text \<open>
  C17. Mutual exclusion. In every reachable state at most one of the workers, the callers and the
  destructor is between a lock and its unlock, and it is the mutex's owner; and whatever the schedule,
  the queue and the stop flag are changed by that thread only.
\<close>

theorem pool_mutual_exclusion:
  assumes "run pool_act (ThreadPool n m) es p" "holds p th"
  shows "tp_queueMutex p = Some th \<and> (\<forall>th'. holds p th' \<longrightarrow> th' = th) \<and>
    (\<forall>a e p'. pool_act a p = Some (e, p') \<longrightarrow> tp_tasks p' \<noteq> tp_tasks p \<or> tp_stop p' \<noteq> tp_stop p \<longrightarrow>
      actor a = Some th)"
proof -
  have "mutex_inv p" using reachable(1) [OF assms(1)] by (rule pool_inv_parts)
  then have "holds p th' \<longleftrightarrow> tp_queueMutex p = Some th'" for th' by (simp add: mutex_inv_def)
  then show ?thesis using assms(2) shared_by_holder by (metis option.inject)
qed

text \<open>
  C19. The bound of the queue and the answers of \<open>enqueue\<close>. The queue never holds more than 1000 tasks;
  \<open>enqueue\<close> answers false only while the queue holds exactly 1000; and every caller's pushes are the
  calls it got the answer true for, and the one that is about to give it.
\<close>

theorem enqueue_answers:
  assumes "run pool_act (ThreadPool n m) es p"
  shows "length (tp_tasks p) \<le> 1000 \<and>
    (\<forall>a j p'. pool_act a p = Some (Returned j False, p') \<longrightarrow> length (tp_tasks p) = 1000) \<and>
    (\<forall>j < m. length (history (pushes_by j) es) =
      length (history (trues_to j) es) + accepting (tp_callers p ! j))"
proof -
  note r = reachable [OF assms]
  have c: "callers_inv p" using r(1) by (rule pool_inv_parts)
  have "length (tp_tasks p) = 1000" if a: "pool_act a p = Some (Returned j False, p')" for a j p'
  proof -
    have "\<exists>k < length (tp_callers p). tp_callers p ! k = E_Refuse"
    proof (cases a)
      case (Work i)
      then show ?thesis using a
        by (cases "tp_workers p ! i") (auto simp: worker_step_def split: if_splits list.splits)
    next
      case (Call k i)
      then show ?thesis using a
        by (cases "tp_callers p ! k") (auto simp: enqueue_step_def split: if_splits)
    next
      case Destruct
      then show ?thesis using a destructor_frame(7) by force
    qed (use a in \<open>auto simp: spawn_worker_def getRequestNumber_def Let_def split: if_splits\<close>)
    then show ?thesis using c r(6) unfolding callers_inv_def by (metis caller_knows.simps(1) le_antisym)
  qed
  then show ?thesis using c r(5,6,8) by (simp add: callers_inv_def answers_history_def)
qed

text \<open>
  C4. The fate of every task. The tasks accepted so far are those taken and then those in the queue, in
  the order they were accepted; and, counted with repetitions, each accepted task is in exactly one
  place: finished, executed by one worker, in the hands of one worker that is about to call it, or in
  the queue. So no task is lost, none runs twice, and they are taken first in, first out.
\<close>

theorem tasks_fate:
  assumes "run pool_act (ThreadPool n m) es p"
  shows "history pushed_of es = history taken_of es @ tp_tasks p \<and>
    mset (history pushed_of es) = mset (history finished_of es) +
      mset (concat (map executing (tp_workers p))) + mset (concat (map in_hand (tp_workers p))) +
      mset (tp_tasks p)"
  using reachable(3) [OF assms] by (simp add: tasks_history_def ac_simps)

text \<open>
  C5. No wake-up is lost. While a worker sleeps on the condition variable, every task in the queue is
  matched by a worker that is awake and on its way to the queue, or by a notification that a caller
  is about to give.
\<close>

theorem no_lost_wakeup:
  assumes "run pool_act (ThreadPool n m) es p" "tp_condition p \<noteq> {}"
  shows "length (tp_tasks p) \<le> card (looking p) + card (notifying p)"
  using reachable(2) [OF assms(1)] assms(2) by (simp add: wake_inv_def)

section \<open>Rest\<close>

text \<open>No thread of the program can move: only the environment could still act.\<close>

definition at_rest :: "'t pool \<Rightarrow> bool" where
  "at_rest p \<longleftrightarrow> pool_act Spawn p = None \<and> (\<forall>i. pool_act (Work i) p = None) \<and>
     (\<forall>j i. pool_act (Call j i) p = None) \<and> pool_act Destruct p = None"

lemma at_rest_points:
  assumes "pool_inv p" "at_rest p"
  shows "tp_queueMutex p = None"
    "i < length (tp_workers p) \<Longrightarrow> tp_workers p ! i = W_Wait \<and> i \<in> tp_condition p \<or> tp_workers p ! i = W_Done"
    "j < length (tp_callers p) \<Longrightarrow> tp_callers p ! j = E_Idle"
    "tp_destructor p = D_Alive \<or> tp_destructor p = D_Done"
    "constructed p"
proof -
  note parts = pool_inv_parts [OF assms(1)]
  have w: "worker_step k p = None" if "k < length (tp_workers p)" for k
    using assms(2) that unfolding at_rest_def by (metis pool_act.simps(2))
  have c: "enqueue_step k i p = None" if "k < length (tp_callers p)" for k i
    using assms(2) that unfolding at_rest_def by (metis pool_act.simps(6))
  have d: "destructor_step p = None" using assms(2) by (simp add: at_rest_def)
  have knows: "worker_knows (tp_stop p) (tp_tasks p) (tp_workers p ! k)" if "k < length (tp_workers p)" for k
    using parts(2) that by (simp add: workers_inv_def)
  have "\<not> holds p th" for th
  proof (cases th)
    case (Worker k)
    then show ?thesis using w [of k] knows [of k]
      by (cases "tp_workers p ! k") (auto simp: worker_locked_def worker_step_def split: if_splits list.splits)
  next
    case (Caller k)
    then show ?thesis using c [of k 0]
      by (cases "tp_callers p ! k") (auto simp: caller_locked_def enqueue_step_def split: if_splits)
  next
    case Destroyer
    then show ?thesis using d by (cases "tp_destructor p") (auto simp: destructor_locked_def destructor_step_def)
  qed
  then show m: "tp_queueMutex p = None" using parts(1) unfolding mutex_inv_def by (metis not_None_eq)
  show points: "i < length (tp_workers p) \<Longrightarrow> tp_workers p ! i = W_Wait \<and> i \<in> tp_condition p \<or> tp_workers p ! i = W_Done" for i
    using w [of i] knows [of i] m
    by (cases "tp_workers p ! i") (auto simp: worker_step_def split: if_splits list.splits)
  show "j < length (tp_callers p) \<Longrightarrow> tp_callers p ! j = E_Idle"
    using c [of j 0] c [of j "SOME i. i \<in> tp_condition p"] m some_in_eq [of "tp_condition p"]
    by (cases "tp_callers p ! j") (auto simp: enqueue_step_def split: if_splits)
  show "constructed p"
    using assms(2) parts(2)
    by (auto simp: at_rest_def spawn_worker_def constructed_def workers_inv_def split: if_splits)
  show "tp_destructor p = D_Alive \<or> tp_destructor p = D_Done"
  proof (cases "tp_destructor p")
    case (D_Join k)
    then have "tp_condition p = {}" using parts(4) by (simp add: destructor_inv_def notified_all_def stopped_def)
    then show ?thesis using D_Join d points [of k] by (auto simp: destructor_step_def split: if_splits)
  qed (use d m in \<open>auto simp: destructor_step_def\<close>)
qed

text \<open>What it means to be at rest.\<close>

lemma rest_state:
  assumes "run pool_act (ThreadPool n m) es p" "0 < n" "at_rest p"
  shows "tp_queueMutex p = None \<and> tp_tasks p = [] \<and> (\<forall>pc \<in> set (tp_callers p). pc = E_Idle) \<and>
    (tp_destructor p = D_Alive \<and> tp_condition p = {..<n} \<or>
     tp_destructor p = D_Done \<and> tp_workers p = replicate n W_Done)"
proof -
  note r = reachable [OF assms(1)]
  note parts = pool_inv_parts [OF r(1)]
  note rest = at_rest_points [OF r(1) assms(3)]
  have n: "length (tp_workers p) = n" using rest(5) r(7) by (simp add: constructed_def)
  have idle: "\<forall>pc \<in> set (tp_callers p). pc = E_Idle" using rest(3) by (auto simp: in_set_conv_nth)
  show ?thesis
  proof (cases "tp_destructor p = D_Alive")
    case True
    then have "\<not> tp_stop p" using parts(4) by (simp add: destructor_inv_def stopped_def)
    then have "i \<in> tp_condition p" if "i < n" for i
      using rest(2) [of i] done_only_drained [OF parts(2), of i] that n by blast
    moreover have "i < n" if "i \<in> tp_condition p" for i
      using parts(2) that n unfolding workers_inv_def by blast
    ultimately have c: "tp_condition p = {..<n}" by auto
    then have "looking p = {}" "notifying p = {}"
      using n rest(3) by (auto simp: looking_def notifying_def owes_notify_def)
    then have "tp_tasks p = []" using r(2) c assms(2) by (auto simp: wake_inv_def)
    then show ?thesis using True c rest(1) idle by simp
  next
    case False
    then have d: "tp_destructor p = D_Done" using rest(4) by blast
    then have w: "\<forall>i < n. tp_workers p ! i = W_Done" using parts(4) n by (simp add: destructor_inv_def)
    then have "tp_workers p = replicate n W_Done" using n by (simp add: list_eq_iff_nth_eq)
    moreover have "tp_tasks p = []"
      using w assms(2) n done_only_drained [OF parts(2), of 0] by blast
    ultimately show ?thesis using d rest(1) idle by simp
  qed
qed

text \<open>
  C16. Rest only when idle, so no deadlock. When no thread of the pool can move, the mutex is free, no
  call is in progress and the queue is empty; and either the pool lives and all workers sleep, or the
  destructor has returned and all workers have left.
\<close>

theorem pool_rest:
  assumes "run pool_act (ThreadPool n m) es p" "0 < n" "at_rest p"
  shows "tp_queueMutex p = None \<and> tp_tasks p = [] \<and> (\<forall>pc \<in> set (tp_callers p). pc = E_Idle) \<and>
    (tp_destructor p = D_Alive \<and> tp_condition p = {..<n} \<or>
     tp_destructor p = D_Done \<and> tp_workers p = replicate n W_Done)"
  using assms by (rule rest_state)


section \<open>The end of the destructor\<close>

text \<open>How many own events a worker can still make once the flag is set, its next tasks not counted.\<close>

fun worker_budget :: "'t worker_point \<Rightarrow> nat" where
  "worker_budget W_Lock = 4"
| "worker_budget W_Test = 3"
| "worker_budget W_Block = 0"
| "worker_budget W_Wait = 4"
| "worker_budget W_Check = 2"
| "worker_budget W_Return = 1"
| "worker_budget W_Take = 1"
| "worker_budget (W_Unlock _) = 9"
| "worker_budget (W_Name _) = 8"
| "worker_budget (W_Print _) = 7"
| "worker_budget (W_Call _) = 6"
| "worker_budget (W_Running _) = 5"
| "worker_budget W_Done = 0"

fun destructor_budget :: "nat \<Rightarrow> destructor_point \<Rightarrow> nat" where
  "destructor_budget n D_Unlock = n + 3"
| "destructor_budget n D_Notify = n + 2"
| "destructor_budget n (D_Join k) = n - k + 1"
| "destructor_budget n _ = 0"

definition pool_budget :: "'t pool \<Rightarrow> nat" where
  "pool_budget p = 10 * length (tp_tasks p) + sum_list (map worker_budget (tp_workers p)) +
     card (tp_condition p) + destructor_budget (length (tp_workers p)) (tp_destructor p)"

text \<open>Requests for numbers are the running task's own business and are not counted.\<close>

fun not_numbered :: "'t pool_event \<Rightarrow> bool" where
  "not_numbered (Numbered _ _) = False"
| "not_numbered _ = True"

lemma finite_condition: "pool_inv p \<Longrightarrow> finite (tp_condition p)"
  by (rule finite_subset [of _ "{..<length (tp_workers p)}"]) (auto simp: pool_inv_def workers_inv_def)

lemma worker_budget_step:
  assumes "worker_step i p = Some (e, p')" "i < length (tp_workers p)" "tp_stop p"
    "worker_knows (tp_stop p) (tp_tasks p) (tp_workers p ! i)"
  shows "10 * length (tp_tasks p') + worker_budget (tp_workers p' ! i) + 1 \<le>
      10 * length (tp_tasks p) + worker_budget (tp_workers p ! i)"
    "tp_condition p' = tp_condition p"
  using assms by (cases "tp_workers p ! i"; auto simp: worker_step_def split: if_splits list.splits)+

lemma pool_budget_act:
  assumes "pool_inv p \<and> tp_stop p" "pool_act a p = Some (e, p')"
  shows "pool_budget p' + (if not_numbered e then 1 else 0) \<le> pool_budget p"
proof -
  have parts: "workers_inv p" "destructor_inv p" using assms(1) by (auto simp: pool_inv_def)
  then have d: "stopped (tp_destructor p)" "constructed p" "\<forall>pc \<in> set (tp_callers p). pc = E_Idle"
    using assms(1) by (auto simp: destructor_inv_def stopped_def)
  have fin: "finite (tp_condition p)" using assms(1) finite_condition by blast
  show ?thesis
  proof (cases a)
    case (Work i)
    then have s: "worker_step i p = Some (e, p')" "i < length (tp_workers p)"
      using assms(2) by (auto split: if_splits)
    have k: "worker_knows (tp_stop p) (tp_tasks p) (tp_workers p ! i)" using parts(1) s(2) by (simp add: workers_inv_def)
    note own = worker_budget_step [OF s conjunct2 [OF assms(1)] k]
    have "sum_list (map worker_budget (tp_workers p')) + worker_budget (tp_workers p ! i) =
      sum_list (map worker_budget (tp_workers p)) + worker_budget (tp_workers p' ! i)"
      using sum_list_map_update [OF s(2), of worker_budget "tp_workers p' ! i"]
      unfolding worker_history(8) [OF s, symmetric] .
    then show ?thesis using own worker_frame(2,7) [OF s(1)] by (simp add: pool_budget_def)
  next
    case (Call j i)
    then have "enqueue_step j i p = Some (e, p')" "tp_callers p ! j = E_Idle"
      using assms(2) d(3) nth_mem by (simp_all split: if_splits)
    then show ?thesis by (simp add: enqueue_step_def)
  next
    case (Spurious i)
    then have "p' = p\<lparr>tp_condition := tp_condition p - {i}\<rparr>" "i \<in> tp_condition p"
      using assms(2) by (simp_all split: if_splits)
    then show ?thesis using card_Suc_Diff1 [OF fin, of i] by (simp add: pool_budget_def)
  next
    case Destruct
    then have s: "destructor_step p = Some (e, p')" using assms(2) by simp
    note frame = destructor_frame [OF s]
    have "destructor_budget (length (tp_workers p)) (tp_destructor p') + 1 \<le>
        destructor_budget (length (tp_workers p)) (tp_destructor p)"
      "tp_condition p' = tp_condition p \<or> tp_condition p' = {}"
      using s d(1) by (cases "tp_destructor p"; auto simp: destructor_step_def stopped_def split: if_splits)+
    then show ?thesis using frame by (auto simp: pool_budget_def)
  next
    case (Number i)
    then show ?thesis using assms(2)
      by (auto simp: getRequestNumber_def pool_budget_def Let_def split: if_splits)
  qed (use assms(2) d in \<open>auto simp: spawn_worker_def constructed_def stopped_def split: if_splits\<close>)
qed

lemma stop_stays:
  assumes "pool_inv p \<and> tp_stop p" "pool_act a p = Some (e, p')"
  shows "pool_inv p' \<and> tp_stop p'"
proof -
  have "stopped (tp_destructor p)" using assms(1) by (auto simp: pool_inv_def destructor_inv_def)
  then have "tp_stop p'"
  proof (cases a)
    case (Work i)
    then show ?thesis using assms worker_frame(3) [of i p e p'] by (auto split: if_splits)
  next
    case (Call j i)
    then show ?thesis using assms enqueue_frame(3) [of j i p e p'] by (auto split: if_splits)
  next
    case Destruct
    then show ?thesis using assms
      by (cases "tp_destructor p") (auto simp: destructor_step_def split: if_splits)
  qed (use assms in \<open>auto simp: spawn_worker_def getRequestNumber_def Let_def split: if_splits\<close>)
  then show ?thesis using assms pool_inv_act by blast
qed

interpretation pool_end: event_budget pool_act "\<lambda>p. pool_inv p \<and> tp_stop p" not_numbered pool_budget
  by unfold_locales (rule stop_stays pool_budget_act; assumption)+

lemma pool_budget_bound:
  assumes "pool_inv p"
  shows "pool_budget p \<le> 10 * length (tp_tasks p) + 11 * length (tp_workers p) + 3"
proof -
  have "worker_budget pc \<le> 9" for pc :: "'a worker_point" by (cases pc) simp_all
  then have "sum_list (map worker_budget (tp_workers p)) \<le> 9 * length (tp_workers p)"
    using sum_list_mono [of "tp_workers p" worker_budget "\<lambda>_. 9"] by (simp add: sum_list_triv)
  moreover have "card (tp_condition p) \<le> length (tp_workers p)"
    using card_mono [of "{..<length (tp_workers p)}" "tp_condition p"] assms
    by (auto simp: pool_inv_def workers_inv_def)
  moreover have "destructor_budget (length (tp_workers p)) (tp_destructor p) \<le> length (tp_workers p) + 3"
    by (cases "tp_destructor p") simp_all
  ultimately show ?thesis by (simp add: pool_budget_def)
qed

lemma nobody_busy:
  assumes "tp_workers p = replicate n W_Done"
  shows "concat (map executing (tp_workers p)) = []" "concat (map in_hand (tp_workers p)) = []"
  using assms by auto

text \<open>
  C7. The destructor ends, and drains the queue. Once the stop flag is set, no schedule, spurious
  wake-ups included, makes more than \<open>10 k + 11 n + 3\<close> steps for the \<open>k\<close> tasks in the queue and the
  \<open>n\<close> workers, what the tasks themselves do not counted; and when no thread can move any more the
  destructor has returned, every worker has left and the tasks ever accepted are the tasks finished.
\<close>

theorem destructor_terminates:
  assumes "run pool_act (ThreadPool n m) es p" "0 < n" "tp_stop p" "run pool_act p es' p'"
  shows "length (filter not_numbered es') \<le> 10 * length (tp_tasks p) + 11 * n + 3 \<and>
    (at_rest p' \<longrightarrow> tp_destructor p' = D_Done \<and> tp_workers p' = replicate n W_Done \<and>
       mset (history finished_of (es @ es')) = mset (history pushed_of (es @ es')))"
proof -
  note r = reachable [OF assms(1)]
  have whole: "run pool_act (ThreadPool n m) (es @ es') p'" using assms(4,1) by (rule run_trans)
  note r' = reachable [OF whole]
  have stop': "tp_stop p'" and b: "pool_budget p' + length (filter not_numbered es') \<le> pool_budget p"
    using pool_end.budget_run [OF assms(4)] r(1) assms(3) by auto
  have "length (tp_workers p) \<le> n" using r(1,7) by (auto simp: pool_inv_def workers_inv_def)
  then have bound: "length (filter not_numbered es') \<le> 10 * length (tp_tasks p) + 11 * n + 3"
    using b pool_budget_bound [OF r(1)] by linarith
  have "tp_destructor p' = D_Done \<and> tp_workers p' = replicate n W_Done \<and>
      mset (history finished_of (es @ es')) = mset (history pushed_of (es @ es'))" if "at_rest p'"
  proof -
    have "tp_destructor p' \<noteq> D_Alive" using stop' r'(1) by (auto simp: pool_inv_def destructor_inv_def stopped_def)
    then have d: "tp_destructor p' = D_Done" "constructed p'"
      using at_rest_points(4,5) [OF r'(1) that] by auto
    then have w: "tp_workers p' = replicate n W_Done"
      using r'(1,7) by (auto simp: pool_inv_def destructor_inv_def constructed_def list_eq_iff_nth_eq)
    have "tp_tasks p' = []"
      using w assms(2) done_only_drained [of p' 0] r'(1) by (auto simp: pool_inv_def)
    then show ?thesis using d w nobody_busy [OF w] r'(3) by (simp add: tasks_history_def)
  qed
  with bound show ?thesis by blast
qed

section \<open>Request numbers\<close>

lemma number_small: "i + 1 < 2 ^ 31 \<Longrightarrow> sint (of_nat (i + 1) :: 32 word) = int i + 1"
proof -
  assume i: "i + 1 < (2 :: nat) ^ 31"
  have "sint (of_nat (i + 1) :: 32 word) = signed_take_bit 31 (int (i + 1))" by (simp only: signed_of_nat) simp
  also have "\<dots> = int (i + 1)" using i by (intro signed_take_bit_int_eq_self) simp_all
  finally show ?thesis by simp
qed

lemma number_inj: "k \<le> 2 ^ 32 \<Longrightarrow> inj_on (\<lambda>i. sint (of_nat (i + 1) :: 32 word)) {0 ..< k}"
proof (rule inj_onI)
  fix i j assume k: "k \<le> 2 ^ 32" and "i \<in> {0 ..< k}" "j \<in> {0 ..< k}"
    and e: "sint (of_nat (i + 1) :: 32 word) = sint (of_nat (j + 1) :: 32 word)"
  then have ij: "i < 2 ^ 32" "j < 2 ^ 32" by auto
  from e have "(of_nat (i + 1) :: 32 word) = of_nat (j + 1)" by (rule signed_word_eqI)
  then have "(of_nat i :: 32 word) = of_nat j" by simp
  then have "unat (of_nat i :: 32 word) = unat (of_nat j :: 32 word)" by simp
  then show "i = j" using ij by (simp add: unat_of_nat)
qed

lemma numbers_small:
  assumes "run pool_act (ThreadPool n m) es p" "length (history numbers_of es) < 2 ^ 31"
  shows "history numbers_of es = map (\<lambda>k. int k + 1) [0 ..< length (history numbers_of es)]"
proof -
  define k where "k = length (history numbers_of es)"
  have "history numbers_of es = map (\<lambda>i. sint (of_nat (i + 1) :: 32 word)) [0 ..< k]"
    using reachable(4) [OF assms(1)] by (simp add: numbers_history_def k_def)
  also have "\<dots> = map (\<lambda>k. int k + 1) [0 ..< k]"
    using assms(2) by (intro map_cong refl number_small) (auto simp: k_def)
  finally show ?thesis unfolding k_def .
qed

text \<open>
  The numbers that \<open>getRequestNumber\<close> hands out, whichever tasks ask: the counting numbers in the
  order of the calls, wrapped to 32 bits. So the first \<open>2 ^ 31 - 1\<close> calls get 1, 2, 3 and so on, and no
  two of the first \<open>2 ^ 32\<close> calls get the same number.
\<close>

theorem request_numbers:
  assumes "run pool_act (ThreadPool n m) es p"
  shows "history numbers_of es = map (\<lambda>k. sint (of_nat (k + 1) :: 32 word)) [0 ..< length (history numbers_of es)] \<and>
    (length (history numbers_of es) < 2 ^ 31 \<longrightarrow>
      history numbers_of es = map (\<lambda>k. int k + 1) [0 ..< length (history numbers_of es)]) \<and>
    (length (history numbers_of es) \<le> 2 ^ 32 \<longrightarrow> distinct (history numbers_of es))"
proof -
  define k where "k = length (history numbers_of es)"
  have h: "history numbers_of es = map (\<lambda>i. sint (of_nat (i + 1) :: 32 word)) [0 ..< k]"
    using reachable(4) [OF assms] by (simp add: numbers_history_def k_def)
  then have "k \<le> 2 ^ 32 \<longrightarrow> distinct (history numbers_of es)"
    using number_inj [of k] by (simp only: distinct_map distinct_upt set_upt) simp
  then show ?thesis unfolding k_def [symmetric] using h numbers_small [OF assms] by (simp add: k_def [symmetric])
qed

section \<open>Witnesses\<close>

text \<open>Schedules that the theorems are applied to.\<close>

lemma run_witness:
  assumes "case run_schedule pool_act as (ThreadPool n m) of None \<Rightarrow> False | Some (es, p) \<Rightarrow> P es p"
  obtains es p where "run pool_act (ThreadPool n m) es p" "P es p"
  using assms run_schedule_run [of pool_act as "ThreadPool n m"] by (force split: option.splits)

abbreviation sleeping_pool :: "nat action list" where
  "sleeping_pool \<equiv> [Spawn, Work 0, Work 0, Work 0]"

abbreviation one_task :: "nat action list" where
  "one_task \<equiv> sleeping_pool @ [Enqueue 0 7, Call 0 0, Call 0 0, Call 0 0]"

theorem pool_mutual_exclusion_witness:
  "\<exists>es p. run pool_act (ThreadPool 1 1 :: nat pool) es p \<and> holds p (Caller 0) \<and>
     tp_queueMutex p = Some (Caller 0)"
proof -
  have "case run_schedule pool_act one_task (ThreadPool 1 1) of None \<Rightarrow> False
    | Some (es, p) \<Rightarrow> holds p (Caller 0)"
    by code_simp
  then obtain es and p :: "nat pool" where "run pool_act (ThreadPool 1 1) es p" "holds p (Caller 0)"
    by (rule run_witness)
  from this pool_mutual_exclusion [OF this] show ?thesis by blast
qed

theorem enqueue_answers_witness:
  "\<exists>es p. run pool_act (ThreadPool 1 1 :: nat pool) es p \<and> length (history (pushes_by 0) es) = 1 \<and>
     length (history (trues_to 0) es) = 1 \<and> tp_tasks p = [7]"
proof -
  have "case run_schedule pool_act (one_task @ [Call 0 0, Call 0 0, Call 0 0]) (ThreadPool 1 1) of None \<Rightarrow> False
    | Some (es, p) \<Rightarrow> tp_tasks p = [7] \<and> history (pushes_by 0) es = [7] \<and> accepting (tp_callers p ! 0) = 0"
    by code_simp
  then obtain es and p :: "nat pool" where r: "run pool_act (ThreadPool 1 1) es p"
    "tp_tasks p = [7] \<and> history (pushes_by 0) es = [7] \<and> accepting (tp_callers p ! 0) = 0"
    by (rule run_witness)
  with enqueue_answers [OF r(1)] show ?thesis by fastforce
qed

abbreviation task_done :: "nat action list" where
  "task_done \<equiv> one_task @ [Call 0 0, Call 0 0, Call 0 0] @ replicate 8 (Work 0) @
     [Number 0, Number 0, Work 0]"

theorem tasks_fate_witness:
  "\<exists>es p. run pool_act (ThreadPool 1 1 :: nat pool) es p \<and> history pushed_of es = [7] \<and>
     history taken_of es = [7] \<and> mset (history finished_of es) = {#7#}"
proof -
  have "case run_schedule pool_act task_done (ThreadPool 1 1) of None \<Rightarrow> False
    | Some (es, p) \<Rightarrow> history pushed_of es = [7] \<and> tp_tasks p = [] \<and> tp_workers p = [W_Lock]"
    by code_simp
  then obtain es and p :: "nat pool" where r: "run pool_act (ThreadPool 1 1) es p"
    "history pushed_of es = [7] \<and> tp_tasks p = [] \<and> tp_workers p = [W_Lock]"
    by (rule run_witness)
  have "history taken_of es = [7]" "mset (history finished_of es) = {#7#}"
    using tasks_fate [OF r(1)] r(2) by simp_all
  with r show ?thesis by blast
qed

theorem no_lost_wakeup_witness:
  "\<exists>es p. run pool_act (ThreadPool 1 1 :: nat pool) es p \<and> tp_tasks p = [7] \<and> tp_condition p = {0} \<and>
     1 \<le> card (looking p) + card (notifying p)"
proof -
  have "case run_schedule pool_act one_task (ThreadPool 1 1) of None \<Rightarrow> False
    | Some (es, p) \<Rightarrow> tp_tasks p = [7] \<and> tp_condition p = {0}"
    by code_simp
  then obtain es and p :: "nat pool" where r: "run pool_act (ThreadPool 1 1) es p"
    "tp_tasks p = [7] \<and> tp_condition p = {0}"
    by (rule run_witness)
  with no_lost_wakeup [OF r(1)] show ?thesis by fastforce
qed

theorem request_numbers_witness:
  "\<exists>es p. run pool_act (ThreadPool 1 1 :: nat pool) es p \<and> history numbers_of es = [1, 2]"
proof -
  have "case run_schedule pool_act task_done (ThreadPool 1 1) of None \<Rightarrow> False
    | Some (es, p) \<Rightarrow> length (history numbers_of es) = 2"
    by code_simp
  then obtain es and p :: "nat pool" where r: "run pool_act (ThreadPool 1 1) es p"
    "length (history numbers_of es) = 2"
    by (rule run_witness)
  from request_numbers [OF r(1)] have "history numbers_of es = map (\<lambda>k. int k + 1) [0 ..< 2]"
    unfolding r(2) by (elim conjE) (rule mp, assumption, simp)
  then have "history numbers_of es = [1, 2]" by (simp add: upt_conv_Cons)
  with r show ?thesis by blast
qed


theorem pool_rest_witness:
  "\<exists>es p. run pool_act (ThreadPool 1 1 :: nat pool) es p \<and> at_rest p \<and> tp_queueMutex p = None \<and>
     tp_tasks p = [] \<and> (tp_condition p = {..<1} \<or> tp_workers p = [W_Done])"
proof -
  have "case run_schedule pool_act sleeping_pool (ThreadPool 1 1) of None \<Rightarrow> False
    | Some (es, p) \<Rightarrow> tp_workers p = [W_Wait] \<and> tp_condition p = {0} \<and> tp_callers p = [E_Idle] \<and>
        tp_destructor p = D_Alive \<and> tp_threadCount p = 1"
    by code_simp
  then obtain es and p :: "nat pool" where r: "run pool_act (ThreadPool 1 1) es p"
    and p: "tp_workers p = [W_Wait] \<and> tp_condition p = {0} \<and> tp_callers p = [E_Idle] \<and>
      tp_destructor p = D_Alive \<and> tp_threadCount p = 1"
    by (rule run_witness)
  then have rest: "at_rest p"
    by (simp add: at_rest_def spawn_worker_def worker_step_def enqueue_step_def destructor_step_def)
  from pool_rest [OF r _ rest] have "tp_queueMutex p = None \<and> tp_tasks p = [] \<and>
      (tp_condition p = {..<1} \<or> tp_workers p = [W_Done])"
    by auto
  with r rest show ?thesis by blast
qed

theorem destructor_terminates_witness:
  "\<exists>es p es' p'. run pool_act (ThreadPool 1 1 :: nat pool) es p \<and> tp_tasks p = [7] \<and> tp_stop p \<and>
     run pool_act p es' p' \<and> length (filter not_numbered es') \<le> 24 \<and> at_rest p' \<and>
     tp_destructor p' = D_Done \<and> mset (history finished_of (es @ es')) = {#7#}"
proof -
  let ?first = "one_task @ [Call 0 0, Call 0 0, Call 0 0, Destroy, Destruct, Destruct]"
  let ?second = "[Destruct, Destruct] @ replicate 13 (Work 0) @ [Destruct, Destruct]"
  have "case run_schedule pool_act ?first (ThreadPool 1 1) of None \<Rightarrow> False
    | Some (es, p) \<Rightarrow> tp_tasks p = [7] \<and> tp_stop p \<and>
        (case run_schedule pool_act ?second p of None \<Rightarrow> False
         | Some (es', p') \<Rightarrow> tp_workers p' = [W_Done] \<and> tp_callers p' = [E_Idle] \<and> tp_destructor p' = D_Done \<and>
             tp_threadCount p' = 1 \<and> history pushed_of (es @ es') = [7])"
    by code_simp
  then obtain es and p :: "nat pool" where r: "run pool_act (ThreadPool 1 1) es p"
    and p: "tp_tasks p = [7] \<and> tp_stop p \<and>
        (case run_schedule pool_act ?second p of None \<Rightarrow> False
         | Some (es', p') \<Rightarrow> tp_workers p' = [W_Done] \<and> tp_callers p' = [E_Idle] \<and> tp_destructor p' = D_Done \<and>
             tp_threadCount p' = 1 \<and> history pushed_of (es @ es') = [7])"
    by (rule run_witness)
  then obtain es' p' where s: "run_schedule pool_act ?second p = Some (es', p')"
    and p': "tp_workers p' = [W_Done]" "tp_callers p' = [E_Idle]" "tp_destructor p' = D_Done"
      "tp_threadCount p' = 1" "history pushed_of (es @ es') = [7]"
    by (auto split: option.splits)
  have rest: "at_rest p'"
    using p' by (simp add: at_rest_def spawn_worker_def worker_step_def enqueue_step_def destructor_step_def)
  have r': "run pool_act p es' p'" by (rule run_schedule_run [OF s])
  have stop: "tp_stop p" and t: "tp_tasks p = [7]" using p by simp_all
  from destructor_terminates [OF r zero_less_one stop r'] rest
  have e: "length (filter not_numbered es') \<le> 10 * length (tp_tasks p) + 11 * 1 + 3" "tp_destructor p' = D_Done"
    "mset (history finished_of (es @ es')) = mset (history pushed_of (es @ es'))"
    by blast+
  have "length (filter not_numbered es') \<le> 24" using e(1) t by simp
  moreover have "mset (history finished_of (es @ es')) = {#7#}" unfolding e(3) p'(5) by simp
  ultimately show ?thesis using r t stop r' rest e(2) by blast
qed

end
