(* ===== verification/Pool_Server.thy ===== *)
theory Pool_Server
  imports Pool_Properties Platform
begin

text \<open>
  The thread-pool echo server (\<open>Version1/src/Server.cpp\<close>, and \<open>Version_2/src/Server.cpp\<close>, which has the
  same text): \<open>main\<close> accepts connections and hands each to the pool as a task, a worker runs
  \<open>processClient\<close> on it. The system is the pool of \<open>Thread_Pool\<close>, whose tasks are now the captured
  client sockets, the main thread, which is the pool's only caller, and for each worker the point of
  the \<open>processClient\<close> call it is in. Main and the clients make system calls; the kernel's reply is part
  of the action and may be anything POSIX documents (\<open>reply_ok\<close>).

  \<open>main\<close> never leaves its loop, so its \<open>close(serverSocket)\<close> and the pool's destructor are never
  reached in this program, and the system has no action for them.
\<close>

section \<open>State\<close>

text \<open>The points of \<open>processClient\<close>; \<open>C_Say\<close> holds the insertions into \<open>std::cout\<close> still to be made.\<close>

datatype client_point =
    C_Recv
  | C_Disconnected           \<comment> \<open>\<open>bytes <= 0\<close>\<close>
  | C_Number bytes           \<comment> \<open>about to call \<open>getRequestNumber\<close>\<close>
  | C_Say "string list" int
  | C_Send int
  | C_Close
  | C_Returned

datatype main_point =
    M_Socket
  | M_Bind
  | M_Listen
  | M_Started
  | M_Construct              \<comment> \<open>\<open>ThreadPool pool(4)\<close>\<close>
  | M_Accept
  | M_Connected int
  | M_Enqueue int
  | M_Answer int             \<comment> \<open>inside \<open>pool.enqueue\<close>\<close>
  | M_Busy int
  | M_Close int

record pool_server =
  ps_pool :: "int pool"
  ps_client :: "nat \<Rightarrow> client_point"
  ps_main :: main_point
  ps_serverSocket :: int

datatype server_event =
    Pool "int pool_event"
  | Quiet                    \<comment> \<open>a move of main or a client that nobody sees\<close>
  | Io "nat option" event    \<comment> \<open>a system call or an insertion by main or a worker\<close>

definition PoolServer :: pool_server where
  "PoolServer = \<lparr>ps_pool = ThreadPool 4 1, ps_client = (\<lambda>_. C_Returned), ps_main = M_Socket, ps_serverSocket = 0\<rparr>"

section \<open>The threads\<close>

text \<open>A system call, with the reply the kernel gives.\<close>

definition call_kernel :: "request \<Rightarrow> reply \<Rightarrow> nat option \<Rightarrow> pool_server \<Rightarrow> (server_event \<times> pool_server) option" where
  "call_kernel c r who s = (if reply_ok c r then Some (Io who (Sys c r), s) else None)"

definition response_text :: "int \<Rightarrow> string" where
  "response_text requestId = ''Request #'' @ to_string requestId @ '' processed successfully''"

abbreviation go_client :: "nat \<Rightarrow> client_point \<Rightarrow> pool_server \<Rightarrow> pool_server" where
  "go_client i pc s \<equiv> s\<lparr>ps_client := (ps_client s)(i := pc)\<rparr>"

text \<open>Worker \<open>i\<close> inside \<open>processClient(clientSocket, pool)\<close>, moving on with the kernel's reply \<open>r\<close>.\<close>

definition client_step :: "nat \<Rightarrow> int \<Rightarrow> reply \<Rightarrow> pool_server \<Rightarrow> (server_event \<times> pool_server) option" where
  "client_step i clientSocket r s =
     (case ps_client s i of
        C_Recv \<Rightarrow>
          call_kernel (SysRecv clientSocket 1023) r (Some i)
            (go_client i (if ret r \<le> 0 then C_Disconnected else C_Number (stored r)) s)
      | C_Disconnected \<Rightarrow>
          Some (Io (Some i) (Out (''Client disconnected'' @ endl)), go_client i C_Close s)
      | C_Number buffer \<Rightarrow>
          (case pool_act (Number i) (ps_pool s) of
             Some (Numbered _ requestId, p) \<Rightarrow>
               Some (Pool (Numbered i requestId),
                 go_client i (C_Say [''Request #'', to_string requestId, '' received: '',
                     c_str (string_of_bytes buffer), endl] requestId) (s\<lparr>ps_pool := p\<rparr>))
           | _ \<Rightarrow> None)
      | C_Say (t # ts) requestId \<Rightarrow> Some (Io (Some i) (Out t), go_client i (C_Say ts requestId) s)
      | C_Say [] requestId \<Rightarrow> Some (Quiet, go_client i (C_Send requestId) s)
      | C_Send requestId \<Rightarrow>
          call_kernel (SysSend clientSocket (bytes_of_string (response_text requestId))) r (Some i)
            (go_client i C_Recv s)
      | C_Close \<Rightarrow> call_kernel (SysClose clientSocket) r (Some i) (go_client i C_Returned s)
      | C_Returned \<Rightarrow> None)"

abbreviation go_main :: "main_point \<Rightarrow> pool_server \<Rightarrow> pool_server" where
  "go_main pc s \<equiv> s\<lparr>ps_main := pc\<rparr>"

definition main_step :: "endianness \<Rightarrow> reply \<Rightarrow> pool_server \<Rightarrow> (server_event \<times> pool_server) option" where
  "main_step h r s =
     (case ps_main s of
        M_Socket \<Rightarrow> call_kernel SysSocket r None (go_main M_Bind (s\<lparr>ps_serverSocket := ret r\<rparr>))
      | M_Bind \<Rightarrow>
          call_kernel (SysBind (ps_serverSocket s) \<lparr>sin_addr = 0, sin_port = htons h 8080\<rparr>) r None
            (go_main M_Listen s)
      | M_Listen \<Rightarrow> call_kernel (SysListen (ps_serverSocket s) 10) r None (go_main M_Started s)
      | M_Started \<Rightarrow> Some (Io None (Out (''Server started on port 8080'' @ endl)), go_main M_Construct s)
      | M_Construct \<Rightarrow> if constructed (ps_pool s) then Some (Quiet, go_main M_Accept s) else None
      | M_Accept \<Rightarrow> call_kernel (SysAccept (ps_serverSocket s)) r None (go_main (M_Connected (ret r)) s)
      | M_Connected clientSocket \<Rightarrow>
          Some (Io None (Out (''Client connected'' @ endl)), go_main (M_Enqueue clientSocket) s)
      | M_Enqueue clientSocket \<Rightarrow>
          map_option (\<lambda>(e, p). (Pool e, go_main (M_Answer clientSocket) (s\<lparr>ps_pool := p\<rparr>)))
            (pool_act (Enqueue 0 clientSocket) (ps_pool s))
      | M_Answer clientSocket \<Rightarrow> None
      | M_Busy clientSocket \<Rightarrow>
          call_kernel (SysSend clientSocket (bytes_of_string ''Server busy. Try later'')) r None
            (go_main (M_Close clientSocket) s)
      | M_Close clientSocket \<Rightarrow> call_kernel (SysClose clientSocket) r None (go_main M_Accept s))"

text \<open>What an event of the pool's code means to the rest: a task begins, or \<open>enqueue\<close> answers main.\<close>

fun pool_effect :: "int pool_event \<Rightarrow> pool_server \<Rightarrow> pool_server" where
  "pool_effect (Began i clientSocket) s = go_client i C_Recv s"
| "pool_effect (Returned j accepted) s =
     (case ps_main s of
        M_Answer clientSocket \<Rightarrow> go_main (if accepted then M_Accept else M_Busy clientSocket) s
      | _ \<Rightarrow> s)"
| "pool_effect _ s = s"

text \<open>
  The actions: the pool's own code, main, and a worker in \<open>processClient\<close>. A task returns to the
  worker's loop when \<open>processClient\<close> has returned.
\<close>

datatype server_action =
    Start_Worker
  | Pool_Worker nat
  | Wake_Worker nat
  | Pool_Caller nat
  | Main_Thread reply
  | Session nat reply

definition running_task :: "'t worker_point \<Rightarrow> 't option" where
  "running_task pc = (case pc of W_Running t \<Rightarrow> Some t | _ \<Rightarrow> None)"

definition pool_part :: "int action \<Rightarrow> pool_server \<Rightarrow> (server_event \<times> pool_server) option" where
  "pool_part a s =
     map_option (\<lambda>(e, p). (Pool e, pool_effect e (s\<lparr>ps_pool := p\<rparr>))) (pool_act a (ps_pool s))"

fun server_act :: "endianness \<Rightarrow> (server_action, server_event, pool_server) action_system" where
  "server_act h Start_Worker s = (if ps_main s = M_Construct then pool_part Spawn s else None)"
| "server_act h (Pool_Worker i) s =
     (if running_task (tp_workers (ps_pool s) ! i) \<noteq> None \<and> ps_client s i \<noteq> C_Returned then None
      else pool_part (Work i) s)"
| "server_act h (Wake_Worker i) s = pool_part (Spurious i) s"
| "server_act h (Pool_Caller i) s = pool_part (Call 0 i) s"
| "server_act h (Main_Thread r) s = main_step h r s"
| "server_act h (Session i r) s =
     (if i < length (tp_workers (ps_pool s)) then
        (case running_task (tp_workers (ps_pool s) ! i) of
           Some clientSocket \<Rightarrow> client_step i clientSocket r s
         | None \<Rightarrow> None)
      else None)"

section \<open>The pool inside the server\<close>

fun pool_events :: "server_event \<Rightarrow> int pool_event list" where
  "pool_events (Pool e) = [e]"
| "pool_events _ = []"

lemma pool_effect_pool: "ps_pool (pool_effect e s) = ps_pool s"
  by (cases "(e, s)" rule: pool_effect.cases) (auto split: main_point.splits)

lemma pool_part_act:
  assumes "pool_part a s = Some (e, s')"
  shows "\<exists>e'. e = Pool e' \<and> pool_act a (ps_pool s) = Some (e', ps_pool s') \<and>
    s' = pool_effect e' (s\<lparr>ps_pool := ps_pool s'\<rparr>)"
  using assms by (auto simp: pool_part_def pool_effect_pool)

lemma pool_part_refines:
  "pool_part a s = Some (e, s') \<Longrightarrow>
    \<exists>a' e'. pool_events e = [e'] \<and> pool_act a' (ps_pool s) = Some (e', ps_pool s')"
  by (metis pool_part_act pool_events.simps(1))

lemma call_kernel_pool: "call_kernel c r who s1 = Some (e, s') \<Longrightarrow> s' = s1 \<and> e = Io who (Sys c r) \<and> reply_ok c r"
  by (auto simp: call_kernel_def split: if_splits)

lemma client_step_pool:
  assumes "client_step i fd r s = Some (e, s')"
  shows "(\<exists>n. e = Pool (Numbered i n) \<and> pool_act (Number i) (ps_pool s) = Some (Numbered i n, ps_pool s')) \<or>
    pool_events e = [] \<and> ps_pool s' = ps_pool s"
proof (cases "ps_client s i")
  case (C_Say ts n)
  then show ?thesis using assms by (cases ts) (auto simp: client_step_def)
next
  case (C_Number bs)
  then show ?thesis using assms
    by (auto simp: client_step_def getRequestNumber_def Let_def split: if_splits)
qed (use assms in \<open>auto simp: client_step_def dest!: call_kernel_pool\<close>)

lemma main_step_pool:
  assumes "main_step h r s = Some (e, s')"
  shows "(\<exists>fd. ps_main s = M_Enqueue fd \<and> (\<exists>e'. e = Pool e' \<and>
      pool_act (Enqueue 0 fd) (ps_pool s) = Some (e', ps_pool s') \<and>
      s' = go_main (M_Answer fd) (s\<lparr>ps_pool := ps_pool s'\<rparr>))) \<or>
    pool_events e = [] \<and> ps_pool s' = ps_pool s \<and> (\<forall>fd. ps_main s \<noteq> M_Enqueue fd)"
  using assms
  by (cases "ps_main s") (auto simp: main_step_def dest!: call_kernel_pool split: if_splits)

interpretation server_pool: event_refinement "server_act h" pool_act ps_pool pool_events for h
proof
  fix a s e s' assume a: "server_act h a s = Some (e, s')"
  show "(\<exists>a' e'. pool_events e = [e'] \<and> pool_act a' (ps_pool s) = Some (e', ps_pool s')) \<or>
      pool_events e = [] \<and> ps_pool s' = ps_pool s"
  proof (cases a)
    case (Main_Thread r)
    then show ?thesis using a main_step_pool [of h r s e s'] by fastforce
  next
    case (Session i r)
    then obtain fd where "client_step i fd r s = Some (e, s')" using a by (auto split: if_splits option.splits)
    from client_step_pool [OF this] show ?thesis by (metis pool_events.simps(1))
  qed (use a in \<open>auto split: if_splits dest!: pool_part_refines simp del: pool_act.simps\<close>)
qed

lemma server_pool_run:
  "run (server_act h) PoolServer es s \<Longrightarrow> run pool_act (ThreadPool 4 1) (history pool_events es) (ps_pool s)"
  using server_pool.refines_run [of h PoolServer es s] by (simp add: PoolServer_def)

end
