(* ===== verification/Pool_Server_Properties.thy ===== *)
theory Pool_Server_Properties
  imports Pool_Server
begin

text \<open>
  What the thread-pool server promises about the sockets it is handed and the request numbers it
  answers with. Both are statements about multisets that move between the main thread, the queue and
  the workers.
\<close>

section \<open>Who holds a socket\<close>

fun main_holds :: "main_point \<Rightarrow> int caller_point \<Rightarrow> int list" where
  "main_holds (M_Connected fd) pc = [fd]"
| "main_holds (M_Enqueue fd) pc = [fd]"
| "main_holds (M_Busy fd) pc = [fd]"
| "main_holds (M_Close fd) pc = [fd]"
| "main_holds (M_Answer fd) pc = (if accepting pc = 0 then [fd] else [])"
| "main_holds _ pc = []"

text \<open>The socket a worker's call of \<open>processClient\<close> has not closed yet.\<close>

definition serving :: "int worker_point \<Rightarrow> client_point \<Rightarrow> int list" where
  "serving pc c = (case running_task pc of Some fd \<Rightarrow> if c = C_Returned then [] else [fd] | None \<Rightarrow> [])"

definition worker_holds :: "pool_server \<Rightarrow> nat \<Rightarrow> int list" where
  "worker_holds s i =
     in_hand (tp_workers (ps_pool s) ! i) @ serving (tp_workers (ps_pool s) ! i) (ps_client s i)"

definition workers_hold :: "pool_server \<Rightarrow> int multiset" where
  "workers_hold s = mset (concat (map (worker_holds s) [0 ..< length (tp_workers (ps_pool s))]))"

definition owned :: "pool_server \<Rightarrow> int multiset" where
  "owned s = (if ps_main s = M_Socket then {#} else {#ps_serverSocket s#}) +
     mset (main_holds (ps_main s) (tp_callers (ps_pool s) ! 0)) +
     mset (tp_tasks (ps_pool s)) + workers_hold s"

text \<open>Main and its call of \<open>enqueue\<close>.\<close>

fun main_inv :: "main_point \<Rightarrow> int caller_point \<Rightarrow> bool" where
  "main_inv (M_Answer fd) E_Idle = False"
| "main_inv (M_Answer fd) (E_Lock t) = (t = fd)"
| "main_inv (M_Answer fd) (E_Size t) = (t = fd)"
| "main_inv (M_Answer fd) (E_Push t) = (t = fd)"
| "main_inv (M_Answer fd) _ = True"
| "main_inv _ pc = (pc = E_Idle)"

definition pool_server_inv :: "pool_server \<Rightarrow> bool" where
  "pool_server_inv s \<longleftrightarrow> length (tp_callers (ps_pool s)) = 1 \<and> main_inv (ps_main s) (tp_callers (ps_pool s) ! 0)"

fun io_events :: "server_event \<Rightarrow> event list" where
  "io_events (Io who e) = [e]"
| "io_events _ = []"

text \<open>The calls that open a descriptor succeed; the server does not check them.\<close>

fun opened_ok :: "server_event \<Rightarrow> bool" where
  "opened_ok (Io who (Sys SysSocket r)) \<longleftrightarrow> ret r \<noteq> -1"
| "opened_ok (Io who (Sys (SysAccept fd) r)) \<longleftrightarrow> 0 \<le> ret r"
| "opened_ok _ \<longleftrightarrow> True"

text \<open>One event keeps the account: descriptors move, or the kernel opens or closes one.\<close>

definition keeps_account :: "pool_server \<Rightarrow> server_event \<Rightarrow> pool_server \<Rightarrow> bool" where
  "keeps_account s e s' \<longleftrightarrow> held (owned s) (io_events e) = Some (owned s')"

lemma owned_split:
  "owned s = ((if ps_main s = M_Socket then {#} else {#ps_serverSocket s#}) +
     mset (main_holds (ps_main s) (tp_callers (ps_pool s) ! 0))) +
     (workers_hold s + mset (tp_tasks (ps_pool s)))"
  by (simp add: owned_def ac_simps)

lemma silent_account: "io_events e = [] \<Longrightarrow> owned s' = owned s \<Longrightarrow> keeps_account s e s'"
  by (simp add: keeps_account_def)

text \<open>The parts of the account that a worker moves.\<close>

lemma worker_account:
  assumes "length (tp_workers (ps_pool s')) = length (tp_workers (ps_pool s))"
    "i < length (tp_workers (ps_pool s))"
    "\<And>k. k \<noteq> i \<Longrightarrow> worker_holds s' k = worker_holds s k"
    "mset (worker_holds s' i) + A' = mset (worker_holds s i) + A"
  shows "workers_hold s' + A' = workers_hold s + A"
  unfolding workers_hold_def assms(1)
  by (rule mset_balance [OF mset_concat_map_upt [OF assms(2), of "worker_holds s'" "worker_holds s"] assms(4)])
    (simp add: assms(3))

lemma pool_effect_frame:
  "ps_serverSocket (pool_effect e s) = ps_serverSocket s"
  "(\<forall>j b. e \<noteq> Returned j b) \<Longrightarrow> ps_main (pool_effect e s) = ps_main s"
  "(\<forall>i t. e \<noteq> Began i t) \<Longrightarrow> ps_client (pool_effect e s) = ps_client s"
  "ps_client (pool_effect (Began i t) s) = (ps_client s)(i := C_Recv)"
  by (cases "(e, s)" rule: pool_effect.cases; auto split: main_point.splits)+

lemma account_worker:
  assumes i: "i < length (tp_workers (ps_pool s))"
    and s: "worker_step i (ps_pool s) = Some (e, p)"
    and r: "running_task (tp_workers (ps_pool s) ! i) \<noteq> None \<longrightarrow> ps_client s i = C_Returned"
    and s': "s' = pool_effect e (s\<lparr>ps_pool := p\<rparr>)"
  shows "owned s' = owned s" "ps_main s' = ps_main s"
proof -
  note frame = worker_frame [OF s]
  have e: "\<forall>j b. e \<noteq> Returned j b"
    using s by (cases "tp_workers (ps_pool s) ! i") (auto simp: worker_step_def split: if_splits list.splits)
  then show m: "ps_main s' = ps_main s" by (simp add: s' pool_effect_frame)
  have p': "ps_pool s' = p" by (simp add: s' pool_effect_pool)
  have client: "ps_client s' k = (if k = i \<and> (\<exists>t. e = Began i t) then C_Recv else ps_client s k)" for k
    using s unfolding s'
    by (cases "tp_workers (ps_pool s) ! i") (auto simp: worker_step_def split: if_splits list.splits)
  have other: "worker_holds s' k = worker_holds s k" if "k \<noteq> i" for k
    using that frame(8) [of k] by (simp add: worker_holds_def p' client)
  have own: "mset (worker_holds s' i) + mset (tp_tasks p) = mset (worker_holds s i) + mset (tp_tasks (ps_pool s))"
    using s i r client [of i]
    by (cases "tp_workers (ps_pool s) ! i")
      (auto simp: worker_step_def worker_holds_def serving_def running_task_def p' split: if_splits list.splits)
  have "workers_hold s' + mset (tp_tasks p) = workers_hold s + mset (tp_tasks (ps_pool s))"
    using worker_account [OF _ i other own] frame(7) p' by simp
  then show "owned s' = owned s"
    unfolding owned_split m p' frame(1) by (simp add: s' pool_effect_frame(1))
qed

text \<open>The call of \<open>enqueue\<close> moves main's socket into the queue, or gives it back.\<close>

lemma account_caller:
  assumes inv: "pool_server_inv s"
    and s: "enqueue_step 0 i (ps_pool s) = Some (e, p)"
    and s': "s' = pool_effect e (s\<lparr>ps_pool := p\<rparr>)"
  shows "owned s' = owned s" "pool_server_inv s'"
proof -
  note frame = enqueue_frame [OF s]
  have p': "ps_pool s' = p" by (simp add: s' pool_effect_pool)
  have len: "0 < length (tp_callers (ps_pool s))" "length (tp_callers p) = 1"
    using inv frame(7) by (simp_all add: pool_server_inv_def)
  have "tp_callers (ps_pool s) ! 0 \<noteq> E_Idle" using s by (auto simp: enqueue_step_def)
  then obtain fd where m: "ps_main s = M_Answer fd" "main_inv (M_Answer fd) (tp_callers (ps_pool s) ! 0)"
    using inv unfolding pool_server_inv_def by (cases "ps_main s") auto
  have c: "ps_client s' = ps_client s"
    using s unfolding s' by (cases "tp_callers (ps_pool s) ! 0")
      (auto simp: enqueue_step_def pool_effect_frame split: if_splits main_point.splits)
  then have w: "workers_hold s' = workers_hold s"
    unfolding workers_hold_def p' frame(1) by (simp add: worker_holds_def p' frame(1) cong: map_cong)
  have "main_inv (ps_main s') (tp_callers p ! 0) \<and>
    mset (main_holds (ps_main s') (tp_callers p ! 0)) + mset (tp_tasks p) =
    mset (main_holds (M_Answer fd) (tp_callers (ps_pool s) ! 0)) + mset (tp_tasks (ps_pool s)) \<and>
    ps_main s' \<noteq> M_Socket"
    using s m len(1) unfolding s'
    by (cases "tp_callers (ps_pool s) ! 0") (auto simp: enqueue_step_def split: if_splits)
  then show "owned s' = owned s" "pool_server_inv s'"
    using len(2) unfolding owned_def pool_server_inv_def p' w m(1)
    by (simp_all add: s' pool_effect_frame(1) ac_simps)
qed

text \<open>A worker in \<open>processClient\<close> uses its own socket and closes it at the end.\<close>

lemma account_client:
  assumes i: "i < length (tp_workers (ps_pool s))"
    and t: "running_task (tp_workers (ps_pool s) ! i) = Some fd"
    and s: "client_step i fd r s = Some (e, s')"
  shows "keeps_account s e s'" "ps_main s' = ps_main s" "tp_callers (ps_pool s') = tp_callers (ps_pool s)"
proof -
  have "ps_main s' = ps_main s \<and> ps_serverSocket s' = ps_serverSocket s \<and>
      (\<exists>n. ps_pool s' = ps_pool s\<lparr>tp_requestCounter := n\<rparr>) \<and> ps_client s i \<noteq> C_Returned \<and>
      (\<forall>k. k \<noteq> i \<longrightarrow> ps_client s' k = ps_client s k) \<and>
      (io_events e = [Sys (SysClose fd) r] \<and> ps_client s' i = C_Returned \<or>
       (io_events e = [] \<or> (\<exists>q. io_events e = [q] \<and> (\<exists>n bs t. q = Sys (SysRecv fd n) r \<or> q = Sys (SysSend fd bs) r \<or> q = Out t))) \<and>
       ps_client s' i \<noteq> C_Returned)"
  proof (cases "ps_client s i")
    case (C_Say ts n)
    then show ?thesis using s by (cases ts) (auto simp: client_step_def intro!: exI [of _ "tp_requestCounter (ps_pool s)"])
  next
    case (C_Number bs)
    then show ?thesis using s by (auto simp: client_step_def getRequestNumber_def Let_def split: if_splits)
  qed (use s in \<open>auto simp: client_step_def call_kernel_def split: if_splits
         intro!: exI [of _ "tp_requestCounter (ps_pool s)"]\<close>)
  then obtain n where m: "ps_main s' = ps_main s" "ps_serverSocket s' = ps_serverSocket s"
    and p': "ps_pool s' = ps_pool s\<lparr>tp_requestCounter := n\<rparr>"
    and c: "ps_client s i \<noteq> C_Returned" "\<And>k. k \<noteq> i \<Longrightarrow> ps_client s' k = ps_client s k"
    and e: "io_events e = [Sys (SysClose fd) r] \<and> ps_client s' i = C_Returned \<or>
       (io_events e = [] \<or> (\<exists>q. io_events e = [q] \<and> (\<exists>n bs t. q = Sys (SysRecv fd n) r \<or> q = Sys (SysSend fd bs) r \<or> q = Out t))) \<and>
       ps_client s' i \<noteq> C_Returned"
    by blast
  show "ps_main s' = ps_main s" "tp_callers (ps_pool s') = tp_callers (ps_pool s)" using m p' by simp_all
  have other: "worker_holds s' k = worker_holds s k" if "k \<noteq> i" for k
    using c(2) [OF that] by (simp add: worker_holds_def p')
  have mine: "worker_holds s i = in_hand (tp_workers (ps_pool s) ! i) @ [fd]"
    using c(1) t by (simp add: worker_holds_def serving_def)
  have fd: "fd \<in># workers_hold s" using i mine by (force simp: workers_hold_def intro!: bexI [of _ i])
  then have held: "fd \<in># owned s" by (simp add: owned_def)
  show "keeps_account s e s'"
  proof (cases "ps_client s' i = C_Returned")
    case True
    then have "mset (worker_holds s' i) + {#fd#} = mset (worker_holds s i) + {#}"
      using t c(1) by (simp add: worker_holds_def serving_def p')
    from worker_account [OF _ i other this] have "workers_hold s' + {#fd#} = workers_hold s" using p' by simp
    then have "owned s = owned s' + {#fd#}" using m p' by (simp add: owned_def)
    then show ?thesis using e True held by (auto simp: keeps_account_def)
  next
    case False
    then have "mset (worker_holds s' i) + {#} = mset (worker_holds s i) + {#}"
      using t c(1) by (simp add: worker_holds_def serving_def p')
    from worker_account [OF _ i other this] have "workers_hold s' = workers_hold s" using p' by simp
    then have "owned s' = owned s" using m p' by (simp add: owned_def)
    then show ?thesis using e False held by (auto simp: keeps_account_def)
  qed
qed


lemma workers_hold_same:
  assumes "tp_workers (ps_pool s') = tp_workers (ps_pool s)" "ps_client s' = ps_client s"
  shows "workers_hold s' = workers_hold s"
  unfolding workers_hold_def assms(1) by (simp add: worker_holds_def assms cong: map_cong)

lemma account_main:
  assumes inv: "pool_server_inv s"
    and s: "main_step h r s = Some (e, s')"
  shows "opened_ok e \<Longrightarrow> keeps_account s e s'" "pool_server_inv s'"
proof -
  have w: "workers_hold s' = workers_hold s"
    using s by (intro workers_hold_same; cases "ps_main s")
      (auto simp: main_step_def call_kernel_def split: if_splits)
  have "tp_callers (ps_pool s) ! 0 = E_Idle" if "\<forall>fd. ps_main s \<noteq> M_Answer fd"
    using inv that by (cases "ps_main s") (simp_all add: pool_server_inv_def)
  then have idle: "(\<forall>fd. ps_main s \<noteq> M_Answer fd) \<longrightarrow> tp_callers (ps_pool s) ! 0 = E_Idle" by blast
  have len: "length (tp_callers (ps_pool s)) = 1" using inv by (simp add: pool_server_inv_def)
  show "keeps_account s e s'" if "opened_ok e"
    using s that idle w len
    by (cases "ps_main s")
      (auto simp: main_step_def call_kernel_def keeps_account_def owned_def split: if_splits)
  show "pool_server_inv s'"
    using s idle len
    by (cases "ps_main s") (auto simp: main_step_def call_kernel_def pool_server_inv_def split: if_splits)
qed

lemma account_spawn:
  assumes "pool_part Spawn s = Some (e, s')"
  shows "owned s' = owned s" "ps_main s' = ps_main s" "tp_callers (ps_pool s') = tp_callers (ps_pool s)"
    "io_events e = []"
proof -
  have s': "s' = s\<lparr>ps_pool := (ps_pool s)\<lparr>tp_workers := tp_workers (ps_pool s) @ [W_Lock]\<rparr>\<rparr>" "e = Pool Silent"
    using assms by (auto simp: pool_part_def spawn_worker_def split: if_splits)
  define n where "n = length (tp_workers (ps_pool s))"
  have old: "map (worker_holds s') [0 ..< n] = map (worker_holds s) [0 ..< n]"
    by (simp add: s' worker_holds_def nth_append n_def)
  have new: "worker_holds s' n = []"
    by (simp add: s' worker_holds_def serving_def running_task_def n_def)
  have "length (tp_workers (ps_pool s')) = Suc n" by (simp add: s' n_def)
  then have "workers_hold s' = mset (concat (map (worker_holds s') [0 ..< n] @ [worker_holds s' n]))"
    by (simp add: workers_hold_def)
  then have "workers_hold s' = workers_hold s" unfolding old new by (simp add: workers_hold_def n_def)
  then show "owned s' = owned s" "ps_main s' = ps_main s" "tp_callers (ps_pool s') = tp_callers (ps_pool s)"
    "io_events e = []"
    by (simp_all add: owned_def s')
qed

lemma account_act:
  assumes inv: "pool_server_inv s" and a: "server_act h a s = Some (e, s')"
  shows "(opened_ok e \<longrightarrow> keeps_account s e s') \<and> pool_server_inv s'"
proof (cases a)
  case Start_Worker
  then have "pool_part Spawn s = Some (e, s')" using a by (auto split: if_splits)
  from account_spawn [OF this] show ?thesis using inv by (simp add: pool_server_inv_def silent_account)
next
  case (Pool_Worker i)
  then have p: "pool_part (Work i) s = Some (e, s')"
    and r: "running_task (tp_workers (ps_pool s) ! i) \<noteq> None \<longrightarrow> ps_client s i = C_Returned"
    using a by (auto split: if_splits)
  from p obtain e' p' where w: "i < length (tp_workers (ps_pool s))" "worker_step i (ps_pool s) = Some (e', p')"
    "e = Pool e'" "s' = pool_effect e' (s\<lparr>ps_pool := p'\<rparr>)"
    by (auto simp: pool_part_def split: if_splits)
  note acc = account_worker [OF w(1,2) r w(4)]
  show ?thesis using inv acc worker_frame(1) [OF w(2)] w(3,4)
    by (simp add: pool_server_inv_def silent_account pool_effect_pool)
next
  case (Wake_Worker i)
  then have "\<exists>c. s' = s\<lparr>ps_pool := (ps_pool s)\<lparr>tp_condition := c\<rparr>\<rparr> \<and> e = Pool Silent"
    using a by (auto simp: pool_part_def split: if_splits)
  then obtain c where s': "s' = s\<lparr>ps_pool := (ps_pool s)\<lparr>tp_condition := c\<rparr>\<rparr>" "e = Pool Silent" by blast
  have "workers_hold s' = workers_hold s" by (rule workers_hold_same) (simp_all add: s')
  then have "owned s' = owned s" by (simp add: owned_def s')
  then show ?thesis using inv by (simp add: pool_server_inv_def silent_account s')
next
  case (Pool_Caller i)
  then obtain e' p' where c: "enqueue_step 0 i (ps_pool s) = Some (e', p')" "e = Pool e'"
    "s' = pool_effect e' (s\<lparr>ps_pool := p'\<rparr>)"
    using a by (auto simp: pool_part_def split: if_splits)
  from account_caller [OF inv c(1,3)] show ?thesis using c(2) by (simp add: silent_account)
next
  case (Main_Thread r)
  then show ?thesis using a account_main [OF inv, of h r e s'] by auto
next
  case (Session i r)
  then obtain fd where c: "i < length (tp_workers (ps_pool s))" "running_task (tp_workers (ps_pool s) ! i) = Some fd"
    "client_step i fd r s = Some (e, s')"
    using a by (auto split: if_splits option.splits)
  from account_client [OF c] show ?thesis using inv by (simp add: pool_server_inv_def)
qed

interpretation server_account: event_invariant "server_act h" "\<lambda>s. s = PoolServer"
    "\<lambda>es s. list_all opened_ok es \<longrightarrow> pool_server_inv s \<and> held {#} (history io_events es) = Some (owned s)" for h
proof
  fix s assume "s = PoolServer"
  then show "list_all opened_ok [] \<longrightarrow> pool_server_inv s \<and> held {#} (history io_events []) = Some (owned s)"
    by (simp add: PoolServer_def ThreadPool_def pool_server_inv_def owned_def workers_hold_def)
next
  fix es s a e s'
  assume h: "list_all opened_ok es \<longrightarrow> pool_server_inv s \<and> held {#} (history io_events es) = Some (owned s)"
    and a: "server_act h a s = Some (e, s')"
  show "list_all opened_ok (es @ [e]) \<longrightarrow> pool_server_inv s' \<and> held {#} (history io_events (es @ [e])) = Some (owned s')"
    using h account_act [OF _ a] by (auto simp: keeps_account_def held_append)
qed

text \<open>
  C8. The account of the sockets. As long as \<open>socket\<close> and \<open>accept\<close> succeed, whatever the schedule and
  the kernel's other answers, every system call of main and of the workers is on a descriptor the
  program holds, and what it holds is: the listening socket, the connection main is handing over, the
  tasks in the queue, and for each worker the connection it took or serves. So every accepted
  connection has exactly one owner until it is closed, and it is closed once.
\<close>

theorem server_sockets:
  assumes "run (server_act h) PoolServer es s" "list_all opened_ok es"
  shows "held {#} (history io_events es) = Some (owned s)"
  using server_account.inv_run [OF assms(1)] assms(2) by blast


section \<open>Request numbers and answers\<close>

definition answer :: "int \<Rightarrow> bytes" where
  "answer requestId = bytes_of_string (response_text requestId)"

lemma answer_inj: "inj answer"
proof (rule injI)
  fix m n assume "answer m = answer n"
  then have "response_text m = response_text n" unfolding answer_def by (metis string_of_bytes_of_string)
  then show "m = n" by (simp add: response_text_def to_string_inj)
qed

text \<open>The numbers a worker has been given and not answered with yet.\<close>

definition pending :: "pool_server \<Rightarrow> nat \<Rightarrow> int list" where
  "pending s i =
     (if running_task (tp_workers (ps_pool s) ! i) = None then []
      else (case ps_client s i of C_Say _ n \<Rightarrow> [n] | C_Send n \<Rightarrow> [n] | _ \<Rightarrow> []))"

definition all_pending :: "pool_server \<Rightarrow> int list" where
  "all_pending s = concat (map (pending s) [0 ..< length (tp_workers (ps_pool s))])"

text \<open>What workers send.\<close>

fun answers_of :: "server_event \<Rightarrow> bytes list" where
  "answers_of (Io (Some i) (Sys (SysSend fd bs) r)) = [bs]"
| "answers_of _ = []"

fun handed_out :: "server_event \<Rightarrow> int list" where
  "handed_out (Pool e) = numbers_of e"
| "handed_out _ = []"

definition balanced :: "pool_server \<Rightarrow> server_event \<Rightarrow> pool_server \<Rightarrow> bool" where
  "balanced s e s' \<longleftrightarrow>
     mset (answers_of e) + mset (map answer (all_pending s')) =
     mset (map answer (handed_out e)) + mset (map answer (all_pending s))"

lemma pending_move:
  assumes "length (tp_workers (ps_pool s')) = length (tp_workers (ps_pool s))"
    "i < length (tp_workers (ps_pool s))"
    "\<And>k. k \<noteq> i \<Longrightarrow> pending s' k = pending s k"
    "mset (pending s' i) + A' = mset (pending s i) + A"
  shows "mset (all_pending s') + A' = mset (all_pending s) + A"
  unfolding all_pending_def assms(1)
  by (rule mset_balance [OF mset_concat_map_upt [OF assms(2), of "pending s'" "pending s"] assms(4)])
    (simp add: assms(3))

lemma pending_same:
  assumes "tp_workers (ps_pool s') = tp_workers (ps_pool s)" "ps_client s' = ps_client s"
  shows "all_pending s' = all_pending s"
proof -
  have "pending s' = pending s" by (rule ext) (simp add: pending_def assms)
  then show ?thesis by (simp add: all_pending_def assms(1))
qed

lemma balanced_silent:
  "answers_of e = [] \<Longrightarrow> handed_out e = [] \<Longrightarrow> mset (all_pending s') = mset (all_pending s) \<Longrightarrow> balanced s e s'"
  by (simp add: balanced_def)

lemma balanced_worker:
  assumes i: "i < length (tp_workers (ps_pool s))"
    and s: "worker_step i (ps_pool s) = Some (e, p)"
    and r: "running_task (tp_workers (ps_pool s) ! i) \<noteq> None \<longrightarrow> ps_client s i = C_Returned"
    and s': "s' = pool_effect e (s\<lparr>ps_pool := p\<rparr>)"
  shows "balanced s (Pool e) s'"
proof -
  note frame = worker_frame [OF s]
  have p': "ps_pool s' = p" by (simp add: s' pool_effect_pool)
  have client: "ps_client s' k = (if k = i \<and> (\<exists>t. e = Began i t) then C_Recv else ps_client s k)" for k
    using s unfolding s'
    by (cases "tp_workers (ps_pool s) ! i") (auto simp: worker_step_def split: if_splits list.splits)
  have other: "pending s' k = pending s k" if "k \<noteq> i" for k
    using that frame(8) [of k] by (simp add: pending_def p' client)
  have "mset (pending s' i) + {#} = mset (pending s i) + {#}"
    using s i r client [of i]
    by (cases "tp_workers (ps_pool s) ! i")
      (auto simp: worker_step_def pending_def running_task_def p' split: if_splits list.splits)
  from pending_move [OF _ i other this] show ?thesis
    using frame(7) p' worker_history(3) [OF s i] by (simp add: balanced_silent)
qed

lemma balanced_client:
  assumes i: "i < length (tp_workers (ps_pool s))"
    and t: "running_task (tp_workers (ps_pool s) ! i) = Some fd"
    and s: "client_step i fd r s = Some (e, s')"
  shows "balanced s e s'"
proof -
  have "(\<exists>n. ps_pool s' = ps_pool s\<lparr>tp_requestCounter := n\<rparr>) \<and>
      (\<forall>k. k \<noteq> i \<longrightarrow> ps_client s' k = ps_client s k) \<and>
      (\<exists>out. answers_of e = map answer out \<and>
        mset (pending s' i) + mset out = mset (pending s i) + mset (handed_out e))"
  proof (cases "ps_client s i")
    case (C_Say ts n)
    then show ?thesis using s t
      by (cases ts) (auto simp: client_step_def pending_def intro!: exI [of _ "tp_requestCounter (ps_pool s)"])
  next
    case (C_Number bs)
    then show ?thesis using s t
      by (auto simp: client_step_def getRequestNumber_def pending_def Let_def split: if_splits)
  next
    case (C_Send n)
    then show ?thesis using s t
      by (auto simp: client_step_def call_kernel_def pending_def answer_def split: if_splits
          intro!: exI [of _ "tp_requestCounter (ps_pool s)"] exI [of _ "[n]"])
  qed (use s t in \<open>auto simp: client_step_def call_kernel_def pending_def split: if_splits
         intro!: exI [of _ "tp_requestCounter (ps_pool s)"]\<close>)
  then obtain n out where p': "ps_pool s' = ps_pool s\<lparr>tp_requestCounter := n\<rparr>"
    and c: "\<And>k. k \<noteq> i \<Longrightarrow> ps_client s' k = ps_client s k" and out: "answers_of e = map answer out"
    and m: "mset (pending s' i) + mset out = mset (pending s i) + mset (handed_out e)"
    by blast
  have "pending s' k = pending s k" if "k \<noteq> i" for k using c [OF that] by (simp add: pending_def p')
  from pending_move [OF _ i this m] p' have
    "mset (all_pending s') + mset out = mset (all_pending s) + mset (handed_out e)" by simp
  then have "image_mset answer (mset (all_pending s') + mset out) =
      image_mset answer (mset (all_pending s) + mset (handed_out e))" by (rule arg_cong)
  then show ?thesis by (simp add: balanced_def out ac_simps)
qed

lemma balanced_act:
  assumes a: "server_act h a s = Some (e, s')"
  shows "balanced s e s'"
proof (cases a)
  case Start_Worker
  then have s': "s' = s\<lparr>ps_pool := (ps_pool s)\<lparr>tp_workers := tp_workers (ps_pool s) @ [W_Lock]\<rparr>\<rparr>" "e = Pool Silent"
    using a by (auto simp: pool_part_def spawn_worker_def split: if_splits)
  define n where "n = length (tp_workers (ps_pool s))"
  have old: "map (pending s') [0 ..< n] = map (pending s) [0 ..< n]"
    by (simp add: s' pending_def nth_append n_def)
  have new: "pending s' n = []" by (simp add: s' pending_def running_task_def n_def)
  have "length (tp_workers (ps_pool s')) = Suc n" by (simp add: s' n_def)
  then have "all_pending s' = concat (map (pending s') [0 ..< n] @ [pending s' n])"
    by (simp add: all_pending_def)
  then have "all_pending s' = all_pending s" unfolding old new by (simp add: all_pending_def n_def)
  then show ?thesis by (simp add: balanced_silent s'(2))
next
  case (Pool_Worker i)
  then have p: "pool_part (Work i) s = Some (e, s')"
    and r: "running_task (tp_workers (ps_pool s) ! i) \<noteq> None \<longrightarrow> ps_client s i = C_Returned"
    using a by (auto split: if_splits)
  from p obtain e' p' where w: "i < length (tp_workers (ps_pool s))" "worker_step i (ps_pool s) = Some (e', p')"
    "e = Pool e'" "s' = pool_effect e' (s\<lparr>ps_pool := p'\<rparr>)"
    by (auto simp: pool_part_def split: if_splits)
  from balanced_worker [OF w(1,2) r w(4)] show ?thesis unfolding w(3) .
next
  case (Wake_Worker i)
  then have "\<exists>c. s' = s\<lparr>ps_pool := (ps_pool s)\<lparr>tp_condition := c\<rparr>\<rparr> \<and> e = Pool Silent"
    using a by (auto simp: pool_part_def split: if_splits)
  then show ?thesis using pending_same [of s' s] by (auto intro: balanced_silent)
next
  case (Pool_Caller i)
  then obtain e' p' where c: "enqueue_step 0 i (ps_pool s) = Some (e', p')" "e = Pool e'"
    "s' = pool_effect e' (s\<lparr>ps_pool := p'\<rparr>)"
    using a by (auto simp: pool_part_def split: if_splits)
  have b: "\<forall>i t. e' \<noteq> Began i t" "numbers_of e' = []"
    using c(1) by (cases "tp_callers (ps_pool s) ! 0"; auto simp: enqueue_step_def split: if_splits)+
  have "all_pending s' = all_pending s"
    using enqueue_frame(1) [OF c(1)] b(1) by (intro pending_same) (simp_all add: c(3) pool_effect_pool pool_effect_frame)
  then show ?thesis using b(2) by (simp add: balanced_silent c(2))
next
  case (Main_Thread r)
  then have "tp_workers (ps_pool s') = tp_workers (ps_pool s) \<and> ps_client s' = ps_client s \<and>
      answers_of e = [] \<and> handed_out e = []"
    using a by (cases "ps_main s") (auto simp: main_step_def call_kernel_def split: if_splits)
  then show ?thesis using pending_same [of s' s] by (simp add: balanced_silent)
next
  case (Session i r)
  then show ?thesis using a balanced_client by (auto split: if_splits option.splits)
qed

interpretation server_answers: event_invariant "server_act h" "\<lambda>s. s = PoolServer"
    "\<lambda>es s. mset (history answers_of es) + mset (map answer (all_pending s)) =
       mset (map answer (history handed_out es))" for h
proof
  fix es s a e s'
  assume h: "mset (history answers_of es) + mset (map answer (all_pending s)) =
      mset (map answer (history handed_out es))" and a: "server_act h a s = Some (e, s')"
  have "mset (history answers_of (es @ [e])) + mset (map answer (all_pending s')) =
      mset (history answers_of es) + (mset (answers_of e) + mset (map answer (all_pending s')))"
    by (simp add: ac_simps)
  also have "\<dots> = (mset (history answers_of es) + mset (map answer (all_pending s))) +
      mset (map answer (handed_out e))"
    using balanced_act [OF a] unfolding balanced_def by (simp add: ac_simps)
  finally show "mset (history answers_of (es @ [e])) + mset (map answer (all_pending s')) =
      mset (map answer (history handed_out (es @ [e])))"
    unfolding h by simp
qed (simp add: PoolServer_def ThreadPool_def all_pending_def)

lemma handed_out_numbers: "history handed_out es = history numbers_of (history pool_events es)"
proof (induction es)
  case (Cons e es)
  then show ?case by (cases e) simp_all
qed simp

text \<open>
  C18. Every request of every client is answered under a number of its own. Whatever the schedule of
  main and the workers, after \<open>k\<close> requests (fewer than \<open>2 ^ 31\<close>) the answers sent by all workers
  together, and those that workers are about to send, are the texts for 1, 2, ..., \<open>k\<close>, each once.
\<close>

theorem server_answers_numbered:
  assumes "run (server_act h) PoolServer es s" "length (history handed_out es) < 2 ^ 31"
  shows "mset (history answers_of es) + mset (map answer (all_pending s)) =
      mset (map (\<lambda>k. answer (int k + 1)) [0 ..< length (history handed_out es)]) \<and>
    distinct (history answers_of es)"
proof -
  let ?k = "length (history handed_out es)"
  have n: "history handed_out es = map (\<lambda>k. int k + 1) [0 ..< ?k]"
    using numbers_small [OF server_pool_run [OF assms(1)]] assms(2) by (simp add: handed_out_numbers)
  have m: "mset (history answers_of es) + mset (map answer (all_pending s)) =
      mset (map answer (history handed_out es))"
    using server_answers.inv_run [OF assms(1)] by simp
  have "distinct (map answer (history handed_out es))"
    by (subst n) (simp add: distinct_map inj_on_def inj_eq [OF answer_inj])
  moreover have "mset (history answers_of es) \<subseteq># mset (map answer (history handed_out es))"
    using m by (metis mset_subset_eq_add_left)
  ultimately have "distinct (history answers_of es)" by (rule distinct_submset)
  moreover have "map answer (history handed_out es) = map (\<lambda>k. answer (int k + 1)) [0 ..< ?k]"
    by (subst n) simp
  ultimately show ?thesis using m by simp
qed


section \<open>Witnesses\<close>

definition gives :: "int \<Rightarrow> bytes \<Rightarrow> reply" where
  "gives n bs = \<lparr>ret = n, err_text = [], err_EINTR = False, err_ECONNRESET = False, stored = bs, stored_port = 0\<rparr>"

text \<open>Start the server, accept a connection with descriptor \<open>fd\<close>, and let worker 0 take it.\<close>

definition served_schedule :: "int \<Rightarrow> server_action list" where
  "served_schedule fd =
     [Main_Thread (gives 3 []), Main_Thread (gives 0 []), Main_Thread (gives 0 []), Main_Thread (gives 0 []),
      Start_Worker, Start_Worker, Start_Worker, Start_Worker, Main_Thread (gives 0 []),
      Main_Thread (gives fd []), Main_Thread (gives 0 []), Main_Thread (gives 0 []),
      Pool_Caller 0, Pool_Caller 0, Pool_Caller 0, Pool_Caller 0, Pool_Caller 0, Pool_Caller 0] @
     replicate 8 (Pool_Worker 0)"

text \<open>One request and its answer.\<close>

definition answered_schedule :: "server_action list" where
  "answered_schedule =
     served_schedule 4 @ Session 0 (gives 2 [104, 105]) # replicate 8 (Session 0 (gives 0 []))"

lemma server_run_witness:
  assumes "case run_schedule (server_act h) as PoolServer of None \<Rightarrow> False | Some (es, s) \<Rightarrow> P es s"
  obtains es s where "run (server_act h) PoolServer es s" "P es s"
  using assms run_schedule_run [of "server_act h" as PoolServer] by (force split: option.splits)

theorem server_sockets_witness:
  "\<exists>es s. run (server_act Little) PoolServer es s \<and> held {#} (history io_events es) = Some {#3, 4#}"
proof -
  have "case run_schedule (server_act Little) (served_schedule 4) PoolServer of None \<Rightarrow> False
    | Some (es, s) \<Rightarrow> list_all opened_ok es \<and> ps_main s = M_Accept \<and> ps_serverSocket s = 3 \<and>
        tp_tasks (ps_pool s) = [] \<and>
        concat (map (worker_holds s) [0 ..< length (tp_workers (ps_pool s))]) = [4]"
    by code_simp
  then obtain es s where r: "run (server_act Little) PoolServer es s" and
    s: "list_all opened_ok es \<and> ps_main s = M_Accept \<and> ps_serverSocket s = 3 \<and>
        tp_tasks (ps_pool s) = [] \<and>
        concat (map (worker_holds s) [0 ..< length (tp_workers (ps_pool s))]) = [4]"
    by (rule server_run_witness)
  then have "owned s = {#3, 4#}" by (simp add: owned_def workers_hold_def)
  with server_sockets [OF r] r s show ?thesis by metis
qed

theorem server_answers_numbered_witness:
  "\<exists>es s. run (server_act Little) PoolServer es s \<and> mset (history answers_of es) = {#answer 1#}"
proof -
  have "case run_schedule (server_act Little) answered_schedule PoolServer of None \<Rightarrow> False
    | Some (es, s) \<Rightarrow> length (history handed_out es) = 1 \<and> all_pending s = []"
    by code_simp
  then obtain es s where r: "run (server_act Little) PoolServer es s" and
    s: "length (history handed_out es) = 1 \<and> all_pending s = []"
    by (rule server_run_witness)
  have "length (history handed_out es) < 2 ^ 31" using s by simp
  from server_answers_numbered [OF r this] s show ?thesis using r by auto
qed

text \<open>
  Without the hypothesis of \<open>server_sockets\<close> the account fails: main does not look at the result of
  \<open>accept\<close>, so a failed one is queued as a connection and a worker reads from descriptor -1.
\<close>

lemma failed_accept_served:
  "\<exists>es s. run (server_act Little) PoolServer es s \<and> held {#} (history io_events es) = None"
proof -
  have "case run_schedule (server_act Little) (served_schedule (-1) @ [Session 0 (gives (-1) [])]) PoolServer of None \<Rightarrow> False
    | Some (es, s) \<Rightarrow> held {#} (history io_events es) = None"
    by code_simp
  then obtain es s where "run (server_act Little) PoolServer es s" "held {#} (history io_events es) = None"
    by (rule server_run_witness)
  then show ?thesis by blast
qed

end
