(* ===== verification/Pool_Clients.thy ===== *)
theory Pool_Clients
  imports Simulation
begin

text \<open>
  The clients of the thread-pool server. \<open>v1_client\<close> is \<open>main\<close> of \<open>Version1/src/Client.cpp\<close>, which
  checks no result; \<open>read\<close> on a socket is \<open>recv\<close> without flags. \<open>v2_client\<close> is \<open>main\<close> of
  \<open>Version_2/src/Client.cpp\<close>, which checks every result and repeats calls that a signal interrupted.
  Its two loops may run forever (interrupted again and again, or a kernel that accepts no byte), so
  they are partial: \<open>None\<close> is a run that does not return.
\<close>

section \<open>The first client\<close>

text \<open>\<open>std::string(buffer, n)\<close> of a signed count: a negative one becomes a size too large to allocate.\<close>

definition string_of_buffer :: "bytes \<Rightarrow> int \<Rightarrow> std_exception + string" where
  "string_of_buffer buffer n =
     (if n < 0 then Inl length_error else Inr (string_of_bytes (take (nat n) buffer)))"

definition local_server :: "'w platform \<Rightarrow> sockaddr_in" where
  "local_server P =
     \<lparr>sin_addr = (case inet_pton P ''127.0.0.1'' of Some a \<Rightarrow> a | None \<Rightarrow> 0),
      sin_port = htons (native P) 8080\<rparr>"

definition v1_client :: "'w platform \<Rightarrow> 'w world \<Rightarrow> (std_exception + int) \<times> 'w world" where
  "v1_client P w =
     (case syscall P SysSocket w of (r, w1) \<Rightarrow>
        let sock = ret r in
      case syscall P (SysConnect sock (local_server P)) w1 of (_, w2) \<Rightarrow>
      case syscall P (SysSend sock (bytes_of_string ''hello to server'')) w2 of (_, w3) \<Rightarrow>
      case syscall P (SysRecv sock 1024) w3 of (got, w4) \<Rightarrow>
      case string_of_buffer (stored got) (ret got) of
        Inl e \<Rightarrow> (Inl e, cout ''Response: '' w4)
      | Inr text \<Rightarrow>
          let w5 = cout endl (cout text (cout ''Response: '' w4))
          in (Inr 0, snd (syscall P (SysClose sock) w5)))"

section \<open>The second client\<close>

partial_function (option) v2_send ::
    "'w platform \<Rightarrow> int \<Rightarrow> bytes \<Rightarrow> nat \<Rightarrow> 'w world \<Rightarrow> (int \<times> 'w world) option" where
  "v2_send P sock message totalSent w =
     (if totalSent < length message
      then (case syscall P (SysSend sock (drop totalSent message)) w of (r, w1) \<Rightarrow>
        if ret r = -1
        then if err_EINTR r then v2_send P sock message totalSent w1
             else let w2 = cerr (''send() failed: '' @ err_text r @ endl) w1
                  in Some (1, snd (syscall P (SysClose sock) w2))
        else v2_send P sock message (totalSent + nat (ret r)) w1)
      else Some (0, w))"

partial_function (option) v2_receive ::
    "'w platform \<Rightarrow> int \<Rightarrow> 'w world \<Rightarrow> (int \<times> reply \<times> 'w world) option" where
  "v2_receive P sock w =
     (case syscall P (SysRecv sock 1024) w of (r, w1) \<Rightarrow>
        if ret r = -1
        then if err_EINTR r then v2_receive P sock w1
             else let w2 = cerr (''recv() failed: '' @ err_text r @ endl) w1
                  in Some (1, r, snd (syscall P (SysClose sock) w2))
        else Some (0, r, w1))"

declare v2_send.simps [code] v2_receive.simps [code]

text \<open>The phases: the connection, the message, the response and the cleanup.\<close>

definition v2_finish :: "'w platform \<Rightarrow> int \<Rightarrow> reply \<Rightarrow> 'w world \<Rightarrow> int \<times> 'w world" where
  "v2_finish P sock got w =
     (let w1 = (if ret got = 0 then cout (''Server closed the connection.'' @ endl) w
                else cout endl (cout (string_of_bytes (take (nat (ret got)) (stored got)))
                  (cout ''Server Response: '' w)))
      in case syscall P (SysClose sock) w1 of (r, w2) \<Rightarrow>
        (0, if ret r = -1 then cerr (''close() failed: '' @ err_text r @ endl) w2 else w2))"

definition v2_message :: bytes where
  "v2_message = bytes_of_string ''Hello Server''"

definition v2_exchange :: "'w platform \<Rightarrow> int \<Rightarrow> 'w world \<Rightarrow> (int \<times> 'w world) option" where
  "v2_exchange P sock w =
     (case v2_send P sock v2_message 0 w of
        None \<Rightarrow> None
      | Some (exitCode, w1) \<Rightarrow>
          if exitCode \<noteq> 0 then Some (exitCode, w1)
          else
            let w2 = cout (''Sent '' @ to_string (int (length v2_message)) @ '' bytes.'' @ endl) w1 in
            (case v2_receive P sock w2 of
               None \<Rightarrow> None
             | Some (exitCode, got, w3) \<Rightarrow>
                 Some (if exitCode \<noteq> 0 then (exitCode, w3) else v2_finish P sock got w3)))"

definition v2_client :: "'w platform \<Rightarrow> 'w world \<Rightarrow> (int \<times> 'w world) option" where
  "v2_client P w =
     (case syscall P SysSocket w of (r, w1) \<Rightarrow>
        let sock = ret r in
        if sock = -1 then Some (1, cerr (''socket() failed: '' @ err_text r @ endl) w1)
        else
          (case inet_pton P ''127.0.0.1'' of
             None \<Rightarrow> Some (1, snd (syscall P (SysClose sock) (cerr (''Invalid IP address'' @ endl) w1)))
           | Some addr \<Rightarrow>
               (case syscall P (SysConnect sock \<lparr>sin_addr = addr, sin_port = htons (native P) 8080\<rparr>) w1 of (r2, w2) \<Rightarrow>
                  if ret r2 = -1
                  then Some (1, snd (syscall P (SysClose sock) (cerr (''connect() failed: '' @ err_text r2 @ endl) w2)))
                  else v2_exchange P sock (cout (''Connected to server.'' @ endl) w2))))"

section \<open>What the phases do\<close>

text \<open>A phase on the client's socket: it reports at most one failure, and closes the socket if it does.\<close>

definition v2_phase :: "int \<Rightarrow> 'w world \<Rightarrow> int \<Rightarrow> 'w world \<Rightarrow> bool" where
  "v2_phase sock w exitCode w' \<longleftrightarrow>
     (exitCode = 0 \<and> transfers {#sock#} w {#sock#} w' \<and> diagnostics (log w') = diagnostics (log w) \<or>
      exitCode = 1 \<and> transfers {#sock#} w {#} w' \<and>
        (\<exists>text. diagnostics (log w') = diagnostics (log w) @ [text]))"

lemma v2_phase_step:
  "v2_phase sock w1 exitCode w' \<Longrightarrow> transfers {#sock#} w {#sock#} w1 \<Longrightarrow>
    diagnostics (log w1) = diagnostics (log w) \<Longrightarrow> v2_phase sock w exitCode w'"
  unfolding v2_phase_def by (auto intro: transfers_trans)

lemma close_diagnostics: "diagnostics (log (snd (syscall P c w))) = diagnostics (log w)"
  by (rule syscall_diagnostics [OF prod.collapse [symmetric]])

lemma close_sent: "sent fd (log (snd (syscall P (SysClose sock) w))) = sent fd (log w)"
  by (simp add: syscall_log [OF prod.collapse [symmetric]] kernel_simps)

lemma v2_phase_failed:
  assumes "transfers {#sock#} w {#sock#} w1" "diagnostics (log w1) = diagnostics (log w)"
  shows "v2_phase sock w 1 (snd (syscall P (SysClose sock) (cerr text w1)))"
  using assms transfers_trans [OF cerr_transfers [OF assms(1)] close_transfers]
  by (simp add: v2_phase_def close_diagnostics)

text \<open>What a call of \<open>v2_receive\<close> or \<open>v2_send\<close> that returns has done.\<close>

definition received_phase :: "int \<Rightarrow> 'w world \<Rightarrow> int \<times> reply \<times> 'w world \<Rightarrow> bool" where
  "received_phase sock w = (\<lambda>(exitCode, r, w').
     v2_phase sock w exitCode w' \<and> sent sock (log w') = sent sock (log w) \<and> (exitCode = 0 \<longrightarrow> ret r \<noteq> -1))"

lemma received_phase_body:
  assumes rec: "\<And>P sock w y. rec P sock w = Some y \<Longrightarrow> received_phase sock w y"
    and body: "(case syscall P (SysRecv sock 1024) w of (r, w1) \<Rightarrow>
        if ret r = -1
        then if err_EINTR r then rec P sock w1
             else let w2 = cerr (''recv() failed: '' @ err_text r @ endl) w1
                  in Some (1, r, snd (syscall P (SysClose sock) w2))
        else Some (0, r, w1)) = Some y"
  shows "received_phase sock w y"
proof -
  obtain q w1 where q: "syscall P (SysRecv sock 1024) w = (q, w1)" by force
  note keeps = syscall_keeps(7) [OF q] syscall_diagnostics [OF q]
  have st: "sent sock (log w1) = sent sock (log w)" by (simp add: syscall_log [OF q] kernel_simps)
  have ok: "ret q \<noteq> -1 \<Longrightarrow> y = (0, q, w1)"
    and again: "ret q = -1 \<Longrightarrow> err_EINTR q \<Longrightarrow> rec P sock w1 = Some y"
    and bad: "ret q = -1 \<Longrightarrow> \<not> err_EINTR q \<Longrightarrow>
      y = (1, q, snd (syscall P (SysClose sock) (cerr (''recv() failed: '' @ err_text q @ endl) w1)))"
    using body q by (simp_all add: Let_def)

  show ?thesis
  proof (cases "ret q = -1")
    case True
    show ?thesis
    proof (cases "err_EINTR q")
      case True
      obtain c r w' where y: "y = (c, r, w')" by (cases y)
      from rec [OF again] \<open>ret q = -1\<close> True have "received_phase sock w1 (c, r, w')" by (simp add: y)
      then show ?thesis using v2_phase_step [OF _ keeps] st by (auto simp: received_phase_def y)
    next
      case False
      then show ?thesis using bad True v2_phase_failed [OF keeps] st by (simp add: received_phase_def close_sent)
    qed
  next
    case False
    then show ?thesis using ok keeps st by (simp add: received_phase_def v2_phase_def)
  qed
qed

lemma v2_receive_phase:
  assumes "v2_receive P sock w = Some y"
  shows "received_phase sock w y"
proof (rule v2_receive.raw_induct [where Pa = "\<lambda>p. received_phase (snd (fst p)) (snd p)", OF _ assms, simplified])
  fix rec :: "'a platform \<Rightarrow> int \<Rightarrow> 'a world \<Rightarrow> (int \<times> reply \<times> 'a world) option" and P sock w y
  assume "\<And>P sock w y. rec P sock w = Some y \<Longrightarrow> received_phase sock w y"
    "(case syscall P (SysRecv sock 1024) w of (r, w1) \<Rightarrow>
        if ret r = -1
        then if err_EINTR r then rec P sock w1
             else let w2 = cerr (''recv() failed: '' @ err_text r @ endl) w1
                  in Some (1, r, snd (syscall P (SysClose sock) w2))
        else Some (0, r, w1)) = Some y"
  then show "received_phase sock w y" by (rule received_phase_body)
qed

definition sent_phase :: "'w platform \<Rightarrow> int \<Rightarrow> bytes \<Rightarrow> nat \<Rightarrow> 'w world \<Rightarrow> int \<times> 'w world \<Rightarrow> bool" where
  "sent_phase P sock message totalSent w = (\<lambda>(exitCode, w').
     kernel_ok P \<longrightarrow> totalSent \<le> length message \<longrightarrow>
     v2_phase sock w exitCode w' \<and>
     (\<exists>n. sent sock (log w') = sent sock (log w) @ take n (drop totalSent message)) \<and>
     (exitCode = 0 \<longrightarrow> sent sock (log w') = sent sock (log w) @ drop totalSent message))"

lemma sent_phase_body:
  assumes rec: "\<And>P sock message totalSent w y. rec P sock message totalSent w = Some y \<Longrightarrow>
      sent_phase P sock message totalSent w y"
    and body: "(if totalSent < length message
      then (case syscall P (SysSend sock (drop totalSent message)) w of (r, w1) \<Rightarrow>
        if ret r = -1
        then if err_EINTR r then rec P sock message totalSent w1
             else let w2 = cerr (''send() failed: '' @ err_text r @ endl) w1
                  in Some (1, snd (syscall P (SysClose sock) w2))
        else rec P sock message (totalSent + nat (ret r)) w1)
      else Some (0, w)) = Some y"
  shows "sent_phase P sock message totalSent w y"
proof (cases "kernel_ok P \<and> totalSent < length message")
  case False
  then show ?thesis using body
    by (auto simp: sent_phase_def v2_phase_def intro: exI [of _ 0] split: if_splits)
next
  case True
  obtain q w1 where q: "syscall P (SysSend sock (drop totalSent message)) w = (q, w1)" by force
  define n where "n = nat (ret q)"
  note keeps = syscall_keeps(6) [OF q] syscall_diagnostics [OF q]
  have n: "totalSent + n \<le> length message"
    using syscall_ok [OF conjunct1 [OF True] q] True by (auto simp: reply_ok_def n_def)
  have st: "sent sock (log w1) = sent sock (log w) @ take n (drop totalSent message)"
    by (simp add: syscall_log [OF q] kernel_simps n_def)
  have more: "take n (drop totalSent message) @ drop (totalSent + n) message = drop totalSent message"
    "take n (drop totalSent message) @ take m (drop (totalSent + n) message) = take (n + m) (drop totalSent message)" for m
    by (metis append_take_drop_id drop_drop add.commute, simp add: take_add add.commute [of totalSent n])
  have go: "sent_phase P sock message totalSent w y" if y: "sent_phase P sock message (totalSent + n) w1 y"
  proof -
    obtain c w' where c: "y = (c, w')" by (cases y)
    have p: "v2_phase sock w1 c w'" "\<exists>m. sent sock (log w') = sent sock (log w1) @ take m (drop (totalSent + n) message)"
      "c = 0 \<longrightarrow> sent sock (log w') = sent sock (log w1) @ drop (totalSent + n) message"
      using y True n by (auto simp: sent_phase_def c)
    have "\<exists>m. sent sock (log w') = sent sock (log w) @ take m (drop totalSent message)"
      using p(2) st more(2) by (metis append_assoc)
    moreover have "c = 0 \<longrightarrow> sent sock (log w') = sent sock (log w) @ drop totalSent message"
      using p(3) st more(1) by (metis append_assoc)
    ultimately show ?thesis using v2_phase_step [OF p(1) keeps] by (simp add: sent_phase_def c)
  qed
  show ?thesis
  proof (cases "ret q = -1")
    case minus: True
    then have n0: "n = 0" by (simp add: n_def)
    show ?thesis
    proof (cases "err_EINTR q")
      case True
      then have "rec P sock message totalSent w1 = Some y"
        using body minus q \<open>kernel_ok P \<and> totalSent < length message\<close> by simp
      from rec [OF this] show ?thesis using go n0 by simp
    next
      case False
      then have y: "y = (1, snd (syscall P (SysClose sock) (cerr (''send() failed: '' @ err_text q @ endl) w1)))"
        using body minus q \<open>kernel_ok P \<and> totalSent < length message\<close> by (simp add: Let_def)
      show ?thesis using v2_phase_failed [OF keeps] st n0 unfolding y
        by (auto simp: sent_phase_def close_sent intro: exI [of _ 0])
    qed
  next
    case False
    then have "rec P sock message (totalSent + n) w1 = Some y"
      using body q \<open>kernel_ok P \<and> totalSent < length message\<close> by (simp add: n_def)
    from rec [OF this] show ?thesis by (rule go)
  qed
qed

lemma v2_send_phase:
  assumes "v2_send P sock message totalSent w = Some y"
  shows "sent_phase P sock message totalSent w y"
proof (rule v2_send.raw_induct [where Pa = "\<lambda>p. sent_phase (fst (fst (fst (fst p)))) (snd (fst (fst (fst p))))
    (snd (fst (fst p))) (snd (fst p)) (snd p)", OF _ assms, simplified])
  fix rec :: "'a platform \<Rightarrow> int \<Rightarrow> bytes \<Rightarrow> nat \<Rightarrow> 'a world \<Rightarrow> (int \<times> 'a world) option"
    and P sock message totalSent w y
  assume "\<And>P sock message totalSent w y. rec P sock message totalSent w = Some y \<Longrightarrow>
      sent_phase P sock message totalSent w y"
    "(if totalSent < length message
      then (case syscall P (SysSend sock (drop totalSent message)) w of (r, w1) \<Rightarrow>
        if ret r = -1
        then if err_EINTR r then rec P sock message totalSent w1
             else let w2 = cerr (''send() failed: '' @ err_text r @ endl) w1
                  in Some (1, snd (syscall P (SysClose sock) w2))
        else rec P sock message (totalSent + nat (ret r)) w1)
      else Some (0, w)) = Some y"
  then show "sent_phase P sock message totalSent w y" by (rule sent_phase_body)
qed


lemma v2_finish_exit:
  assumes "v2_finish P sock q w = (exitCode, w')"
  shows "exitCode = 0 \<and> transfers {#sock#} w {#} w' \<and> (\<forall>fd. sent fd (log w') = sent fd (log w)) \<and>
    (diagnostics (log w') = diagnostics (log w) \<or>
     (\<exists>text. diagnostics (log w') = diagnostics (log w) @ [''close() failed: '' @ text @ endl]))"
proof -
  define w1 where "w1 = (if ret q = 0 then cout (''Server closed the connection.'' @ endl) w
                else cout endl (cout (string_of_bytes (take (nat (ret q)) (stored q)))
                  (cout ''Server Response: '' w)))"
  obtain r w2 where c: "syscall P (SysClose sock) w1 = (r, w2)" by force
  have p: "prints w w1" unfolding w1_def by (auto intro!: prints_cout)
  note frame = prints_frame [OF p]
  have "transfers {#sock#} w {#sock#} w1" using prints_transfers [OF p] by blast
  also have "transfers {#sock#} w1 {#} w2" using syscall_transfers [OF c] by simp
  finally have t: "transfers {#sock#} w {#} w2" .
  have d: "diagnostics (log w2) = diagnostics (log w)" using syscall_diagnostics [OF c] frame(2) by simp
  have st: "sent fd (log w2) = sent fd (log w)" for fd
    using frame(3) by (simp add: syscall_log [OF c] kernel_simps)
  have "exitCode = 0 \<and> w' = (if ret r = -1 then cerr (''close() failed: '' @ err_text r @ endl) w2 else w2)"
    using assms unfolding v2_finish_def w1_def [symmetric] Let_def c by auto
  then show ?thesis using t d st by (cases "ret r = -1") auto
qed

lemma v2_exchange_exit:
  assumes "kernel_ok P" "v2_exchange P sock w = Some (exitCode, w')"
  shows "transfers {#sock#} w {#} w' \<and>
    (\<exists>n. sent sock (log w') = sent sock (log w) @ take n v2_message) \<and>
    (exitCode = 0 \<longrightarrow> sent sock (log w') = sent sock (log w) @ v2_message) \<and>
    (\<exists>ds. diagnostics (log w') = diagnostics (log w) @ ds \<and>
      (exitCode = 0 \<and> (ds = [] \<or> (\<exists>text. ds = [''close() failed: '' @ text @ endl])) \<or>
       exitCode = 1 \<and> length ds = 1))"
proof -
  from assms(2) obtain c w1 where s: "v2_send P sock v2_message 0 w = Some (c, w1)"
    by (auto simp: v2_exchange_def split: option.splits)
  have ph: "v2_phase sock w c w1" "\<exists>n. sent sock (log w1) = sent sock (log w) @ take n v2_message"
    "c = 0 \<longrightarrow> sent sock (log w1) = sent sock (log w) @ v2_message"
    using v2_send_phase [OF s] assms(1) by (auto simp: sent_phase_def)
  show ?thesis
  proof (cases "c = 0")
    case False
    then have "exitCode = c" "w' = w1" using assms(2) s by (auto simp: v2_exchange_def)
    then show ?thesis using ph False by (auto simp: v2_phase_def)
  next
    case True
    define w2 where "w2 = cout (''Sent '' @ to_string (int (length v2_message)) @ '' bytes.'' @ endl) w1"
    from assms(2) s True obtain c2 q w3 where r: "v2_receive P sock w2 = Some (c2, q, w3)"
      and e: "(exitCode, w') = (if c2 \<noteq> 0 then (c2, w3) else v2_finish P sock q w3)"
      by (auto simp: v2_exchange_def w2_def Let_def split: option.splits)
    have r': "v2_phase sock w2 c2 w3" "sent sock (log w3) = sent sock (log w2)"
      using v2_receive_phase [OF r] by (auto simp: received_phase_def)
    have w2: "transfers {#sock#} w {#sock#} w2" "diagnostics (log w2) = diagnostics (log w)"
      "sent sock (log w2) = sent sock (log w) @ v2_message"
      using ph True by (auto simp: w2_def v2_phase_def)
    have p3: "v2_phase sock w c2 w3" by (rule v2_phase_step [OF r'(1) w2(1,2)])
    have st: "sent sock (log w3) = sent sock (log w) @ v2_message" using r'(2) w2(3) by simp
    then have n: "\<exists>n. sent sock (log w3) = sent sock (log w) @ take n v2_message"
      by (intro exI [of _ "length v2_message"]) simp
    show ?thesis
    proof (cases "c2 = 0")
      case False
      then show ?thesis using e p3 st n by (auto simp: v2_phase_def)
    next
      case zero: True
      then have f: "v2_finish P sock q w3 = (exitCode, w')" using e by simp
      have "transfers {#sock#} w {#sock#} w3" "diagnostics (log w3) = diagnostics (log w)"
        using p3 zero by (auto simp: v2_phase_def)
      with v2_finish_exit [OF f] st n show ?thesis by (auto intro: transfers_trans)
    qed
  qed
qed

text \<open>
  C39. The second client accounts for everything. Whenever it returns, every descriptor it opened is
  closed again; what it sent on its socket is a prefix of its message; and the exit code is 1 exactly
  when it reported a failure other than that of the last \<open>close\<close>, while exit code 0 means that the
  kernel accepted the whole message.
\<close>

theorem v2_client_exit:
  assumes "kernel_ok P" "v2_client P w = Some (exitCode, w')" "ret (fst (syscall P SysSocket w)) = sock"
  shows "transfers {#} w {#} w' \<and>
    (\<exists>n. sent sock (log w') = sent sock (log w) @ take n v2_message) \<and>
    (exitCode = 0 \<longrightarrow> sent sock (log w') = sent sock (log w) @ v2_message) \<and>
    (\<exists>ds. diagnostics (log w') = diagnostics (log w) @ ds \<and>
      (exitCode = 0 \<and> (ds = [] \<or> (\<exists>text. ds = [''close() failed: '' @ text @ endl])) \<or>
       exitCode = 1 \<and> length ds = 1))"
proof -
  obtain r w1 where s: "syscall P SysSocket w = (r, w1)" by force
  then have sock: "ret r = sock" using assms(3) by simp
  have st: "sent sock (log w1) = sent sock (log w)" by (simp add: syscall_log [OF s] kernel_simps)
  have d: "diagnostics (log w1) = diagnostics (log w)" by (rule syscall_diagnostics [OF s])
  show ?thesis
  proof (cases "sock = -1")
    case True
    have "transfers {#} w {#} w1" using syscall_transfers [OF s] True sock by simp
    moreover have "exitCode = 1" "w' = cerr (''socket() failed: '' @ err_text r @ endl) w1"
      using assms(2) True s sock by (auto simp: v2_client_def Let_def)
    ultimately show ?thesis using d st by (auto intro: exI [of _ 0])
  next
    case ok: False
    have t: "transfers {#} w {#sock#} w1" using syscall_transfers [OF s] ok sock by simp
    have failed: "?thesis" if "transfers {#sock#} w1 {#sock#} v" "diagnostics (log v) = diagnostics (log w1)"
      "sent sock (log v) = sent sock (log w1)" "exitCode = 1"
      "w' = snd (syscall P (SysClose sock) (cerr msg v))" for v msg
    proof -
      have "v2_phase sock w1 1 w'" using v2_phase_failed [OF that(1,2)] that(5) by simp
      moreover have "sent sock (log w') = sent sock (log w)"
        using that(3) st by (simp add: that(5) close_sent)
      ultimately show ?thesis using t d that(4) by (auto simp: v2_phase_def intro: transfers_trans exI [of _ 0])
    qed
    show ?thesis
    proof (cases "inet_pton P ''127.0.0.1''")
      case None
      then have "exitCode = 1" "w' = snd (syscall P (SysClose sock) (cerr (''Invalid IP address'' @ endl) w1))"
        using assms(2) ok s sock by (simp_all add: v2_client_def Let_def)
      then show ?thesis using failed [OF transfers_refl refl refl] by blast
    next
      case (Some addr)
      obtain r2 w2 where c: "syscall P (SysConnect sock \<lparr>sin_addr = addr, sin_port = htons (native P) 8080\<rparr>) w1 = (r2, w2)"
        by force
      note keeps = syscall_keeps(4) [OF c] syscall_diagnostics [OF c]
      have st2: "sent sock (log w2) = sent sock (log w1)" by (simp add: syscall_log [OF c] kernel_simps)
      show ?thesis
      proof (cases "ret r2 = -1")
        case True
        then have "exitCode = 1" "w' = snd (syscall P (SysClose sock) (cerr (''connect() failed: '' @ err_text r2 @ endl) w2))"
          using assms(2) ok s c Some sock by (simp_all add: v2_client_def Let_def)
        then show ?thesis using failed [OF keeps st2] by blast
      next
        case False
        define w3 where "w3 = cout (''Connected to server.'' @ endl) w2"
        have x: "v2_exchange P sock w3 = Some (exitCode, w')"
          using assms(2) ok s c Some False sock by (simp add: v2_client_def Let_def w3_def)
        have w3: "transfers {#} w {#sock#} w3" "diagnostics (log w3) = diagnostics (log w)"
          "sent sock (log w3) = sent sock (log w)"
          using transfers_trans [OF t keeps(1)] keeps(2) d st st2 by (auto simp: w3_def)
        show ?thesis using v2_exchange_exit [OF assms(1) x] w3 transfers_trans [OF w3(1)] by simp
      qed
    qed
  qed
qed

section \<open>When the second client returns\<close>

text \<open>
  The kernel takes the bytes \<open>bs\<close> from state \<open>k\<close> to state \<open>k'\<close>, in pieces and with finitely many
  interruptions; and it answers a \<open>recv\<close> after finitely many interruptions.
\<close>

inductive takes :: "'w platform \<Rightarrow> int \<Rightarrow> bytes \<Rightarrow> 'w \<Rightarrow> 'w \<Rightarrow> bool" for P fd where
  takes_all: "takes P fd [] k k"
| takes_some: "takes P fd bs k k''"
    if "serve P (SysSend fd bs) k = (r, k')" "bs \<noteq> []" "0 < ret r" "takes P fd (drop (nat (ret r)) bs) k' k''"
| takes_interrupted: "takes P fd bs k k''"
    if "serve P (SysSend fd bs) k = (r, k')" "bs \<noteq> []" "ret r = -1" "err_EINTR r" "takes P fd bs k' k''"

inductive replies :: "'w platform \<Rightarrow> int \<Rightarrow> 'w \<Rightarrow> bool" for P fd where
  replies_now: "replies P fd k"
    if "serve P (SysRecv fd 1024) k = (r, k')" "ret r \<noteq> -1"
| replies_interrupted: "replies P fd k"
    if "serve P (SysRecv fd 1024) k = (r, k')" "ret r = -1" "err_EINTR r" "replies P fd k'"

lemma syscall_serve:
  "serve P c (kernel w) = (r, k') \<Longrightarrow> syscall P c w = (r, \<lparr>kernel = k', log = log w @ [Sys c r]\<rparr>)"
  by (simp add: syscall_def)

lemma v2_send_returns:
  assumes "takes P sock bs k k'" "kernel w = k" "bs = drop totalSent message"
  shows "\<exists>w'. v2_send P sock message totalSent w = Some (0, w') \<and> kernel w' = k'"
  using assms
proof (induction arbitrary: w totalSent)
  case (takes_all k)
  then show ?case by (subst v2_send.simps) simp
next
  case (takes_some bs k r k' k'')
  let ?w1 = "\<lparr>kernel = k', log = log w @ [Sys (SysSend sock bs) r]\<rparr>"
  have c: "syscall P (SysSend sock (drop totalSent message)) w = (r, ?w1)"
    using takes_some by (simp add: syscall_serve)
  have "drop (nat (ret r)) bs = drop (totalSent + nat (ret r)) message"
    using takes_some by (simp add: add.commute)
  from takes_some.IH [OF _ this, of ?w1] show ?case
    using takes_some.hyps(2,3) takes_some.prems(2) c by (subst v2_send.simps) simp
next
  case (takes_interrupted bs k r k' k'')
  let ?w1 = "\<lparr>kernel = k', log = log w @ [Sys (SysSend sock bs) r]\<rparr>"
  have c: "syscall P (SysSend sock (drop totalSent message)) w = (r, ?w1)"
    using takes_interrupted by (simp add: syscall_serve)
  from takes_interrupted.IH [of ?w1, OF _ takes_interrupted.prems(2)] show ?case
    using takes_interrupted.hyps(2,3,4) takes_interrupted.prems(2) c by (subst v2_send.simps) simp
qed

lemma v2_receive_returns:
  assumes "replies P sock k" "kernel w = k"
  shows "\<exists>r w'. v2_receive P sock w = Some (0, r, w')"
  using assms
proof (induction arbitrary: w)
  case (replies_now k r k')
  then show ?case by (subst v2_receive.simps) (simp add: syscall_serve)
next
  case (replies_interrupted k r k')
  let ?w1 = "\<lparr>kernel = k', log = log w @ [Sys (SysRecv sock 1024) r]\<rparr>"
  from replies_interrupted.IH [of ?w1] show ?case
    using replies_interrupted.hyps(1-3) replies_interrupted.prems by (subst v2_receive.simps) (simp add: syscall_serve)
qed

text \<open>
  The second client gets through. If the kernel gives it a socket and connects it, takes the
  message in whatever pieces and with any finite number of interruptions, and then answers \<open>recv\<close>
  after any finite number of interruptions, the client returns, with exit code 0.
\<close>

theorem v2_client_returns:
  assumes "syscall P SysSocket w = (r, w1)" "ret r \<noteq> -1" "inet_pton P ''127.0.0.1'' = Some addr"
    "syscall P (SysConnect (ret r) \<lparr>sin_addr = addr, sin_port = htons (native P) 8080\<rparr>) w1 = (r2, w2)"
    "ret r2 \<noteq> -1" "takes P (ret r) v2_message (kernel w2) k" "replies P (ret r) k"
  shows "\<exists>w'. v2_client P w = Some (0, w')"
proof -
  define w3 where "w3 = cout (''Connected to server.'' @ endl) w2"
  have "kernel w3 = kernel w2" by (simp add: w3_def kernel_simps)
  with v2_send_returns [OF assms(6) this, of 0 v2_message] obtain w4
    where s: "v2_send P (ret r) v2_message 0 w3 = Some (0, w4)" "kernel w4 = k" by auto
  define w5 where "w5 = cout (''Sent '' @ to_string (int (length v2_message)) @ '' bytes.'' @ endl) w4"
  have "kernel w5 = k" by (simp add: w5_def kernel_simps s(2))
  from v2_receive_returns [OF assms(7) this] obtain q w6
    where q: "v2_receive P (ret r) w5 = Some (0, q, w6)" by blast
  have "fst (v2_finish P (ret r) q w6) = 0" by (simp add: v2_finish_def Let_def split: prod.splits)
  then obtain w7 where "v2_finish P (ret r) q w6 = (0, w7)" by (metis prod.collapse)
  then have "v2_exchange P (ret r) w3 = Some (0, w7)"
    unfolding v2_exchange_def s(1) option.case prod.case Let_def w5_def [symmetric] q by simp
  moreover have "v2_client P w = v2_exchange P (ret r) w3"
    unfolding v2_client_def assms(1) prod.case Let_def assms(3,4) option.case w3_def using assms(2,5) by simp
  ultimately show ?thesis by simp
qed

text \<open>
  The first client. If it is given a socket, it sends its message at most once and reads once; it
  prints what it read and closes the socket, unless the read failed: then the string it tries to build
  has a negative length, the exception leaves \<open>main\<close>, and the socket is not closed.
\<close>

theorem v1_client_outcomes:
  assumes "syscall P SysSocket w = (r, w1)" "ret r \<noteq> -1"
  shows "\<exists>sent_to got w4.
    syscall P (SysRecv (ret r) 1024) sent_to = (got, w4) \<and> transfers {#} w {#ret r#} w4 \<and>
    (if ret got < 0
     then v1_client P w = (Inl length_error, cout ''Response: '' w4)
     else (\<exists>w'. v1_client P w = (Inr 0, w') \<and> transfers {#} w {#} w' \<and>
       (\<exists>c. log w' = log w4 @ [Out ''Response: '',
          Out (string_of_bytes (take (nat (ret got)) (stored got))), Out endl, Sys (SysClose (ret r)) c])))"
proof -
  obtain r2 w2 where c: "syscall P (SysConnect (ret r) (local_server P)) w1 = (r2, w2)" by force
  obtain r3 w3 where s: "syscall P (SysSend (ret r) (bytes_of_string ''hello to server'')) w2 = (r3, w3)" by force
  obtain got w4 where q: "syscall P (SysRecv (ret r) 1024) w3 = (got, w4)" by force
  define w5 where "w5 = cout endl (cout (string_of_bytes (take (nat (ret got)) (stored got))) (cout ''Response: '' w4))"
  obtain r6 w6 where d: "syscall P (SysClose (ret r)) w5 = (r6, w6)" by force
  have "transfers {#} w {#ret r#} w1" using syscall_transfers [OF assms(1)] assms(2) by simp
  also note syscall_keeps(4) [OF c]
  also note syscall_keeps(6) [OF s]
  also note syscall_keeps(7) [OF q]
  finally have t: "transfers {#} w {#ret r#} w4" .
  have "transfers {#} w {#ret r#} w5" using t by (auto simp: w5_def)
  also have "transfers {#ret r#} w5 {#} w6" using syscall_transfers [OF d] by simp
  finally have t6: "transfers {#} w {#} w6" .
  have l: "log w6 = log w4 @ [Out ''Response: '', Out (string_of_bytes (take (nat (ret got)) (stored got))),
      Out endl, Sys (SysClose (ret r)) r6]"
    by (simp add: syscall_log [OF d] w5_def kernel_simps)
  have v: "v1_client P w = (if ret got < 0 then (Inl length_error, cout ''Response: '' w4) else (Inr 0, w6))"
    using assms(1) c s q d by (simp add: v1_client_def string_of_buffer_def Let_def flip: w5_def)
  show ?thesis using q t t6 l v by (intro exI [of _ w3] exI [of _ got] exI [of _ w4]) auto
qed


section \<open>Witnesses\<close>

text \<open>A kernel that takes five bytes at a time and has one answer ready.\<close>

definition sim_answering :: "sim world" where
  "sim_answering = sim_world [3, 0] [[79, 75]] 5 []"

theorem v2_client_exit_witness:
  "\<exists>w'. v2_client (sim_platform Little) sim_answering = Some (0, w') \<and>
     transfers {#} sim_answering {#} w' \<and> sent 3 (log w') = v2_message"
proof -
  have "case v2_client (sim_platform Little) sim_answering of None \<Rightarrow> False | Some (c, w') \<Rightarrow> c = 0"
    by code_simp
  then obtain w' where w': "v2_client (sim_platform Little) sim_answering = Some (0, w')"
    by (auto split: option.splits)
  have "ret (fst (syscall (sim_platform Little) SysSocket sim_answering)) = 3" by code_simp
  from v2_client_exit [OF sim_kernel_ok w' this] w' show ?thesis
    by (simp add: sim_answering_def sim_world_def kernel_simps)
qed

lemma sim_takes: "0 < n \<Longrightarrow> takes (sim_platform h) fd bs (k\<lparr>window := n\<rparr>) (k\<lparr>window := n\<rparr>)"
proof (induction "length bs" arbitrary: bs rule: less_induct)
  case less
  show ?case
  proof (cases "bs = []")
    case False
    then have "takes (sim_platform h) fd (drop (min n (length bs)) bs) (k\<lparr>window := n\<rparr>) (k\<lparr>window := n\<rparr>)"
      using less by (intro less.hyps) auto
    moreover have "serve (sim_platform h) (SysSend fd bs) (k\<lparr>window := n\<rparr>) =
        (sim_reply h (int (min n (length bs))) [], k\<lparr>window := n\<rparr>)"
      using less.prems by (simp add: sim_platform_def)
    ultimately show ?thesis using False less.prems takes_some [of "sim_platform h" fd bs] by fastforce
  qed (auto intro: takes_all)
qed

theorem v2_client_returns_witness:
  "\<exists>w'. v2_client (sim_platform Little) sim_answering = Some (0, w')"
proof -
  let ?k = "\<lparr>rets = [], inbox = [[79, 75]], window = 5, signals = []\<rparr>"
  obtain r w1 where s: "syscall (sim_platform Little) SysSocket sim_answering = (r, w1)" by force
  then have w1: "r = sim_reply Little 3 []" "kernel w1 = ?k\<lparr>rets := [0]\<rparr>"
    by (auto simp: syscall_def sim_platform_def sim_answering_def sim_world_def)
  define addr where "addr = (0x0100007F :: u32)"
  obtain r2 w2 where c: "syscall (sim_platform Little)
      (SysConnect (ret r) \<lparr>sin_addr = addr, sin_port = htons (native (sim_platform Little)) 8080\<rparr>) w1 = (r2, w2)"
    by force
  then have w2: "r2 = sim_reply Little 0 []" "kernel w2 = ?k"
    using w1(2) by (auto simp: syscall_def sim_platform_def)
  have t: "takes (sim_platform Little) (ret r) v2_message (kernel w2) ?k"
    using sim_takes [of 5 Little _ _ ?k] w2 by simp
  have q: "replies (sim_platform Little) (ret r) ?k"
    by (rule replies_now [where r = "sim_reply Little 2 [79, 75]"]) (auto simp: sim_platform_def sim_recv_def)
  have a: "inet_pton (sim_platform Little) ''127.0.0.1'' = Some addr"
    by (simp add: sim_platform_def sim_inet_pton_def addr_def)
  have "ret r \<noteq> -1" "ret r2 \<noteq> -1" using w1(1) w2(1) by simp_all
  from v2_client_returns [OF s this(1) a c this(2) t q] show ?thesis .
qed

theorem v1_client_outcomes_witness:
  "\<exists>w'. v1_client (sim_platform Little) sim_answering = (Inr 0, w') \<and> transfers {#} sim_answering {#} w'"
proof -
  obtain r w1 where s: "syscall (sim_platform Little) SysSocket sim_answering = (r, w1)" by force
  have r: "ret r \<noteq> -1" using s by (auto simp: syscall_def sim_platform_def sim_answering_def sim_world_def)
  have "case v1_client (sim_platform Little) sim_answering of (x, w') \<Rightarrow> x = Inr 0" by code_simp
  with v1_client_outcomes [OF s r] show ?thesis by (auto split: if_splits)
qed

end
