(* ===== verification/Pool_Refinement.thy ===== *)
theory Pool_Refinement
  imports Pool_Server Pool_Properties
begin

text \<open>
  What the thread pool is for its users, as an abstract machine without threads, locks and waiting: a
  bounded first-in first-out queue, one job per worker, one owed answer per caller and a counter. Each
  visible event of the pool is one atomic action of this machine, at the point of the code where it
  happens under the mutex (or, for the counter, atomically); everything else is invisible. The contract
  \<open>event_simulation\<close> is fulfilled by the pool's actions, and with it by the server that runs on the pool.
\<close>

section \<open>The abstract machine\<close>

datatype 't job = Free | Held 't | Executing 't

record 't bounded_queue =
  bq_tasks :: "'t list"
  bq_owed :: "nat \<Rightarrow> bool"        \<comment> \<open>callers that were accepted and not yet answered\<close>
  bq_jobs :: "nat \<Rightarrow> 't job"
  bq_numbers :: "32 word"

definition Bounded_Queue :: "'t bounded_queue" where
  "Bounded_Queue = \<lparr>bq_tasks = [], bq_owed = (\<lambda>_. False), bq_jobs = (\<lambda>_. Free), bq_numbers = 0\<rparr>"

text \<open>An action is named by its event; it is enabled when the machine allows the event.\<close>

fun queue_allows :: "'t pool_event \<Rightarrow> 't bounded_queue \<Rightarrow> bool" where
  "queue_allows (Pushed j t) q \<longleftrightarrow> length (bq_tasks q) < 1000 \<and> \<not> bq_owed q j"
| "queue_allows (Returned j accepted) q \<longleftrightarrow>
     (if accepted then bq_owed q j else length (bq_tasks q) = 1000 \<and> \<not> bq_owed q j)"
| "queue_allows (Took i t) q \<longleftrightarrow> bq_jobs q i = Free \<and> bq_tasks q \<noteq> [] \<and> hd (bq_tasks q) = t"
| "queue_allows (Printed i s) q \<longleftrightarrow> (\<exists>t \<in> set_job (bq_jobs q i). bq_jobs q i = Held t)"
| "queue_allows (Began i t) q \<longleftrightarrow> bq_jobs q i = Held t"
| "queue_allows (Finished i t) q \<longleftrightarrow> bq_jobs q i = Executing t"
| "queue_allows (Numbered i n) q \<longleftrightarrow>
     (\<exists>t \<in> set_job (bq_jobs q i). bq_jobs q i = Executing t) \<and> n = sint (bq_numbers q + 1)"
| "queue_allows Silent q \<longleftrightarrow> False"

fun queue_after :: "'t pool_event \<Rightarrow> 't bounded_queue \<Rightarrow> 't bounded_queue" where
  "queue_after (Pushed j t) q = q\<lparr>bq_tasks := bq_tasks q @ [t], bq_owed := (bq_owed q)(j := True)\<rparr>"
| "queue_after (Returned j accepted) q = q\<lparr>bq_owed := (bq_owed q)(j := False)\<rparr>"
| "queue_after (Took i t) q = q\<lparr>bq_tasks := tl (bq_tasks q), bq_jobs := (bq_jobs q)(i := Held t)\<rparr>"
| "queue_after (Began i t) q = q\<lparr>bq_jobs := (bq_jobs q)(i := Executing t)\<rparr>"
| "queue_after (Finished i t) q = q\<lparr>bq_jobs := (bq_jobs q)(i := Free)\<rparr>"
| "queue_after (Numbered i n) q = q\<lparr>bq_numbers := bq_numbers q + 1\<rparr>"
| "queue_after _ q = q"

definition queue_act :: "('t pool_event, 't pool_event, 't bounded_queue) action_system" where
  "queue_act e q = (if queue_allows e q then Some (e, queue_after e q) else None)"

section \<open>The abstraction\<close>

fun job_of :: "'t worker_point \<Rightarrow> 't job" where
  "job_of (W_Unlock t) = Held t"
| "job_of (W_Name t) = Held t"
| "job_of (W_Print t) = Held t"
| "job_of (W_Call t) = Held t"
| "job_of (W_Running t) = Executing t"
| "job_of _ = Free"

fun owes_answer :: "'t caller_point \<Rightarrow> bool" where
  "owes_answer E_Unlock = True"
| "owes_answer E_Notify = True"
| "owes_answer E_Return = True"
| "owes_answer _ = False"

definition jobs_of :: "'t worker_point list \<Rightarrow> nat \<Rightarrow> 't job" where
  "jobs_of ws i = (if i < length ws then job_of (ws ! i) else Free)"

definition owed_of :: "'t caller_point list \<Rightarrow> nat \<Rightarrow> bool" where
  "owed_of cs j \<longleftrightarrow> j < length cs \<and> owes_answer (cs ! j)"

definition queue_of :: "'t pool \<Rightarrow> 't bounded_queue" where
  "queue_of p =
     \<lparr>bq_tasks = tp_tasks p, bq_owed = owed_of (tp_callers p), bq_jobs = jobs_of (tp_workers p),
      bq_numbers = tp_requestCounter p\<rparr>"

fun visible :: "'t pool_event \<Rightarrow> 't pool_event list" where
  "visible Silent = []"
| "visible e = [e]"

lemma queue_of_ThreadPool: "queue_of (ThreadPool n m) = Bounded_Queue"
  by (auto simp: queue_of_def ThreadPool_def Bounded_Queue_def owed_of_def jobs_of_def fun_eq_iff)

section \<open>The simulation\<close>

text \<open>An event of the pool is the machine's action of the same name, or invisible.\<close>

definition same_action :: "'t pool_event \<Rightarrow> 't pool \<Rightarrow> 't pool \<Rightarrow> bool" where
  "same_action e p p' \<longleftrightarrow>
     (if e = Silent then queue_of p' = queue_of p
      else queue_allows e (queue_of p) \<and> queue_of p' = queue_after e (queue_of p))"

lemma jobs_of_simps:
  "i < length ws \<Longrightarrow> jobs_of (ws[i := pc]) = (jobs_of ws)(i := job_of pc)"
  "i < length ws \<Longrightarrow> jobs_of ws i = job_of (ws ! i)" "jobs_of (ws @ [W_Lock]) = jobs_of ws"
  by (auto simp: jobs_of_def fun_eq_iff nth_append less_Suc_eq)

lemma owed_of_simps:
  "j < length cs \<Longrightarrow> owed_of (cs[j := pc]) = (owed_of cs)(j := owes_answer pc)"
  "j < length cs \<Longrightarrow> owed_of cs j = owes_answer (cs ! j)"
  by (auto simp: owed_of_def fun_eq_iff)

lemmas same_action_simps = same_action_def queue_of_def jobs_of_simps owed_of_simps fun_upd_idem_iff

lemma worker_same_action:
  assumes "worker_step i p = Some (e, p')" "i < length (tp_workers p)"
  shows "same_action e p p'"
  using assms
  by (cases "tp_workers p ! i") (auto simp: worker_step_def same_action_simps split: if_splits list.splits)

lemma caller_same_action:
  assumes "enqueue_step j i p = Some (e, p')" "j < length (tp_callers p)" "callers_inv p"
    "tp_maxQueueSize p = 1000"
  shows "same_action e p p'"
proof -
  have "caller_knows 1000 (tp_tasks p) (tp_callers p ! j)" "length (tp_tasks p) \<le> 1000"
    using assms(2-4) by (auto simp: callers_inv_def)
  then show ?thesis using assms(1,2,4)
    by (cases "tp_callers p ! j") (auto simp: enqueue_step_def same_action_simps split: if_splits)
qed

lemma pool_same_action:
  assumes "pool_act a p = Some (e, p')" "callers_inv p" "tp_maxQueueSize p = 1000"
  shows "same_action e p p'"
proof (cases a)
  case (Work i)
  then show ?thesis using assms(1) worker_same_action by (auto split: if_splits)
next
  case (Call j i)
  then show ?thesis using assms caller_same_action by (auto split: if_splits)
next
  case (Number i)
  then show ?thesis using assms(1)
    by (auto simp: same_action_simps getRequestNumber_def Let_def running_def split: if_splits worker_point.splits)
next
  case Destruct
  then show ?thesis using assms(1) destructor_frame [of p e p'] by (simp add: same_action_simps)
qed (use assms in \<open>auto simp: same_action_simps spawn_worker_def split: if_splits\<close>)

lemma visible_event: "e \<noteq> Silent \<Longrightarrow> visible e = [e]"
  by (cases e) simp_all

interpretation pool_queue: event_simulation pool_act queue_act queue_of visible
  "\<lambda>p. pool_inv p \<and> tp_maxQueueSize p = 1000"
proof
  fix a e and p p' :: "'a pool"
  assume inv: "pool_inv p \<and> tp_maxQueueSize p = 1000" and s: "pool_act a p = Some (e, p')"
  then show "pool_inv p' \<and> tp_maxQueueSize p' = 1000"
    using pool_inv_act unchanged_act [OF s, of "tp_threadCount p" "length (tp_callers p)"]
    by (auto simp: unchanged_def)
  from pool_same_action [OF s] inv have "same_action e p p'" by (simp add: pool_inv_def)
  then show "(\<exists>a' e'. visible e = [e'] \<and> queue_act a' (queue_of p) = Some (e', queue_of p')) \<or>
      visible e = [] \<and> queue_of p' = queue_of p"
    using visible_event [of e] unfolding same_action_def queue_act_def
    by (cases "e = Silent") (simp_all, blast)
qed

section \<open>Properties\<close>

text \<open>
  C3. The pool is an atomic bounded queue. Whatever the schedule, the visible events of a run of the
  pool are, one by one and in the same order, atomic actions of the abstract machine, which ends in the
  state that the pool's represents: a push into a queue of fewer than 1000 tasks, a refusal at exactly
  1000, the answer true once for each push, the front task to a free worker, each worker's task begun and
  finished once, and the next number of the counter to a running task.
\<close>

theorem pool_is_bounded_queue:
  assumes "run pool_act (ThreadPool n m) es p"
  shows "run queue_act Bounded_Queue (history visible es) (queue_of p)"
proof -
  have "pool_inv (ThreadPool n m) \<and> tp_maxQueueSize (ThreadPool n m) = 1000"
    by (simp add: ThreadPool_inv) (simp add: ThreadPool_def)
  from pool_queue.simulates_run [OF assms this] show ?thesis by (simp add: queue_of_ThreadPool)
qed

text \<open>A task is pushed, taken and executed with a request number.\<close>

theorem pool_is_bounded_queue_witness:
  "\<exists>q. run queue_act Bounded_Queue [Pushed 0 (7 :: nat), Returned 0 True, Took 0 7, Printed 0 ''Worker-1'',
     Printed 0 ('' picked a request'' @ endl), Began 0 7, Numbered 0 1, Finished 0 7] q \<and> bq_tasks q = []"
proof -
  let ?schedule = "one_task @ replicate 3 (Call 0 0) @ replicate 8 (Work 0) @ [Number 0, Work 0]"
  let ?events = "[Pushed 0 (7 :: nat), Returned 0 True, Took 0 7, Printed 0 ''Worker-1'',
    Printed 0 ('' picked a request'' @ endl), Began 0 7, Numbered 0 1, Finished 0 7]"
  have "case run_schedule pool_act ?schedule (ThreadPool 1 1) of None \<Rightarrow> False
    | Some (es, p) \<Rightarrow> history visible es = ?events \<and> tp_tasks p = []"
    by code_simp
  then obtain es and p :: "nat pool" where r: "run pool_act (ThreadPool 1 1) es p"
    "history visible es = ?events \<and> tp_tasks p = []"
    by (rule run_witness)
  with pool_is_bounded_queue [OF r(1)] show ?thesis by (auto simp: queue_of_def)
qed

section \<open>The server on the abstract pool\<close>

text \<open>The two simulations compose: what main and the sessions see of the pool is the abstract machine.\<close>

lemma server_on_bounded_queue:
  assumes "run (server_act h) PoolServer es s"
  shows "run queue_act Bounded_Queue (history visible (history pool_events es)) (queue_of (ps_pool s))"
proof -
  have "pool_inv (ps_pool PoolServer) \<and> tp_maxQueueSize (ps_pool PoolServer) = 1000"
    by (simp add: PoolServer_def ThreadPool_inv) (simp add: ThreadPool_def)
  from pool_queue.simulates_run [OF server_pool.refines_run [OF assms] this]
  show ?thesis by (simp add: PoolServer_def queue_of_ThreadPool)
qed

end
