(* ===== verification/Pool_Settling.thy ===== *)
theory Pool_Settling
  imports Pool_Properties
begin

text \<open>
  The thread pool settles: when its environment stops (no further call of \<open>enqueue\<close>, no destruction, no
  spurious wake-up), every schedule of its threads comes to rest within a bounded number of steps,
  with every accepted task executed. The contract is \<open>event_budget\<close>, with a potential for every point
  of every thread.
\<close>

section \<open>The potential\<close>

text \<open>The steps a worker can make before it blocks or leaves, the tasks it will still take not counted.\<close>

fun worker_potential :: "'t worker_point \<Rightarrow> nat" where
  "worker_potential W_Lock = 4"
| "worker_potential W_Test = 3"
| "worker_potential W_Block = 1"
| "worker_potential W_Wait = 4"
| "worker_potential W_Check = 2"
| "worker_potential W_Return = 1"
| "worker_potential W_Take = 1"
| "worker_potential (W_Unlock _) = 9"
| "worker_potential (W_Name _) = 8"
| "worker_potential (W_Print _) = 7"
| "worker_potential (W_Call _) = 6"
| "worker_potential (W_Running _) = 5"
| "worker_potential W_Done = 0"

text \<open>A call of \<open>enqueue\<close> may add a task, worth ten steps, and wake a worker.\<close>

fun caller_potential :: "'t caller_point \<Rightarrow> nat" where
  "caller_potential E_Idle = 0"
| "caller_potential (E_Lock _) = 20"
| "caller_potential (E_Size _) = 19"
| "caller_potential E_Refuse = 1"
| "caller_potential (E_Push _) = 18"
| "caller_potential E_Unlock = 7"
| "caller_potential E_Notify = 6"
| "caller_potential E_Return = 1"

fun destructor_potential :: "nat \<Rightarrow> destructor_point \<Rightarrow> nat" where
  "destructor_potential n D_Alive = 0"
| "destructor_potential n D_Lock = 5 * n + 5"
| "destructor_potential n D_Stop = 5 * n + 4"
| "destructor_potential n D_Unlock = 5 * n + 3"
| "destructor_potential n D_Notify = 5 * n + 2"
| "destructor_potential n (D_Join k) = n - k + 1"
| "destructor_potential n D_Done = 0"

definition awake_potential :: "'t pool \<Rightarrow> nat \<Rightarrow> nat" where
  "awake_potential p i = (if i \<in> tp_condition p then 0 else worker_potential (tp_workers p ! i))"

definition settle_budget :: "'t pool \<Rightarrow> nat" where
  "settle_budget p =
     10 * length (tp_tasks p) + sum (awake_potential p) {..<length (tp_workers p)} +
     5 * (tp_threadCount p - length (tp_workers p)) + sum_list (map caller_potential (tp_callers p)) +
     destructor_potential (length (tp_workers p)) (tp_destructor p)"

section \<open>The pool left alone\<close>

definition environment :: "'t action \<Rightarrow> bool" where
  "environment a = (case a of Enqueue _ _ \<Rightarrow> True | Destroy \<Rightarrow> True | Spurious _ \<Rightarrow> True | _ \<Rightarrow> False)"

definition settle_act :: "('t action, 't pool_event, 't pool) action_system" where
  "settle_act a p = (if environment a then None else pool_act a p)"

lemma settle_run: "run settle_act p es p' \<Longrightarrow> run pool_act p es p'"
  by (induction rule: run.induct) (auto simp: settle_act_def intro: run.run_step split: if_splits)

lemma sum_change_one:
  fixes f g :: "nat \<Rightarrow> nat"
  assumes "i < n" "\<And>k. k < n \<Longrightarrow> k \<noteq> i \<Longrightarrow> g k = f k"
  shows "sum g {..<n} + f i = sum f {..<n} + g i"
proof -
  have "sum g ({..<n} - {i}) = sum f ({..<n} - {i})" using assms(2) by (intro sum.cong) auto
  then show ?thesis using assms(1) sum.remove [of "{..<n}" i g] sum.remove [of "{..<n}" i f] by simp
qed

lemma worker_settles:
  assumes "worker_step i p = Some (e, p')" "i < length (tp_workers p)" "workers_inv p"
  shows "settle_budget p' + 1 \<le> settle_budget p"
proof -
  note frame = worker_frame [OF assms(1)]
  have k: "worker_knows (tp_stop p) (tp_tasks p) (tp_workers p ! i)"
    and c: "i \<in> tp_condition p \<Longrightarrow> tp_workers p ! i = W_Wait"
    using assms(2,3) by (auto simp: workers_inv_def)
  have own: "10 * length (tp_tasks p') + awake_potential p' i + 1 \<le> 10 * length (tp_tasks p) + awake_potential p i"
    using assms(1,2) k c
    by (cases "tp_workers p ! i") (auto simp: worker_step_def awake_potential_def split: if_splits list.splits)
  have "tp_condition p' = tp_condition p \<or> tp_condition p' = insert i (tp_condition p)"
    using worker_knows_step(3) [OF assms(1,2) k] by blast
  then have "awake_potential p' j = awake_potential p j" if "j \<noteq> i" for j
    using that frame(8) by (auto simp: awake_potential_def)
  from sum_change_one [OF assms(2), of "awake_potential p'" "awake_potential p"] this own
  show ?thesis using frame by (simp add: settle_budget_def)
qed

lemma caller_settles:
  assumes "enqueue_step j i p = Some (e, p')" "j < length (tp_callers p)" "workers_inv p"
  shows "settle_budget p' + 1 \<le> settle_budget p"
proof -
  note frame = enqueue_frame [OF assms(1)]
  have eq: "tp_callers p' = (tp_callers p)[j := tp_callers p' ! j]"
    using frame(7,8) assms(2) by (auto simp: list_eq_iff_nth_eq nth_list_update)
  have calls: "sum_list (map caller_potential (tp_callers p')) + caller_potential (tp_callers p ! j) =
      sum_list (map caller_potential (tp_callers p)) + caller_potential (tp_callers p' ! j)"
    using sum_list_map_update [OF assms(2), of caller_potential "tp_callers p' ! j"] unfolding eq [symmetric] .
  show ?thesis
  proof (cases "tp_callers p ! j = E_Notify \<and> i \<in> tp_condition p")
    case True
    then have s: "tp_condition p' = tp_condition p - {i}" "tp_tasks p' = tp_tasks p" "tp_callers p' ! j = E_Return"
      using assms(1,2) by (auto simp: enqueue_step_def)
    have w: "i < length (tp_workers p)" "tp_workers p ! i = W_Wait" using True assms(3) by (auto simp: workers_inv_def)
    have "sum (awake_potential p') {..<length (tp_workers p)} + awake_potential p i =
        sum (awake_potential p) {..<length (tp_workers p)} + awake_potential p' i"
      using w(1) by (rule sum_change_one) (simp add: awake_potential_def s(1) frame(1))
    moreover have "awake_potential p i = 0" "awake_potential p' i = 4"
      using True w s(1) frame(1) by (simp_all add: awake_potential_def)
    ultimately show ?thesis using calls s True frame by (simp add: settle_budget_def)
  next
    case False
    then have "tp_condition p' = tp_condition p"
      and own: "10 * length (tp_tasks p') + caller_potential (tp_callers p' ! j) + 1 \<le>
        10 * length (tp_tasks p) + caller_potential (tp_callers p ! j)"
      using assms(1,2) by (cases "tp_callers p ! j"; auto simp: enqueue_step_def split: if_splits)+
    then have "awake_potential p' = awake_potential p" using frame(1) by (simp add: awake_potential_def fun_eq_iff)
    then show ?thesis using calls own frame by (simp add: settle_budget_def)
  qed
qed

lemma destructor_settles:
  assumes "destructor_step p = Some (e, p')" "workers_inv p"
  shows "settle_budget p' + 1 \<le> settle_budget p"
proof -
  note frame = destructor_frame [OF assms(1)]
  let ?n = "length (tp_workers p)"
  show ?thesis
  proof (cases "tp_destructor p = D_Notify")
    case True
    then have s: "tp_condition p' = {}" "tp_destructor p' = D_Join 0" using assms(1) by (auto simp: destructor_step_def)
    have "awake_potential p' k \<le> awake_potential p k + 4" if "k < ?n" for k
      using that assms(2) s(1) frame(1) by (auto simp: awake_potential_def workers_inv_def)
    then have "sum (awake_potential p') {..<?n} \<le> sum (\<lambda>k. awake_potential p k + 4) {..<?n}"
      by (intro sum_mono) simp
    then have "sum (awake_potential p') {..<?n} \<le> sum (awake_potential p) {..<?n} + 4 * ?n"
      by (simp add: sum.distrib)
    then show ?thesis using True s frame by (simp add: settle_budget_def)
  next
    case False
    then have "tp_condition p' = tp_condition p"
      "destructor_potential ?n (tp_destructor p') + 1 \<le> destructor_potential ?n (tp_destructor p)"
      using assms(1) by (cases "tp_destructor p"; auto simp: destructor_step_def split: if_splits)+
    moreover from this have "awake_potential p' = awake_potential p"
      using frame(1) by (simp add: awake_potential_def fun_eq_iff)
    ultimately show ?thesis using frame by (simp add: settle_budget_def)
  qed
qed

lemma settle_budget_act:
  assumes "pool_inv p" "settle_act a p = Some (e, p')"
  shows "settle_budget p' + (if not_numbered e then 1 else 0) \<le> settle_budget p"
proof -
  have inv: "workers_inv p" using assms(1) by (rule pool_inv_parts)
  have a: "pool_act a p = Some (e, p')" "\<not> environment a" using assms(2) by (auto simp: settle_act_def split: if_splits)
  show ?thesis
  proof (cases a)
    case Spawn
    then have s: "p' = p\<lparr>tp_workers := tp_workers p @ [W_Lock]\<rparr>" "length (tp_workers p) < tp_threadCount p"
      using a(1) by (auto simp: spawn_worker_def split: if_splits)
    have "length (tp_workers p) \<notin> tp_condition p" using inv by (auto simp: workers_inv_def)
    then have "awake_potential p' (length (tp_workers p)) = 4"
      and "k < length (tp_workers p) \<Longrightarrow> awake_potential p' k = awake_potential p k" for k
      by (simp_all add: s(1) awake_potential_def nth_append)
    then have "sum (awake_potential p') {..<length (tp_workers p')} = sum (awake_potential p) {..<length (tp_workers p)} + 4"
      by (simp add: s(1))
    moreover have "tp_destructor p = D_Alive"
      using assms(1) s(2) by (auto simp: pool_inv_def destructor_inv_def constructed_def)
    moreover have "tp_threadCount p - length (tp_workers p) = Suc (tp_threadCount p - Suc (length (tp_workers p)))"
      using s(2) by simp
    ultimately show ?thesis using s(1) by (simp add: settle_budget_def)
  next
    case (Work i)
    then show ?thesis using a(1) worker_settles [OF _ _ inv, of i e p'] by (auto split: if_splits)
  next
    case (Call j i)
    then show ?thesis using a(1) caller_settles [OF _ _ inv, of j i e p'] by (auto split: if_splits)
  next
    case Destruct
    then show ?thesis using a(1) destructor_settles [OF _ inv, of e p'] by auto
  next
    case (Number i)
    then have "e = Numbered i (sint (tp_requestCounter p + 1))"
      and p': "p' = p\<lparr>tp_requestCounter := tp_requestCounter p + 1\<rparr>"
      using a(1) by (auto simp: getRequestNumber_def Let_def split: if_splits)
    moreover have "awake_potential p' = awake_potential p" by (simp add: p' awake_potential_def fun_eq_iff)
    ultimately show ?thesis by (simp add: settle_budget_def)
  qed (use a(2) in \<open>simp_all add: environment_def\<close>)
qed

interpretation pool_settle: event_budget settle_act pool_inv not_numbered settle_budget
proof
  show "pool_inv p'" if "pool_inv p" "settle_act a p = Some (e, p')" for p p' :: "'a pool" and a e
    using that pool_inv_act by (auto simp: settle_act_def split: if_splits)
qed (rule settle_budget_act)

lemma settle_budget_bound:
  assumes "pool_inv p"
  shows "settle_budget p \<le> 10 * length (tp_tasks p) + 14 * tp_threadCount p + 20 * length (tp_callers p) + 5"
proof -
  let ?l = "length (tp_workers p)"
  have l: "?l \<le> tp_threadCount p" using assms by (simp add: pool_inv_def workers_inv_def)
  have "worker_potential pc \<le> 9" for pc :: "'a worker_point" by (cases pc) simp_all
  then have "awake_potential p k \<le> 9" for k by (simp add: awake_potential_def)
  then have "sum (awake_potential p) {..<?l} \<le> 9 * ?l"
    using sum_bounded_above [of "{..<?l}" "awake_potential p" 9] by simp
  moreover have "caller_potential pc \<le> 20" for pc :: "'a caller_point" by (cases pc) simp_all
  then have "sum_list (map caller_potential (tp_callers p)) \<le> 20 * length (tp_callers p)"
    using sum_list_mono [of "tp_callers p" caller_potential "\<lambda>_. 20"] by (simp add: sum_list_triv)
  moreover have "destructor_potential ?l (tp_destructor p) \<le> 5 * ?l + 5"
    by (cases "tp_destructor p") simp_all
  ultimately show ?thesis using l by (simp add: settle_budget_def)
qed

section \<open>Coming to rest\<close>

text \<open>Unless the pool is at rest, one of its threads can make a counted step.\<close>

lemma not_at_rest_steps:
  assumes "\<not> at_rest p"
  shows "\<exists>a e p'. settle_act a p = Some (e, p') \<and> not_numbered e"
proof -
  have counted: "not_numbered e" if "pool_act a p = Some (e, p')" "\<forall>i. a \<noteq> Number i" for a e p'
  proof (cases a)
    case (Work i)
    then have "worker_step i p = Some (e, p')" "i < length (tp_workers p)" using that by (auto split: if_splits)
    from worker_history(3) [OF this] show ?thesis by (cases e) simp_all
  next
    case (Call j i)
    then have "enqueue_step j i p = Some (e, p')" "j < length (tp_callers p)" using that by (auto split: if_splits)
    from enqueue_history(3) [OF this] show ?thesis by (cases e) simp_all
  next
    case Destruct
    then show ?thesis using that destructor_frame(7) [of p e p'] by simp
  qed (use that in \<open>auto simp: spawn_worker_def split: if_splits\<close>)
  from assms obtain a y where "pool_act a p = Some y" "\<not> environment a" "\<forall>i. a \<noteq> Number i"
    unfolding at_rest_def environment_def by (force split: action.splits)
  moreover obtain e p' where "y = (e, p')" by (cases y)
  ultimately show ?thesis using counted by (auto simp: settle_act_def)
qed

lemma settles_somewhere:
  "pool_inv p \<Longrightarrow> \<exists>es p'. run settle_act p es p' \<and> at_rest p'"
proof (induction "settle_budget p" arbitrary: p rule: less_induct)
  case less
  show ?case
  proof (cases "at_rest p")
    case True
    then show ?thesis by (metis run_start)
  next
    case False
    then obtain a e p1 where s: "settle_act a p = Some (e, p1)" "not_numbered e" using not_at_rest_steps by blast
    have "settle_budget p1 < settle_budget p" "pool_inv p1"
      using settle_budget_act [OF less.prems s(1)] s(2) pool_settle.phase_act [OF less.prems s(1)] by simp_all
    then obtain es p' where "run settle_act p1 es p'" "at_rest p'" using less.hyps by blast
    moreover have "run settle_act p [e] p1" using run.run_step [OF run.run_start, of settle_act a p e p1] s(1) by simp
    ultimately show ?thesis by (metis run_trans)
  qed
qed

text \<open>
  C6. The pool settles. From any reachable state, when nobody calls \<open>enqueue\<close> or destroys the pool any
  more and no wake-up is spurious, every schedule makes at most \<open>10 k + 14 n + 20 m + 5\<close> steps for the
  \<open>k\<close> tasks in the queue, the \<open>n\<close> workers and the \<open>m\<close> callers, what the tasks themselves do not
  counted; a schedule that reaches rest exists at every moment; and at rest every call has been answered
  and the tasks ever accepted are the tasks finished. So no accepted task waits for ever.
\<close>

theorem pool_settles:
  assumes "run pool_act (ThreadPool n m) es p" "0 < n" "run settle_act p es' p'"
  shows "length (filter not_numbered es') \<le> 10 * length (tp_tasks p) + 14 * n + 20 * m + 5 \<and>
    (\<exists>es2 p2. run settle_act p' es2 p2 \<and> at_rest p2) \<and>
    (at_rest p' \<longrightarrow> (\<forall>pc \<in> set (tp_callers p'). pc = E_Idle) \<and> tp_tasks p' = [] \<and>
       mset (history finished_of (es @ es')) = mset (history pushed_of (es @ es')))"
proof -
  note r = reachable [OF assms(1)]
  have whole: "run pool_act (ThreadPool n m) (es @ es') p'" using settle_run [OF assms(3)] assms(1) by (rule run_trans)
  note r' = reachable [OF whole]
  have "length (filter not_numbered es') \<le> settle_budget p"
    using pool_settle.budget_run [OF assms(3) r(1)] by linarith
  then have "length (filter not_numbered es') \<le> 10 * length (tp_tasks p) + 14 * n + 20 * m + 5"
    using settle_budget_bound [OF r(1)] r(7,8) by simp
  moreover have "(\<forall>pc \<in> set (tp_callers p'). pc = E_Idle) \<and> tp_tasks p' = [] \<and>
       mset (history finished_of (es @ es')) = mset (history pushed_of (es @ es'))" if "at_rest p'"
  proof -
    note rest = rest_state [OF whole assms(2) that]
    have "executing pc = [] \<and> in_hand pc = []" if "pc \<in> set (tp_workers p')" for pc
      using at_rest_points(2) [OF r'(1) \<open>at_rest p'\<close>] that by (fastforce simp: in_set_conv_nth)
    then have "concat (map executing (tp_workers p')) = []" "concat (map in_hand (tp_workers p')) = []" by auto
    then show ?thesis using rest r'(3) by (simp add: tasks_history_def)
  qed
  ultimately show ?thesis using settles_somewhere [OF r'(1)] by blast
qed

text \<open>One task in the queue, its worker asleep: twelve steps later it is done and the worker sleeps again.\<close>

theorem pool_settles_witness:
  "\<exists>es p es' p'. run pool_act (ThreadPool 1 1 :: nat pool) es p \<and> tp_tasks p = [7] \<and> tp_condition p = {0} \<and>
     run settle_act p es' p' \<and> at_rest p' \<and> mset (history finished_of (es @ es')) = {#7#}"
proof -
  let ?calls = "replicate 3 (Call 0 0)" and ?turn = "replicate 12 (Work 0)"
  have "case run_schedule pool_act one_task (ThreadPool 1 1) of None \<Rightarrow> False
    | Some (es, p) \<Rightarrow> tp_tasks p = [7] \<and> tp_condition p = {0} \<and>
        (case run_schedule settle_act (?calls @ ?turn) p of None \<Rightarrow> False
         | Some (es', p') \<Rightarrow> tp_workers p' = [W_Wait] \<and> tp_condition p' = {0} \<and> tp_callers p' = [E_Idle] \<and>
             tp_destructor p' = D_Alive \<and> tp_threadCount p' = 1 \<and> history pushed_of (es @ es') = [7])"
    by code_simp
  then obtain es and p :: "nat pool" where r: "run pool_act (ThreadPool 1 1) es p"
    and p: "tp_tasks p = [7] \<and> tp_condition p = {0} \<and>
        (case run_schedule settle_act (?calls @ ?turn) p of None \<Rightarrow> False
         | Some (es', p') \<Rightarrow> tp_workers p' = [W_Wait] \<and> tp_condition p' = {0} \<and> tp_callers p' = [E_Idle] \<and>
             tp_destructor p' = D_Alive \<and> tp_threadCount p' = 1 \<and> history pushed_of (es @ es') = [7])"
    by (rule run_witness)
  then obtain es' p' where s: "run_schedule settle_act (?calls @ ?turn) p = Some (es', p')"
    and p': "tp_workers p' = [W_Wait]" "tp_condition p' = {0}" "tp_callers p' = [E_Idle]" "tp_destructor p' = D_Alive"
      "tp_threadCount p' = 1" "history pushed_of (es @ es') = [7]"
    by (auto split: option.splits)
  have rest: "at_rest p'"
    using p' by (simp add: at_rest_def spawn_worker_def worker_step_def enqueue_step_def destructor_step_def)
  have r': "run settle_act p es' p'" by (rule run_schedule_run [OF s])
  from pool_settles [OF r zero_less_one r'] rest
  have "mset (history finished_of (es @ es')) = mset (history pushed_of (es @ es'))" by blast
  then have "mset (history finished_of (es @ es')) = {#7#}" unfolding p'(6) by simp
  then show ?thesis using r p r' rest by blast
qed

end
