(* ===== verification/Pool_Sessions.thy ===== *)
theory Pool_Sessions
  imports Pool_Server_Properties
begin

text \<open>
  The threads of the thread-pool server, each seen alone. Under every interleaving the events of one
  worker are those of the sequential program it runs, \<open>while(true)\<close> around taking a task and
  \<open>processClient\<close>, cut off at some point; and the events of main are those of \<open>main\<close>. The sequential
  programs are written here as the logs they produce, from the kernel's replies.
\<close>

section \<open>A worker's log\<close>

fun worker_of :: "'t pool_event \<Rightarrow> nat option" where
  "worker_of (Took i t) = Some i"
| "worker_of (Printed i t) = Some i"
| "worker_of (Began i t) = Some i"
| "worker_of (Finished i t) = Some i"
| "worker_of (Numbered i n) = Some i"
| "worker_of _ = None"

fun by_worker :: "nat \<Rightarrow> server_event \<Rightarrow> bool" where
  "by_worker i (Pool e) \<longleftrightarrow> worker_of e = Some i"
| "by_worker i (Io who e) \<longleftrightarrow> who = Some i"
| "by_worker i Quiet \<longleftrightarrow> False"

text \<open>The loop takes a task and says so.\<close>

definition picked :: "nat \<Rightarrow> int \<Rightarrow> server_event list" where
  "picked i clientSocket =
     [Pool (Took i clientSocket), Pool (Printed i (workerName i)),
      Pool (Printed i ('' picked a request'' @ endl)), Pool (Began i clientSocket)]"

text \<open>
  One turn of \<open>processClient\<close>: the reply \<open>r\<close> of \<open>recv\<close>, the request number \<open>n\<close>, the reply \<open>r'\<close> of
  \<open>send\<close>; and the last turn, with the replies of \<open>recv\<close> and \<open>close\<close>.
\<close>

definition request_read :: "nat \<Rightarrow> int \<Rightarrow> reply \<Rightarrow> int \<Rightarrow> server_event list" where
  "request_read i clientSocket r n =
     Io (Some i) (Sys (SysRecv clientSocket 1023) r) # Pool (Numbered i n) #
     map (Io (Some i) \<circ> Out)
       [''Request #'', to_string n, '' received: '', c_str (string_of_bytes (stored r)), endl]"

fun request_served :: "nat \<Rightarrow> int \<Rightarrow> reply \<times> int \<times> reply \<Rightarrow> server_event list" where
  "request_served i clientSocket (r, n, r') =
     request_read i clientSocket r n @ [Io (Some i) (Sys (SysSend clientSocket (answer n)) r')]"

definition goodbye :: "nat \<Rightarrow> int \<Rightarrow> reply \<Rightarrow> server_event list" where
  "goodbye i clientSocket r =
     [Io (Some i) (Sys (SysRecv clientSocket 1023) r), Io (Some i) (Out (''Client disconnected'' @ endl))]"

text \<open>A whole round of the worker's loop, and the replies that make one.\<close>

record round =
  rd_socket :: int
  rd_requests :: "(reply \<times> int \<times> reply) list"
  rd_recv :: reply
  rd_close :: reply

definition requests_events :: "nat \<Rightarrow> int \<Rightarrow> (reply \<times> int \<times> reply) list \<Rightarrow> server_event list" where
  "requests_events i clientSocket reqs = concat (map (request_served i clientSocket) reqs)"

definition round_events :: "nat \<Rightarrow> round \<Rightarrow> server_event list" where
  "round_events i rd =
     picked i (rd_socket rd) @ requests_events i (rd_socket rd) (rd_requests rd) @
     goodbye i (rd_socket rd) (rd_recv rd) @
     [Io (Some i) (Sys (SysClose (rd_socket rd)) (rd_close rd)), Pool (Finished i (rd_socket rd))]"

definition read_ok :: "int \<Rightarrow> reply \<Rightarrow> bool" where
  "read_ok clientSocket r \<longleftrightarrow> reply_ok (SysRecv clientSocket 1023) r \<and> 0 < ret r"

definition gone_ok :: "int \<Rightarrow> reply \<Rightarrow> bool" where
  "gone_ok clientSocket r \<longleftrightarrow> reply_ok (SysRecv clientSocket 1023) r \<and> ret r \<le> 0"

fun request_ok :: "int \<Rightarrow> reply \<times> int \<times> reply \<Rightarrow> bool" where
  "request_ok clientSocket (r, n, r') \<longleftrightarrow>
     read_ok clientSocket r \<and> reply_ok (SysSend clientSocket (answer n)) r'"

definition round_ok :: "round \<Rightarrow> bool" where
  "round_ok rd \<longleftrightarrow>
     list_all (request_ok (rd_socket rd)) (rd_requests rd) \<and> gone_ok (rd_socket rd) (rd_recv rd) \<and>
     reply_ok (SysClose (rd_socket rd)) (rd_close rd)"

section \<open>Where a worker is in its round\<close>

definition worker_at :: "pool_server \<Rightarrow> nat \<Rightarrow> int worker_point" where
  "worker_at s i = (if i < length (tp_workers (ps_pool s)) then tp_workers (ps_pool s) ! i else W_Lock)"

text \<open>What the current turn of \<open>processClient\<close> has logged.\<close>

fun turn_log :: "nat \<Rightarrow> int \<Rightarrow> client_point \<Rightarrow> server_event list \<Rightarrow> bool" where
  "turn_log i fd C_Recv l \<longleftrightarrow> l = []"
| "turn_log i fd (C_Number bs) l \<longleftrightarrow>
     (\<exists>r. read_ok fd r \<and> stored r = bs \<and> l = [Io (Some i) (Sys (SysRecv fd 1023) r)])"
| "turn_log i fd (C_Say ts n) l \<longleftrightarrow>
     (\<exists>r. read_ok fd r \<and> l @ map (Io (Some i) \<circ> Out) ts = request_read i fd r n)"
| "turn_log i fd (C_Send n) l \<longleftrightarrow> (\<exists>r. read_ok fd r \<and> l = request_read i fd r n)"
| "turn_log i fd C_Disconnected l \<longleftrightarrow> (\<exists>r. gone_ok fd r \<and> l = [Io (Some i) (Sys (SysRecv fd 1023) r)])"
| "turn_log i fd C_Close l \<longleftrightarrow> (\<exists>r. gone_ok fd r \<and> l = goodbye i fd r)"
| "turn_log i fd C_Returned l \<longleftrightarrow>
     (\<exists>r r'. gone_ok fd r \<and> reply_ok (SysClose fd) r' \<and>
        l = goodbye i fd r @ [Io (Some i) (Sys (SysClose fd) r')])"

definition session_log :: "nat \<Rightarrow> int \<Rightarrow> client_point \<Rightarrow> server_event list \<Rightarrow> bool" where
  "session_log i fd c l \<longleftrightarrow>
     (\<exists>reqs l'. list_all (request_ok fd) reqs \<and> turn_log i fd c l' \<and>
        l = picked i fd @ requests_events i fd reqs @ l')"

definition round_log :: "nat \<Rightarrow> int worker_point \<Rightarrow> client_point \<Rightarrow> server_event list \<Rightarrow> bool" where
  "round_log i w c l \<longleftrightarrow>
     (case w of
        W_Unlock fd \<Rightarrow> l = take 1 (picked i fd)
      | W_Name fd \<Rightarrow> l = take 1 (picked i fd)
      | W_Print fd \<Rightarrow> l = take 2 (picked i fd)
      | W_Call fd \<Rightarrow> l = take 3 (picked i fd)
      | W_Running fd \<Rightarrow> session_log i fd c l
      | _ \<Rightarrow> l = [])"

text \<open>An event continues the current round, or ends it.\<close>

definition continues :: "nat \<Rightarrow> pool_server \<Rightarrow> server_event \<Rightarrow> pool_server \<Rightarrow> bool" where
  "continues i s e s' \<longleftrightarrow>
     (\<forall>l. round_log i (worker_at s i) (ps_client s i) l \<longrightarrow>
        round_log i (worker_at s' i) (ps_client s' i) (l @ filter (by_worker i) [e]) \<or>
        (\<exists>rd. round_ok rd \<and> l @ filter (by_worker i) [e] = round_events i rd \<and>
           round_log i (worker_at s' i) (ps_client s' i) []))"

lemma continues_other:
  "\<not> by_worker i e \<Longrightarrow> worker_at s' i = worker_at s i \<Longrightarrow> ps_client s' i = ps_client s i \<Longrightarrow> continues i s e s'"
  by (simp add: continues_def)

text \<open>The pool's own code moves a worker through its loop.\<close>

lemma continues_worker:
  assumes i: "i < length (tp_workers (ps_pool s))"
    and s: "worker_step i (ps_pool s) = Some (e, p)"
    and r: "running_task (tp_workers (ps_pool s) ! i) \<noteq> None \<longrightarrow> ps_client s i = C_Returned"
    and s': "s' = pool_effect e (s\<lparr>ps_pool := p\<rparr>)"
  shows "continues i s (Pool e) s'"
proof -
  have at: "worker_at s i = tp_workers (ps_pool s) ! i" "worker_at s' i = tp_workers p ! i"
    using i worker_frame(7) [OF s] by (simp_all add: worker_at_def s' pool_effect_pool)
  have client: "ps_client s' i = (if \<exists>t. e = Began i t then C_Recv else ps_client s i)"
    using s unfolding s'
    by (cases "tp_workers (ps_pool s) ! i") (auto simp: worker_step_def split: if_splits list.splits)
  show ?thesis
  proof (cases "tp_workers (ps_pool s) ! i")
    case (W_Running fd)
    then have e: "e = Finished i fd" "tp_workers p ! i = W_Lock" "ps_client s i = C_Returned"
      using s i r by (auto simp: worker_step_def running_task_def)
    have "\<exists>rd. round_ok rd \<and> l @ [Pool (Finished i fd)] = round_events i rd" if "session_log i fd C_Returned l" for l
    proof -
      from that obtain reqs r r' where "list_all (request_ok fd) reqs" "gone_ok fd r" "reply_ok (SysClose fd) r'"
        "l = picked i fd @ requests_events i fd reqs @ goodbye i fd r @ [Io (Some i) (Sys (SysClose fd) r')]"
        by (auto simp: session_log_def)
      then show ?thesis
        by (intro exI [of _ "\<lparr>rd_socket = fd, rd_requests = reqs, rd_recv = r, rd_close = r'\<rparr>"])
          (simp add: round_ok_def round_events_def)
    qed
    then show ?thesis by (simp add: continues_def at W_Running e round_log_def)
  next
    case (W_Call fd)
    then have e: "e = Began i fd" "tp_workers p ! i = W_Running fd"
      using s i by (auto simp: worker_step_def)
    show ?thesis
      by (simp add: continues_def at W_Call e client round_log_def session_log_def requests_events_def picked_def)
        (intro exI [of _ "[]"], simp)
  qed (use s i in \<open>auto simp: worker_step_def continues_def at client round_log_def picked_def
         split: if_splits list.splits\<close>)
qed

text \<open>A move of \<open>processClient\<close>.\<close>

lemma turn_ends:
  assumes "session_log i fd c l"
    and "\<And>l'. turn_log i fd c l' \<Longrightarrow> \<exists>q. request_ok fd q \<and> l' @ [e] = request_served i fd q"
  shows "session_log i fd C_Recv (l @ [e])"
proof -
  from assms(1) obtain reqs l' where l: "list_all (request_ok fd) reqs" "turn_log i fd c l'"
    "l = picked i fd @ requests_events i fd reqs @ l'"
    by (auto simp: session_log_def)
  from assms(2) [OF l(2)] obtain q where q: "request_ok fd q" "l' @ [e] = request_served i fd q" by blast
  have "l @ [e] = picked i fd @ requests_events i fd (reqs @ [q]) @ []"
    using q(2) by (simp add: l(3) requests_events_def)
  moreover have "list_all (request_ok fd) (reqs @ [q])" using l(1) q(1) by simp
  ultimately show ?thesis unfolding session_log_def by (metis turn_log.simps(1))
qed

lemma turn_goes_on:
  assumes "session_log i fd c l" and "\<And>l'. turn_log i fd c l' \<Longrightarrow> turn_log i fd c' (l' @ es)"
  shows "session_log i fd c' (l @ es)"
  using assms unfolding session_log_def by (metis append.assoc)

lemma turn_said: "session_log i fd (C_Say [] n) l \<Longrightarrow> session_log i fd (C_Send n) l"
  using turn_goes_on [of i fd "C_Say [] n" l "C_Send n" "[]"] by simp

lemma session_client:
  assumes s: "client_step i fd r s = Some (e, s')" and l: "session_log i fd (ps_client s i) l"
  shows "session_log i fd (ps_client s' i) (l @ filter (by_worker i) [e])"
proof (cases "ps_client s i")
  case (C_Say ts n)
  then show ?thesis using s l
    by (cases ts) (auto simp: client_step_def elim: turn_goes_on turn_said)
next
  case (C_Number bs)
  then show ?thesis using s l
    by (auto simp: client_step_def request_read_def getRequestNumber_def Let_def split: if_splits elim!: turn_goes_on)
next
  case (C_Send n)
  have e: "e = Io (Some i) (Sys (SysSend fd (answer n)) r)" "reply_ok (SysSend fd (answer n)) r"
    "ps_client s' i = C_Recv"
    using s C_Send by (auto simp: client_step_def call_kernel_def answer_def split: if_splits)
  have "session_log i fd C_Recv (l @ [e])"
  proof (rule turn_ends [OF l])
    fix l' assume "turn_log i fd (ps_client s i) l'"
    then obtain r0 where "read_ok fd r0" "l' = request_read i fd r0 n" by (auto simp: C_Send)
    then show "\<exists>q. request_ok fd q \<and> l' @ [e] = request_served i fd q"
      using e by (intro exI [of _ "(r0, n, r)"]) simp
  qed
  then show ?thesis by (simp add: e)
next
  case C_Recv
  then show ?thesis using s l
    by (auto simp: client_step_def call_kernel_def read_ok_def gone_ok_def split: if_splits elim!: turn_goes_on)
next
  case C_Disconnected
  then show ?thesis using s l by (auto simp: client_step_def goodbye_def elim!: turn_goes_on)
next
  case C_Close
  then show ?thesis using s l
    by (auto simp: client_step_def call_kernel_def split: if_splits elim!: turn_goes_on)
next
  case C_Returned
  then show ?thesis using s by (simp add: client_step_def)
qed

lemma client_step_frame:
  assumes "client_step i fd r s = Some (e, s')"
  shows "tp_workers (ps_pool s') = tp_workers (ps_pool s)" "k \<noteq> i \<Longrightarrow> ps_client s' k = ps_client s k"
    "k \<noteq> i \<Longrightarrow> \<not> by_worker k e"
proof -
  have "tp_workers (ps_pool s') = tp_workers (ps_pool s) \<and> (k \<noteq> i \<longrightarrow> ps_client s' k = ps_client s k) \<and>
    (k \<noteq> i \<longrightarrow> \<not> by_worker k e)"
  proof (cases "ps_client s i")
    case (C_Say ts n)
    then show ?thesis using assms by (cases ts) (auto simp: client_step_def)
  next
    case (C_Number bs)
    then show ?thesis using assms
      by (auto simp: client_step_def getRequestNumber_def Let_def split: if_splits)
  qed (use assms in \<open>auto simp: client_step_def call_kernel_def split: if_splits\<close>)
  then show "tp_workers (ps_pool s') = tp_workers (ps_pool s)" "k \<noteq> i \<Longrightarrow> ps_client s' k = ps_client s k"
    "k \<noteq> i \<Longrightarrow> \<not> by_worker k e"
    by blast+
qed

lemma continues_client:
  assumes "i < length (tp_workers (ps_pool s))" "running_task (tp_workers (ps_pool s) ! i) = Some fd"
    "client_step i fd r s = Some (e, s')"
  shows "continues i s e s'"
proof -
  have "worker_at s i = W_Running fd" "worker_at s' i = W_Running fd"
    using assms(1,2) client_step_frame(1) [OF assms(3)]
    by (auto simp: worker_at_def running_task_def split: worker_point.splits)
  then show ?thesis using session_client [OF assms(3)] by (simp add: continues_def round_log_def)
qed

lemma continues_act:
  assumes a: "server_act h a s = Some (e, s')"
  shows "continues i s e s'"
proof (cases a)
  case Start_Worker
  then show ?thesis using a
    by (intro continues_other) (auto simp: pool_part_def spawn_worker_def worker_at_def nth_append split: if_splits)
next
  case (Pool_Worker k)
  then have p: "pool_part (Work k) s = Some (e, s')"
    and r: "running_task (tp_workers (ps_pool s) ! k) \<noteq> None \<longrightarrow> ps_client s k = C_Returned"
    using a by (auto split: if_splits)
  from p obtain e' p' where w: "k < length (tp_workers (ps_pool s))" "worker_step k (ps_pool s) = Some (e', p')"
    "e = Pool e'" "s' = pool_effect e' (s\<lparr>ps_pool := p'\<rparr>)"
    by (auto simp: pool_part_def split: if_splits)
  show ?thesis
  proof (cases "i = k")
    case True
    then show ?thesis using continues_worker [OF w(1,2) r w(4)] w(3) by simp
  next
    case False
    then show ?thesis using w worker_frame(7,8) [OF w(2)]
      by (intro continues_other; cases "tp_workers (ps_pool s) ! k")
        (auto simp: worker_step_def worker_at_def pool_effect_pool split: if_splits list.splits)
  qed
next
  case (Wake_Worker k)
  then show ?thesis using a
    by (intro continues_other) (auto simp: pool_part_def worker_at_def split: if_splits)
next
  case (Pool_Caller k)
  then obtain e' p' where c: "enqueue_step 0 k (ps_pool s) = Some (e', p')" "e = Pool e'"
    "s' = pool_effect e' (s\<lparr>ps_pool := p'\<rparr>)"
    using a by (auto simp: pool_part_def split: if_splits)
  have e: "worker_of e' = None" "\<forall>i t. e' \<noteq> Began i t"
    using c(1) by (cases "tp_callers (ps_pool s) ! 0"; auto simp: enqueue_step_def split: if_splits)+
  then show ?thesis using enqueue_frame(1) [OF c(1)] c(2,3)
    by (intro continues_other) (simp_all add: worker_at_def pool_effect_pool pool_effect_frame)
next
  case (Main_Thread r)
  then show ?thesis using a
    by (intro continues_other; cases "ps_main s")
      (auto simp: main_step_def call_kernel_def worker_at_def split: if_splits)
next
  case (Session k r)
  then obtain fd where c: "k < length (tp_workers (ps_pool s))" "running_task (tp_workers (ps_pool s) ! k) = Some fd"
    "client_step k fd r s = Some (e, s')"
    using a by (auto split: if_splits option.splits)
  show ?thesis
  proof (cases "i = k")
    case True
    then show ?thesis using continues_client c by blast
  next
    case False
    then show ?thesis using client_step_frame [OF c(3)] by (intro continues_other) (simp_all add: worker_at_def)
  qed
qed

section \<open>Each worker runs the sequential program\<close>

text \<open>Every log of an unfinished round is the beginning of a whole round.\<close>

definition hung_up :: reply where
  "hung_up = \<lparr>ret = 0, err_text = [], err_EINTR = False, err_ECONNRESET = False, stored = [], stored_port = 0\<rparr>"

lemma hung_up_ok: "gone_ok fd hung_up" "reply_ok (SysClose fd) hung_up" "reply_ok (SysSend fd bs) hung_up"
  by (simp_all add: gone_ok_def reply_ok_def hung_up_def)

lemma turn_completes:
  assumes "turn_log i fd c l"
  shows "(\<exists>q. request_ok fd q \<and> prefix l (request_served i fd q)) \<or>
    (\<exists>r r'. gone_ok fd r \<and> reply_ok (SysClose fd) r' \<and>
      prefix l (goodbye i fd r @ [Io (Some i) (Sys (SysClose fd) r')]))"
proof (cases c)
  case C_Recv
  then show ?thesis using assms by (intro disjI2 exI [of _ hung_up]) (simp add: hung_up_ok)
next
  case (C_Number bs)
  then obtain r where "read_ok fd r" "l = [Io (Some i) (Sys (SysRecv fd 1023) r)]" using assms by auto
  then show ?thesis by (intro disjI1 exI [of _ "(r, 0, hung_up)"]) (simp add: request_read_def hung_up_ok)
next
  case (C_Say ts n)
  then obtain r where "read_ok fd r" "l @ map (Io (Some i) \<circ> Out) ts = request_read i fd r n" using assms by auto
  moreover from this have "prefix l (request_read i fd r n)" by (metis prefixI)
  ultimately show ?thesis
    by (intro disjI1 exI [of _ "(r, n, hung_up)"]) (simp add: hung_up_ok)
next
  case (C_Send n)
  then obtain r where "read_ok fd r" "l = request_read i fd r n" using assms by auto
  then show ?thesis by (intro disjI1 exI [of _ "(r, n, hung_up)"]) (simp add: hung_up_ok)
qed (use assms hung_up_ok in \<open>fastforce simp: goodbye_def\<close>)+

lemma session_completes:
  assumes "session_log i fd c l"
  shows "\<exists>rd. round_ok rd \<and> prefix l (round_events i rd)"
proof -
  obtain reqs l' where l: "list_all (request_ok fd) reqs" "turn_log i fd c l'"
    "l = picked i fd @ requests_events i fd reqs @ l'"
    using assms by (auto simp: session_log_def)
  from turn_completes [OF l(2)] show ?thesis
  proof (elim disjE exE conjE)
    fix q assume q: "request_ok fd q" "prefix l' (request_served i fd q)"
    let ?rd = "\<lparr>rd_socket = fd, rd_requests = reqs @ [q], rd_recv = hung_up, rd_close = hung_up\<rparr>"
    have "prefix l (round_events i ?rd)"
      using q(2) by (simp add: l(3) round_events_def requests_events_def)
    moreover have "round_ok ?rd" using l(1) q(1) by (simp add: round_ok_def hung_up_ok)
    ultimately show ?thesis by blast
  next
    fix r r' assume q: "gone_ok fd r" "reply_ok (SysClose fd) r'"
      "prefix l' (goodbye i fd r @ [Io (Some i) (Sys (SysClose fd) r')])"
    let ?rd = "\<lparr>rd_socket = fd, rd_requests = reqs, rd_recv = r, rd_close = r'\<rparr>"
    have "prefix l' (goodbye i fd r @ [Io (Some i) (Sys (SysClose fd) r'), Pool (Finished i fd)])"
      using prefix_prefix [OF q(3), of "[Pool (Finished i fd)]"] by simp
    then have "prefix l (round_events i ?rd)" by (simp add: l(3) round_events_def)
    moreover have "round_ok ?rd" using l(1) q(1,2) by (simp add: round_ok_def)
    ultimately show ?thesis by blast
  qed
qed

lemma picked_completes: "\<exists>rd. round_ok rd \<and> prefix (take n (picked i fd)) (round_events i rd)"
  by (rule exI [of _ "\<lparr>rd_socket = fd, rd_requests = [], rd_recv = hung_up, rd_close = hung_up\<rparr>"])
    (simp add: round_ok_def hung_up_ok round_events_def take_is_prefix prefix_order.trans [OF take_is_prefix])

lemma round_completes: "round_log i w c l \<Longrightarrow> \<exists>rd. round_ok rd \<and> prefix l (round_events i rd)"
  using picked_completes [of 0 i 0]
  by (cases w) (auto simp: round_log_def session_completes picked_completes)

interpretation worker_rounds: event_rounds "server_act h" "\<lambda>s. s = PoolServer" "by_worker i" "round_events i"
    "list_all round_ok" "\<lambda>_ s. round_log i (worker_at s i) (ps_client s i)" for h i
proof
  fix rds s l a e s'
  assume "list_all round_ok rds" "round_log i (worker_at s i) (ps_client s i) l" "server_act h a s = Some (e, s')"
  then show "round_log i (worker_at s' i) (ps_client s' i) (l @ filter (by_worker i) [e]) \<or>
    (\<exists>rd. list_all round_ok (rds @ [rd]) \<and> l @ filter (by_worker i) [e] = round_events i rd \<and>
      round_log i (worker_at s' i) (ps_client s' i) [])"
    using continues_act [of h a s e s' i] unfolding continues_def by simp
qed (use round_completes in \<open>auto simp: PoolServer_def ThreadPool_def round_log_def worker_at_def\<close>)

text \<open>
  C9. Every worker runs the sequential program. Whatever the schedule of main and the workers and
  whatever the kernel answers, what worker \<open>i\<close> did so far is a beginning of whole rounds, one after the
  other: take a task, say so, then for each non-empty \<open>recv\<close> on its socket (of at most 1023 bytes) one
  request number, one line with that number and the text received, and one response with that number
  on the same socket; after the first \<open>recv\<close> that gives nothing or fails, the farewell and one
  \<open>close\<close> of that socket.
\<close>

theorem worker_runs_sequentially:
  assumes "run (server_act h) PoolServer es s"
  shows "\<exists>rounds. list_all round_ok rounds \<and>
    prefix (filter (by_worker i) es) (concat (map (round_events i) rounds))"
  using worker_rounds.rounds_run [OF assms refl] .

section \<open>The main thread's log\<close>

fun caller_of :: "'t pool_event \<Rightarrow> nat option" where
  "caller_of (Pushed j t) = Some j"
| "caller_of (Returned j b) = Some j"
| "caller_of _ = None"

fun by_main :: "server_event \<Rightarrow> bool" where
  "by_main (Pool e) \<longleftrightarrow> caller_of e \<noteq> None"
| "by_main (Io who e) \<longleftrightarrow> who = None"
| "by_main Quiet \<longleftrightarrow> False"

text \<open>
  The rounds of main, with the kernel's replies: the start-up, a connection handed to the pool, and
  one the pool refused.
\<close>

datatype main_round =
    Start_Up reply reply reply
  | Queued int reply
  | Turned_Away int reply reply reply



definition connected :: "int \<Rightarrow> reply \<Rightarrow> server_event list" where
  "connected serverSocket r =
     [Io None (Sys (SysAccept serverSocket) r), Io None (Out (''Client connected'' @ endl))]"

fun main_events :: "endianness \<Rightarrow> main_round \<Rightarrow> server_event list" where
  "main_events h (Start_Up r r1 r2) =
     [Io None (Sys SysSocket r),
      Io None (Sys (SysBind (ret r) \<lparr>sin_addr = 0, sin_port = htons h 8080\<rparr>) r1),
      Io None (Sys (SysListen (ret r) 10) r2),
      Io None (Out (''Server started on port 8080'' @ endl))]"
| "main_events h (Queued serverSocket r) =
     connected serverSocket r @ [Pool (Pushed 0 (ret r)), Pool (Returned 0 True)]"
| "main_events h (Turned_Away serverSocket r r1 r2) =
     connected serverSocket r @
     [Pool (Returned 0 False),
      Io None (Sys (SysSend (ret r) (bytes_of_string ''Server busy. Try later'')) r1),
      Io None (Sys (SysClose (ret r)) r2)]"

fun main_round_ok :: "endianness \<Rightarrow> main_round \<Rightarrow> bool" where
  "main_round_ok h (Start_Up r r1 r2) \<longleftrightarrow>
     reply_ok SysSocket r \<and> reply_ok (SysBind (ret r) \<lparr>sin_addr = 0, sin_port = htons h 8080\<rparr>) r1 \<and>
     reply_ok (SysListen (ret r) 10) r2"
| "main_round_ok h (Queued serverSocket r) \<longleftrightarrow> reply_ok (SysAccept serverSocket) r"
| "main_round_ok h (Turned_Away serverSocket r r1 r2) \<longleftrightarrow>
     reply_ok (SysAccept serverSocket) r \<and>
     reply_ok (SysSend (ret r) (bytes_of_string ''Server busy. Try later'')) r1 \<and> reply_ok (SysClose (ret r)) r2"

fun accepts_on :: "int \<Rightarrow> main_round \<Rightarrow> bool" where
  "accepts_on fd (Start_Up r r1 r2) \<longleftrightarrow> False"
| "accepts_on fd (Queued serverSocket r) \<longleftrightarrow> serverSocket = fd"
| "accepts_on fd (Turned_Away serverSocket r r1 r2) \<longleftrightarrow> serverSocket = fd"

text \<open>The start-up comes first and once, and every connection is accepted on the socket it opened.\<close>

fun main_rounds_ok :: "endianness \<Rightarrow> main_round list \<Rightarrow> bool" where
  "main_rounds_ok h [] \<longleftrightarrow> True"
| "main_rounds_ok h (Start_Up r r1 r2 # turns) \<longleftrightarrow>
     main_round_ok h (Start_Up r r1 r2) \<and> list_all (main_round_ok h) turns \<and> list_all (accepts_on (ret r)) turns"
| "main_rounds_ok h _ \<longleftrightarrow> False"

definition starting :: "main_point \<Rightarrow> bool" where
  "starting m \<longleftrightarrow> m \<in> {M_Socket, M_Bind, M_Listen, M_Started}"

text \<open>What the current round of main has logged.\<close>

fun start_log :: "endianness \<Rightarrow> main_point \<Rightarrow> int \<Rightarrow> server_event list \<Rightarrow> bool" where
  "start_log h M_Socket fd l \<longleftrightarrow> l = []"
| "start_log h M_Bind fd l \<longleftrightarrow>
     (\<exists>r r1 r2. main_round_ok h (Start_Up r r1 r2) \<and> ret r = fd \<and> l = take 1 (main_events h (Start_Up r r1 r2)))"
| "start_log h M_Listen fd l \<longleftrightarrow>
     (\<exists>r r1 r2. main_round_ok h (Start_Up r r1 r2) \<and> ret r = fd \<and> l = take 2 (main_events h (Start_Up r r1 r2)))"
| "start_log h M_Started fd l \<longleftrightarrow>
     (\<exists>r r1 r2. main_round_ok h (Start_Up r r1 r2) \<and> ret r = fd \<and> l = take 3 (main_events h (Start_Up r r1 r2)))"
| "start_log h _ fd l \<longleftrightarrow> False"

definition taken_in :: "int \<Rightarrow> int \<Rightarrow> server_event list \<Rightarrow> bool" where
  "taken_in serverSocket fd l \<longleftrightarrow>
     (\<exists>r. reply_ok (SysAccept serverSocket) r \<and> ret r = fd \<and> l = connected serverSocket r)"

fun accept_log :: "main_point \<Rightarrow> int caller_point \<Rightarrow> int \<Rightarrow> server_event list \<Rightarrow> bool" where
  "accept_log (M_Connected fd) pc ss l \<longleftrightarrow>
     (\<exists>r. reply_ok (SysAccept ss) r \<and> ret r = fd \<and> l = [Io None (Sys (SysAccept ss) r)])"
| "accept_log (M_Enqueue fd) pc ss l \<longleftrightarrow> taken_in ss fd l"
| "accept_log (M_Answer fd) pc ss l \<longleftrightarrow>
     (if accepting pc = 0 then taken_in ss fd l else \<exists>l'. taken_in ss fd l' \<and> l = l' @ [Pool (Pushed 0 fd)])"
| "accept_log (M_Busy fd) pc ss l \<longleftrightarrow> (\<exists>l'. taken_in ss fd l' \<and> l = l' @ [Pool (Returned 0 False)])"
| "accept_log (M_Close fd) pc ss l \<longleftrightarrow>
     (\<exists>l' r1. taken_in ss fd l' \<and> reply_ok (SysSend fd (bytes_of_string ''Server busy. Try later'')) r1 \<and>
        l = l' @ [Pool (Returned 0 False), Io None (Sys (SysSend fd (bytes_of_string ''Server busy. Try later'')) r1)])"
| "accept_log _ pc ss l \<longleftrightarrow> l = []"

definition main_part :: "endianness \<Rightarrow> main_round list \<Rightarrow> pool_server \<Rightarrow> server_event list \<Rightarrow> bool" where
  "main_part h rds s l \<longleftrightarrow>
     pool_server_inv s \<and>
     (if rds = [] then start_log h (ps_main s) (ps_serverSocket s) l
      else \<not> starting (ps_main s) \<and>
        (\<exists>r r1 r2 turns. rds = Start_Up r r1 r2 # turns \<and> ret r = ps_serverSocket s) \<and>
        accept_log (ps_main s) (tp_callers (ps_pool s) ! 0) (ps_serverSocket s) l)"

definition main_goes_on :: "endianness \<Rightarrow> main_round list \<Rightarrow> server_event list \<Rightarrow> server_event \<Rightarrow> pool_server \<Rightarrow> bool" where
  "main_goes_on h rds l e s' \<longleftrightarrow>
     main_part h rds s' (l @ filter by_main [e]) \<or>
     (\<exists>rd. main_rounds_ok h (rds @ [rd]) \<and> l @ filter by_main [e] = main_events h rd \<and>
        main_part h (rds @ [rd]) s' [])"

lemma main_other:
  assumes "main_part h rds s l" "pool_server_inv s'" "\<not> by_main e" "ps_main s' = ps_main s"
    "ps_serverSocket s' = ps_serverSocket s" "tp_callers (ps_pool s') ! 0 = tp_callers (ps_pool s) ! 0"
  shows "main_goes_on h rds l e s'"
proof -
  have "main_part h rds s' l" using assms by (auto simp: main_part_def)
  then show ?thesis using assms(3) by (simp add: main_goes_on_def)
qed

lemma reply_ok_bind [simp]: "reply_ok (SysBind fd a) r" "reply_ok (SysListen fd n) r" "reply_ok (SysClose fd) r"
    "reply_ok (SysAccept fd) r"
  by (simp_all add: reply_ok_def)

text \<open>The rounds so far end with the start-up or a connection; another connection may follow.\<close>

lemma another_turn:
  assumes "main_rounds_ok h rds" "rds = Start_Up r r1 r2 # turns" "main_round_ok h rd" "accepts_on (ret r) rd"
  shows "main_rounds_ok h (rds @ [rd])"
  using assms by simp

lemma main_starts:
  assumes p: "main_part h [] s l" and s: "main_step h r s = Some (e, s')" and inv: "pool_server_inv s'"
  shows "main_goes_on h [] l e s'"
proof (cases "ps_main s")
  case M_Socket
  then have "main_part h [] s' (l @ filter by_main [e])"
    using p s inv by (auto simp: main_part_def main_step_def call_kernel_def split: if_splits)
  then show ?thesis by (simp add: main_goes_on_def)
next
  case M_Bind
  then have "main_part h [] s' (l @ filter by_main [e])"
    using p s inv by (auto simp: main_part_def main_step_def call_kernel_def split: if_splits)
  then show ?thesis by (simp add: main_goes_on_def)
next
  case M_Listen
  then have "main_part h [] s' (l @ filter by_main [e])"
    using p s inv by (auto simp: main_part_def main_step_def call_kernel_def numeral_3_eq_3 split: if_splits)
  then show ?thesis by (simp add: main_goes_on_def)
next
  case M_Started
  then obtain r0 r1 r2 where q: "main_round_ok h (Start_Up r0 r1 r2)" "ret r0 = ps_serverSocket s"
      "l = take 3 (main_events h (Start_Up r0 r1 r2))"
    using p by (auto simp: main_part_def)
  moreover have "e = Io None (Out (''Server started on port 8080'' @ endl))" "s' = go_main M_Construct s"
    using s M_Started by (auto simp: main_step_def)
  ultimately show ?thesis using inv
    unfolding main_goes_on_def
    by (intro disjI2 exI [of _ "Start_Up r0 r1 r2"]) (simp add: main_part_def starting_def numeral_3_eq_3)
qed (use p in \<open>simp_all add: main_part_def\<close>)

lemma turn_part:
  assumes "rds = Start_Up r r1 r2 # turns" "ret r = ps_serverSocket s" "pool_server_inv s" "\<not> starting (ps_main s)"
  shows "main_part h rds s l \<longleftrightarrow> accept_log (ps_main s) (tp_callers (ps_pool s) ! 0) (ps_serverSocket s) l"
  using assms by (auto simp: main_part_def)

lemma turn_finished:
  assumes "main_rounds_ok h rds" "rds = Start_Up r r1 r2 # turns" "main_round_ok h rd" "accepts_on (ret r) rd"
    "l @ filter by_main [e] = main_events h rd" "main_part h rds s' []"
  shows "main_goes_on h rds l e s'"
proof -
  have "main_part h (rds @ [rd]) s' []" using assms(2,6) by (auto simp: main_part_def)
  then show ?thesis using another_turn [OF assms(1-4)] assms(5) unfolding main_goes_on_def by blast
qed

lemma main_turns:
  assumes p: "main_part h rds s l" "rds \<noteq> []" and o: "main_rounds_ok h rds"
    and s: "main_step h r s = Some (e, s')" and inv: "pool_server_inv s'"
  shows "main_goes_on h rds l e s'"
proof -
  obtain r0 r1 r2 turns where rds: "rds = Start_Up r0 r1 r2 # turns" "ret r0 = ps_serverSocket s"
    and l: "accept_log (ps_main s) (tp_callers (ps_pool s) ! 0) (ps_serverSocket s) l" "\<not> starting (ps_main s)"
    using p by (auto simp: main_part_def)
  have m: "ps_serverSocket s' = ps_serverSocket s \<and> \<not> starting (ps_main s')"
    using s l(2) by (cases "ps_main s") (auto simp: main_step_def call_kernel_def starting_def split: if_splits)
  then have part: "main_part h rds s' l' \<longleftrightarrow>
      accept_log (ps_main s') (tp_callers (ps_pool s') ! 0) (ps_serverSocket s) l'" for l'
    using rds inv turn_part [of rds r0 r1 r2 turns s'] by simp
  show ?thesis
  proof (cases "ps_main s")
    case (M_Close fd)
    then obtain r3 r4 where q: "reply_ok (SysAccept (ps_serverSocket s)) r3" "ret r3 = fd"
      "reply_ok (SysSend fd (bytes_of_string ''Server busy. Try later'')) r4"
      "l = connected (ps_serverSocket s) r3 @ [Pool (Returned 0 False),
        Io None (Sys (SysSend fd (bytes_of_string ''Server busy. Try later'')) r4)]"
      using l by (auto simp: taken_in_def)
    have e: "e = Io None (Sys (SysClose fd) r)" "ps_main s' = M_Accept"
      using s M_Close by (auto simp: main_step_def call_kernel_def split: if_splits)
    show ?thesis
      by (rule turn_finished [OF o rds(1), of "Turned_Away (ps_serverSocket s) r3 r4 r"])
        (use q e rds part in simp_all)
  next
    case (M_Enqueue fd)
    then have "main_part h rds s' (l @ filter by_main [e])"
      using s l inv unfolding part
      by (auto simp: main_step_def split: if_splits simp: pool_server_inv_def)
    then show ?thesis by (simp add: main_goes_on_def)
  next
    case (M_Busy fd)
    then have "main_part h rds s' (l @ filter by_main [e])"
      using s l unfolding part by (auto simp: main_step_def call_kernel_def split: if_splits)
    then show ?thesis by (simp add: main_goes_on_def)
  next
    case (M_Connected fd)
    then have "main_part h rds s' (l @ filter by_main [e])"
      using s l unfolding part by (auto simp: main_step_def taken_in_def connected_def)
    then show ?thesis by (simp add: main_goes_on_def)
  next
    case M_Accept
    then have "main_part h rds s' (l @ filter by_main [e])"
      using s l unfolding part by (auto simp: main_step_def call_kernel_def split: if_splits)
    then show ?thesis by (simp add: main_goes_on_def)
  next
    case M_Construct
    then have "main_part h rds s' (l @ filter by_main [e])"
      using s l unfolding part by (auto simp: main_step_def split: if_splits)
    then show ?thesis by (simp add: main_goes_on_def)
  qed (use s l(2) in \<open>simp_all add: starting_def main_step_def\<close>)
qed

lemma client_step_main:
  assumes "client_step i fd r s = Some (e, s')"
  shows "ps_serverSocket s' = ps_serverSocket s" "\<not> by_main e"
proof -
  have "ps_serverSocket s' = ps_serverSocket s \<and> \<not> by_main e"
  proof (cases "ps_client s i")
    case (C_Say ts n)
    then show ?thesis using assms by (cases ts) (auto simp: client_step_def)
  next
    case (C_Number bs)
    then show ?thesis using assms
      by (auto simp: client_step_def getRequestNumber_def Let_def split: if_splits)
  qed (use assms in \<open>auto simp: client_step_def call_kernel_def split: if_splits\<close>)
  then show "ps_serverSocket s' = ps_serverSocket s" "\<not> by_main e" by blast+
qed

lemma main_answered:
  assumes p: "main_part h rds s l" and o: "main_rounds_ok h rds"
    and s: "enqueue_step 0 i (ps_pool s) = Some (e, p)" and s': "s' = pool_effect e (s\<lparr>ps_pool := p\<rparr>)"
  shows "main_goes_on h rds l (Pool e) s'"
proof -
  have inv: "pool_server_inv s" using p by (simp add: main_part_def)
  have inv': "pool_server_inv s'" by (rule account_caller(2) [OF inv s s'])
  have len: "0 < length (tp_callers (ps_pool s))" using inv by (simp add: pool_server_inv_def)
  have "tp_callers (ps_pool s) ! 0 \<noteq> E_Idle" using s by (auto simp: enqueue_step_def)
  then obtain fd where m: "ps_main s = M_Answer fd" "main_inv (M_Answer fd) (tp_callers (ps_pool s) ! 0)"
    using inv unfolding pool_server_inv_def by (cases "ps_main s") auto
  then obtain r0 r1 r2 turns where rds: "rds = Start_Up r0 r1 r2 # turns" "ret r0 = ps_serverSocket s"
    and l: "accept_log (M_Answer fd) (tp_callers (ps_pool s) ! 0) (ps_serverSocket s) l"
    using p by (cases "rds = []") (auto simp: main_part_def)
  have "ps_serverSocket s' = ps_serverSocket s" by (simp add: s' pool_effect_frame)
  moreover have "\<not> starting (ps_main s')"
    using s m(1) unfolding s' by (cases "tp_callers (ps_pool s) ! 0")
      (auto simp: enqueue_step_def starting_def split: if_splits)
  ultimately have part: "main_part h rds s' l' \<longleftrightarrow>
      accept_log (ps_main s') (tp_callers p ! 0) (ps_serverSocket s) l'" for l'
    using rds inv' turn_part [of rds r0 r1 r2 turns s'] by (simp add: s' pool_effect_pool)
  show ?thesis
  proof (cases "tp_callers (ps_pool s) ! 0 = E_Return")
    case True
    then have e: "e = Returned 0 True" "ps_main s' = M_Accept"
      using s m(1) unfolding s' by (auto simp: enqueue_step_def)
    from l True obtain r3 where q: "ret r3 = fd"
      "l = connected (ps_serverSocket s) r3 @ [Pool (Pushed 0 fd)]" by (auto simp: taken_in_def)
    show ?thesis
      by (rule turn_finished [OF o rds(1), of "Queued (ps_serverSocket s) r3"]) (use q e rds part in simp_all)
  next
    case False
    then have "accept_log (ps_main s') (tp_callers p ! 0) (ps_serverSocket s) (l @ filter by_main [Pool e])"
      using s l m len unfolding s'
      by (cases "tp_callers (ps_pool s) ! 0") (auto simp: enqueue_step_def split: if_splits)
    then show ?thesis by (simp add: main_goes_on_def part)
  qed
qed

lemma main_act:
  assumes o: "main_rounds_ok h rds" and p: "main_part h rds s l" and a: "server_act h a s = Some (e, s')"
  shows "main_goes_on h rds l e s'"
proof -
  have inv: "pool_server_inv s'" using account_act [OF _ a] p by (simp add: main_part_def)
  show ?thesis
  proof (cases a)
    case Start_Worker
    then have "pool_part Spawn s = Some (e, s')" using a by (auto split: if_splits)
    then show ?thesis by (intro main_other [OF p inv]) (auto simp: pool_part_def spawn_worker_def split: if_splits)
  next
    case (Pool_Worker i)
    then have "pool_part (Work i) s = Some (e, s')" using a by (auto split: if_splits)
    then obtain e' p' where w: "worker_step i (ps_pool s) = Some (e', p')" "e = Pool e'"
      "s' = pool_effect e' (s\<lparr>ps_pool := p'\<rparr>)"
      by (auto simp: pool_part_def split: if_splits)
    have "caller_of e' = None" "\<forall>j b. e' \<noteq> Returned j b"
      using w(1) by (cases "tp_workers (ps_pool s) ! i"; auto simp: worker_step_def split: if_splits list.splits)+
    then show ?thesis using worker_frame(1) [OF w(1)] w(2,3)
      by (intro main_other [OF p inv]) (simp_all add: pool_effect_pool pool_effect_frame)
  next
    case (Wake_Worker i)
    then show ?thesis using a by (intro main_other [OF p inv]) (auto simp: pool_part_def split: if_splits)
  next
    case (Pool_Caller i)
    then obtain e' p' where c: "enqueue_step 0 i (ps_pool s) = Some (e', p')" "e = Pool e'"
      "s' = pool_effect e' (s\<lparr>ps_pool := p'\<rparr>)"
      using a by (auto simp: pool_part_def split: if_splits)
    then show ?thesis using main_answered [OF p o c(1,3)] by simp
  next
    case (Main_Thread r)
    then have "main_step h r s = Some (e, s')" using a by simp
    then show ?thesis using main_starts [of h s l r e s'] main_turns [OF p _ o _ inv] p inv by (cases "rds = []") auto
  next
    case (Session i r)
    then obtain fd where c: "i < length (tp_workers (ps_pool s))" "running_task (tp_workers (ps_pool s) ! i) = Some fd"
      "client_step i fd r s = Some (e, s')"
      using a by (auto split: if_splits option.splits)
    show ?thesis
      using account_client(2,3) [OF c] client_step_main [OF c(3)] by (intro main_other [OF p inv]) simp_all
  qed
qed

lemma start_completes:
  assumes "start_log h m fd l"
  shows "\<exists>r r1 r2. main_round_ok h (Start_Up r r1 r2) \<and> prefix l (main_events h (Start_Up r r1 r2))"
proof (cases "m = M_Socket")
  case True
  then show ?thesis using assms by (intro exI [of _ hung_up]) (simp add: reply_ok_def hung_up_def)
next
  case False
  then obtain r r1 r2 n where "main_round_ok h (Start_Up r r1 r2)" "l = take n (main_events h (Start_Up r r1 r2))"
    using assms by (cases m; simp del: main_events.simps main_round_ok.simps; blast)
  then show ?thesis using take_is_prefix by blast
qed

lemma accept_completes:
  assumes "accept_log m pc ss l"
  shows "\<exists>rd. main_round_ok h rd \<and> accepts_on ss rd \<and> prefix l (main_events h rd)"
proof -
  have queued: "\<exists>rd. main_round_ok h rd \<and> accepts_on ss rd \<and> prefix l (main_events h rd)"
    if "prefix l (connected ss r @ [Pool (Pushed 0 (ret r))])" for r
    using prefix_prefix [OF that, of "[Pool (Returned 0 True)]"] by (intro exI [of _ "Queued ss r"]) simp
  have turned: "\<exists>rd. main_round_ok h rd \<and> accepts_on ss rd \<and> prefix l (main_events h rd)"
    if "reply_ok (SysSend (ret r) (bytes_of_string ''Server busy. Try later'')) r1"
      "prefix l (connected ss r @ [Pool (Returned 0 False),
        Io None (Sys (SysSend (ret r) (bytes_of_string ''Server busy. Try later'')) r1)])" for r r1
    using prefix_prefix [OF that(2), of "[Io None (Sys (SysClose (ret r)) hung_up)]"] that(1)
    by (intro exI [of _ "Turned_Away ss r r1 hung_up"]) simp
  show ?thesis
  proof (cases m)
    case (M_Connected fd)
    then obtain r where "l = [Io None (Sys (SysAccept ss) r)]" using assms by auto
    then show ?thesis by (intro queued [of r]) (simp add: connected_def)
  next
    case (M_Enqueue fd)
    then obtain r where "l = connected ss r" using assms by (auto simp: taken_in_def)
    then show ?thesis by (intro queued [of r]) simp
  next
    case (M_Answer fd)
    then obtain r where "l = connected ss r \<or> l = connected ss r @ [Pool (Pushed 0 (ret r))]"
      using assms by (auto simp: taken_in_def split: if_splits)
    then show ?thesis by (intro queued [of r]) auto
  next
    case (M_Busy fd)
    then obtain r where "l = connected ss r @ [Pool (Returned 0 False)]" using assms by (auto simp: taken_in_def)
    then show ?thesis by (intro turned [of r hung_up]) (simp_all add: hung_up_ok)
  next
    case (M_Close fd)
    then obtain r r1 where "reply_ok (SysSend (ret r) (bytes_of_string ''Server busy. Try later'')) r1"
      "l = connected ss r @ [Pool (Returned 0 False),
        Io None (Sys (SysSend (ret r) (bytes_of_string ''Server busy. Try later'')) r1)]"
      using assms by (auto simp: taken_in_def)
    then show ?thesis by (intro turned [of r r1]) simp_all
  qed (use assms in \<open>auto intro!: exI [of _ "Queued ss hung_up"]\<close>)
qed

lemma main_completes:
  assumes o: "main_rounds_ok h rds" and p: "main_part h rds s l"
  shows "\<exists>rd. main_rounds_ok h (rds @ [rd]) \<and> prefix l (main_events h rd)"
proof (cases "rds = []")
  case True
  then obtain r r1 r2 where "main_round_ok h (Start_Up r r1 r2)" "prefix l (main_events h (Start_Up r r1 r2))"
    using p start_completes by (fastforce simp: main_part_def)
  then show ?thesis unfolding True by (intro exI [of _ "Start_Up r r1 r2"]) simp
next
  case False
  then obtain r r1 r2 turns where rds: "rds = Start_Up r r1 r2 # turns"
    and l: "accept_log (ps_main s) (tp_callers (ps_pool s) ! 0) (ret r) l"
    using p by (auto simp: main_part_def)
  from accept_completes [OF l] another_turn [OF o rds] show ?thesis by blast
qed

interpretation main_rounds: event_rounds "server_act h" "\<lambda>s. s = PoolServer" by_main "main_events h"
    "main_rounds_ok h" "main_part h" for h
proof
  fix s assume "s = PoolServer"
  then show "main_rounds_ok h [] \<and> main_part h [] s []"
    by (simp add: main_part_def PoolServer_def ThreadPool_def pool_server_inv_def)
qed (use main_act main_completes in \<open>unfold main_goes_on_def, blast+\<close>)

text \<open>
  C10. The main thread runs \<open>main\<close>. Whatever the schedule of the workers and whatever the kernel
  answers, what main did so far is a beginning of: open a socket, bind it to port 8080 of every
  interface, listen, announce it; then connection after connection, accepted on that socket and
  announced, either pushed into the queue as that very descriptor with the answer true, or, with the
  answer false and no push, told that the server is busy and closed.
\<close>

theorem main_runs_sequentially:
  assumes "run (server_act h) PoolServer es s"
  shows "\<exists>rounds. main_rounds_ok h rounds \<and> prefix (filter by_main es) (concat (map (main_events h) rounds))"
  using main_rounds.rounds_run [OF assms refl] .

section \<open>Witnesses\<close>

theorem worker_runs_sequentially_witness:
  "\<exists>es s rounds. run (server_act Little) PoolServer es s \<and> length (filter (by_worker 0) es) = 12 \<and>
     list_all round_ok rounds \<and> prefix (filter (by_worker 0) es) (concat (map (round_events 0) rounds))"
proof -
  have "case run_schedule (server_act Little) answered_schedule PoolServer of None \<Rightarrow> False
    | Some (es, s) \<Rightarrow> length (filter (by_worker 0) es) = 12"
    by code_simp
  then obtain es s where r: "run (server_act Little) PoolServer es s" "length (filter (by_worker 0) es) = 12"
    by (rule server_run_witness)
  with worker_runs_sequentially [OF r(1), of 0] show ?thesis by blast
qed

theorem main_runs_sequentially_witness:
  "\<exists>es s rounds. run (server_act Little) PoolServer es s \<and> length (filter by_main es) = 8 \<and>
     main_rounds_ok Little rounds \<and> prefix (filter by_main es) (concat (map (main_events Little) rounds))"
proof -
  have "case run_schedule (server_act Little) (served_schedule 4) PoolServer of None \<Rightarrow> False
    | Some (es, s) \<Rightarrow> length (filter by_main es) = 8"
    by code_simp
  then obtain es s where r: "run (server_act Little) PoolServer es s" "length (filter by_main es) = 8"
    by (rule server_run_witness)
  with main_runs_sequentially [OF r(1)] show ?thesis by blast
qed

end
