(* ===== verification/Pool_Exchange.thy ===== *)
theory Pool_Exchange
  imports Pool_Sessions Pool_Clients
begin

text \<open>
  The thread-pool server and its second client together: what a worker sends on a socket answers what
  it has just read from that socket, and a client that is given those bytes prints the response.
\<close>

section \<open>Every answer follows its request\<close>

text \<open>Every \<open>send\<close> in the log \<open>l\<close> of worker \<open>i\<close> answers the request read and numbered just before it.\<close>

definition answers_requests :: "nat \<Rightarrow> server_event list \<Rightarrow> bool" where
  "answers_requests i l \<longleftrightarrow>
     (\<forall>l1 l2 fd bs r'. l = l1 @ Io (Some i) (Sys (SysSend fd bs) r') # l2 \<longrightarrow>
       (\<exists>l0 r n. bs = answer n \<and> read_ok fd r \<and> l1 = l0 @ request_read i fd r n))"

lemma answers_requests_append:
  assumes "answers_requests i l" "answers_requests i m"
  shows "answers_requests i (l @ m)"
  unfolding answers_requests_def
proof (intro allI impI)
  fix l1 l2 fd bs r' assume "l @ m = l1 @ Io (Some i) (Sys (SysSend fd bs) r') # l2"
  then obtain us where "l = l1 @ us \<and> us @ m = Io (Some i) (Sys (SysSend fd bs) r') # l2 \<or>
      l1 = l @ us \<and> m = us @ Io (Some i) (Sys (SysSend fd bs) r') # l2"
    unfolding append_eq_append_conv2 by auto
  then consider l3 where "l = l1 @ Io (Some i) (Sys (SysSend fd bs) r') # l3"
    | m1 where "l1 = l @ m1" "m = m1 @ Io (Some i) (Sys (SysSend fd bs) r') # l2"
    by (cases us) auto
  then show "\<exists>l0 r n. bs = answer n \<and> read_ok fd r \<and> l1 = l0 @ request_read i fd r n"
  proof cases
    case 1
    then show ?thesis using assms(1) unfolding answers_requests_def by blast
  next
    case 2
    then show ?thesis using assms(2) unfolding answers_requests_def by (metis append_assoc)
  qed
qed

lemma answers_requests_silent:
  "(\<And>fd bs r'. Io (Some i) (Sys (SysSend fd bs) r') \<notin> set l) \<Longrightarrow> answers_requests i l"
  unfolding answers_requests_def by (metis in_set_conv_decomp)

lemma answers_requests_served: "request_ok fd q \<Longrightarrow> answers_requests i (request_served i fd q)"
proof (cases q)
  case (fields r n r')
  assume "request_ok fd q"
  then have ok: "read_ok fd r" by (simp add: fields)
  show ?thesis unfolding answers_requests_def
  proof (intro allI impI)
    fix l1 l2 fd' bs r0 assume s: "request_served i fd q = l1 @ Io (Some i) (Sys (SysSend fd' bs) r0) # l2"
    have "Io (Some i) (Sys (SysSend fd' bs) r0) \<notin> set (request_read i fd r n)"
      by (auto simp: request_read_def)
    with s have "l2 = [] \<and> l1 = request_read i fd r n \<and> fd' = fd \<and> bs = answer n"
      by (cases l2 rule: rev_cases) (auto simp: fields append_eq_append_conv2 Cons_eq_append_conv)
    then show "\<exists>l0 r n. bs = answer n \<and> read_ok fd' r \<and> l1 = l0 @ request_read i fd' r n" using ok by force
  qed
qed

lemma answers_requests_rounds:
  assumes "list_all round_ok rounds"
  shows "answers_requests i (concat (map (round_events i) rounds))"
proof -
  have reqs: "answers_requests i (requests_events i fd reqs)" if "list_all (request_ok fd) reqs" for fd reqs
    using that
    by (induction reqs) (simp_all add: requests_events_def answers_requests_append answers_requests_served
        answers_requests_silent)
  have "answers_requests i (round_events i rd)" if "round_ok rd" for rd
    unfolding round_events_def using that
    by (intro answers_requests_append reqs) (auto simp: round_ok_def picked_def goodbye_def intro!: answers_requests_silent)
  then show ?thesis using assms
    by (induction rounds) (simp_all add: answers_requests_append answers_requests_silent)
qed

lemma answer_after_request:
  assumes "run (server_act h) PoolServer es s" "Io (Some i) (Sys (SysSend fd bs) r') \<in> set es"
  shows "\<exists>r n. bs = answer n \<and> read_ok fd r \<and> sublist (request_read i fd r n) (filter (by_worker i) es)"
proof -
  from worker_rounds.rounds_run [OF assms(1) refl] obtain rounds where "list_all round_ok rounds"
    "prefix (filter (by_worker i) es) (concat (map (round_events i) rounds))" by blast
  moreover from assms(2) have "Io (Some i) (Sys (SysSend fd bs) r') \<in> set (filter (by_worker i) es)" by simp
  then obtain l1 l2 where l: "filter (by_worker i) es = l1 @ Io (Some i) (Sys (SysSend fd bs) r') # l2"
    by (meson split_list)
  ultimately obtain r n l0 where "bs = answer n" "read_ok fd r" "l1 = l0 @ request_read i fd r n"
    using answers_requests_rounds unfolding answers_requests_def prefix_def by (metis append_Cons append_assoc)
  then show ?thesis using l by (metis append_assoc sublist_appendI)
qed

section \<open>The client's side\<close>

text \<open>After finitely many interruptions, \<open>recv\<close> answers \<open>got\<close>.\<close>

inductive replies_with :: "'w platform \<Rightarrow> int \<Rightarrow> reply \<Rightarrow> 'w \<Rightarrow> bool" for P fd got where
  replies_with_now: "replies_with P fd got k"
    if "serve P (SysRecv fd 1024) k = (got, k')" "ret got \<noteq> -1"
| replies_with_interrupted: "replies_with P fd got k"
    if "serve P (SysRecv fd 1024) k = (r, k')" "ret r = -1" "err_EINTR r" "replies_with P fd got k'"

lemma v2_receive_got:
  assumes "replies_with P sock got k" "kernel w = k"
  shows "\<exists>w'. v2_receive P sock w = Some (0, got, w')"
  using assms
proof (induction arbitrary: w)
  case (replies_with_now k k')
  then show ?case by (subst v2_receive.simps) (simp add: syscall_serve)
next
  case (replies_with_interrupted k r k')
  let ?w1 = "\<lparr>kernel = k', log = log w @ [Sys (SysRecv sock 1024) r]\<rparr>"
  from replies_with_interrupted.IH [of ?w1] show ?case
    using replies_with_interrupted.hyps(1-3) replies_with_interrupted.prems
    by (subst v2_receive.simps) (simp add: syscall_serve)
qed

lemma v2_finish_prints:
  assumes "0 < ret got"
  shows "\<exists>w' es. v2_finish P sock got w = (0, w') \<and>
    log w' = log w @ [Out ''Server Response: '', Out (string_of_bytes (take (nat (ret got)) (stored got))), Out endl] @ es"
proof -
  define w1 where "w1 = cout endl (cout (string_of_bytes (take (nat (ret got)) (stored got)))
    (cout ''Server Response: '' w))"
  obtain r w2 where c: "syscall P (SysClose sock) w1 = (r, w2)" by force
  have "v2_finish P sock got w =
      (0, if ret r = -1 then cerr (''close() failed: '' @ err_text r @ endl) w2 else w2)"
    using assms c by (simp add: v2_finish_def w1_def Let_def)
  moreover have "log w2 = log w @ [Out ''Server Response: '',
      Out (string_of_bytes (take (nat (ret got)) (stored got))), Out endl, Sys (SysClose sock) r]"
    by (simp add: syscall_log [OF c] w1_def kernel_simps)
  ultimately show ?thesis by (cases "ret r = -1") (auto simp: kernel_simps)
qed

lemma v2_client_prints:
  assumes "syscall P SysSocket w = (r, w1)" "ret r \<noteq> -1" "inet_pton P ''127.0.0.1'' = Some addr"
    "syscall P (SysConnect (ret r) \<lparr>sin_addr = addr, sin_port = htons (native P) 8080\<rparr>) w1 = (r2, w2)"
    "ret r2 \<noteq> -1" "takes P (ret r) v2_message (kernel w2) k" "replies_with P (ret r) got k" "0 < ret got"
  shows "\<exists>w' es es'. v2_client P w = Some (0, w') \<and>
    log w' = es @ [Out ''Server Response: '', Out (string_of_bytes (take (nat (ret got)) (stored got))), Out endl] @ es'"
proof -
  define w3 where "w3 = cout (''Connected to server.'' @ endl) w2"
  have "kernel w3 = kernel w2" by (simp add: w3_def kernel_simps)
  with v2_send_returns [OF assms(6) this, of 0 v2_message] obtain w4
    where s: "v2_send P (ret r) v2_message 0 w3 = Some (0, w4)" "kernel w4 = k" by auto
  define w5 where "w5 = cout (''Sent '' @ to_string (int (length v2_message)) @ '' bytes.'' @ endl) w4"
  have "kernel w5 = k" by (simp add: w5_def kernel_simps s(2))
  from v2_receive_got [OF assms(7) this] obtain w6
    where q: "v2_receive P (ret r) w5 = Some (0, got, w6)" by blast
  from v2_finish_prints [OF assms(8), of P "ret r" w6] obtain w7 es' where f: "v2_finish P (ret r) got w6 = (0, w7)"
    "log w7 = log w6 @ [Out ''Server Response: '', Out (string_of_bytes (take (nat (ret got)) (stored got))), Out endl] @ es'"
    by blast
  have "v2_exchange P (ret r) w3 = Some (0, w7)"
    unfolding v2_exchange_def s(1) option.case prod.case Let_def w5_def [symmetric] q using f(1) by simp
  moreover have "v2_client P w = v2_exchange P (ret r) w3"
    unfolding v2_client_def assms(1) prod.case Let_def assms(3,4) option.case w3_def using assms(2,5) by simp
  ultimately show ?thesis using f(2) by auto
qed

text \<open>
  C11. One exchange of the thread-pool system. Let worker \<open>i\<close> of the server have sent \<open>bs\<close> on a socket, in
  any run, and let the second client connect, get its message out in any pieces and with any finite
  number of interruptions, and be given \<open>bs\<close> by its \<open>recv\<close> after any finite number of interruptions.
  Then the worker sent \<open>bs\<close> for a request it had read from that same socket and numbered \<open>n\<close> just
  before, and the client ends with exit code 0 and prints "Request #n processed successfully".
\<close>

theorem pool_exchange:
  assumes "run (server_act h) PoolServer es s" "Io (Some i) (Sys (SysSend fd bs) r') \<in> set es"
    "syscall P SysSocket w = (r, w1)" "ret r \<noteq> -1" "inet_pton P ''127.0.0.1'' = Some addr"
    "syscall P (SysConnect (ret r) \<lparr>sin_addr = addr, sin_port = htons (native P) 8080\<rparr>) w1 = (r2, w2)"
    "ret r2 \<noteq> -1" "takes P (ret r) v2_message (kernel w2) k"
    "replies_with P (ret r) got k" "ret got = int (length bs)" "stored got = bs"
  shows "\<exists>q n w' es1 es2. read_ok fd q \<and> sublist (request_read i fd q n) (filter (by_worker i) es) \<and>
    v2_client P w = Some (0, w') \<and>
    log w' = es1 @ [Out ''Server Response: '',
      Out (''Request #'' @ to_string n @ '' processed successfully''), Out endl] @ es2"
proof -
  from answer_after_request [OF assms(1,2)] obtain q n where q: "bs = answer n" "read_ok fd q"
    "sublist (request_read i fd q n) (filter (by_worker i) es)" by blast
  have b: "string_of_bytes bs = ''Request #'' @ to_string n @ '' processed successfully''"
    by (simp add: q(1) answer_def response_text_def)
  then have "0 < length bs" by (cases bs) (auto simp: string_of_bytes_def)
  then have "0 < ret got" using assms(10) by simp
  from v2_client_prints [OF assms(3-9) this] show ?thesis
    using q(2,3) assms(10,11) b by fastforce
qed

section \<open>Witness\<close>

text \<open>The event is the first answer of the server, sent on descriptor 4.\<close>

fun first_answer :: "server_event \<Rightarrow> bool" where
  "first_answer (Io (Some 0) (Sys (SysSend fd bs) r)) \<longleftrightarrow> fd = 4 \<and> bs = answer 1"
| "first_answer _ \<longleftrightarrow> False"

lemma first_answer_sent: "first_answer e \<Longrightarrow> \<exists>r. e = Io (Some 0) (Sys (SysSend 4 (answer 1)) r)"
  by (cases e rule: first_answer.cases) auto

theorem pool_exchange_witness:
  "\<exists>es s n w' es1 es2. run (server_act Little) PoolServer es s \<and>
     v2_client (sim_platform Little) (sim_world [3, 0] [answer 1] 5 []) = Some (0, w') \<and>
     log w' = es1 @ [Out ''Server Response: '',
       Out (''Request #'' @ to_string n @ '' processed successfully''), Out endl] @ es2"
proof -
  let ?P = "sim_platform Little" and ?w = "sim_world [3, 0] [answer 1] 5 []"
  let ?k = "\<lparr>rets = [], inbox = [answer 1], window = 5, signals = []\<rparr>"
  have "case run_schedule (server_act Little) answered_schedule PoolServer of None \<Rightarrow> False
    | Some (es, s) \<Rightarrow> list_ex first_answer es"
    by code_simp
  then obtain es s where run: "run (server_act Little) PoolServer es s" and "list_ex first_answer es"
    by (rule server_run_witness)
  then obtain r' where sent: "Io (Some 0) (Sys (SysSend 4 (answer 1)) r') \<in> set es"
    by (auto simp: list_ex_iff dest: first_answer_sent)
  obtain r w1 where s: "syscall ?P SysSocket ?w = (r, w1)" by force
  then have w1: "r = sim_reply Little 3 []" "kernel w1 = ?k\<lparr>rets := [0]\<rparr>"
    by (auto simp: syscall_def sim_platform_def sim_world_def)
  define addr where "addr = (0x0100007F :: u32)"
  obtain r2 w2 where c: "syscall ?P
      (SysConnect (ret r) \<lparr>sin_addr = addr, sin_port = htons (native ?P) 8080\<rparr>) w1 = (r2, w2)"
    by force
  then have w2: "r2 = sim_reply Little 0 []" "kernel w2 = ?k"
    using w1(2) by (auto simp: syscall_def sim_platform_def)
  have t: "takes ?P (ret r) v2_message (kernel w2) ?k"
    using sim_takes [of 5 Little _ _ ?k] w2 by simp
  have l: "length (answer 1) = 33" by code_simp
  then have "answer 1 \<noteq> []" by auto
  with l have q: "replies_with ?P (ret r) (sim_reply Little (int (length (answer 1))) (answer 1)) ?k"
    by (intro replies_with_now) (auto simp: sim_platform_def sim_recv_def)
  have a: "inet_pton ?P ''127.0.0.1'' = Some addr"
    by (simp add: sim_platform_def sim_inet_pton_def addr_def)
  have "ret r \<noteq> -1" "ret r2 \<noteq> -1" using w1(1) w2(1) by simp_all
  from pool_exchange [OF run sent s this(1) a c this(2) t q] run show ?thesis by (simp, blast)
qed

end
