(* ===== verification/Exit_Status.thy ===== *)
theory Exit_Status
  imports Transports
begin

text \<open>
  The exit discipline that the test clients under \<open>apps/\<close> share: a program closes every descriptor it
  holds, and exits with 1 exactly when it wrote to \<open>std::cerr\<close>. \<open>ends d R w x\<close> says so of the rest of a
  run that starts in the world \<open>w\<close> holding \<open>R\<close> and ends with the exit code and world \<open>x\<close>; \<open>d\<close> tells
  whether a diagnostic was written before. \<open>tests d R w x\<close> is the same for a function that returns
  \<open>false\<close> for a failure. The rules of the collection \<open>exit_rules\<close> follow the syntax of the programs,
  one rule for each kind of statement.
\<close>

named_theorems exit_rules \<open>the exit discipline, statement by statement\<close>

definition runs :: "(bool \<Rightarrow> 'r) \<Rightarrow> bool \<Rightarrow> int multiset \<Rightarrow> 'w world \<Rightarrow> 'r \<times> 'w world \<Rightarrow> bool" where
  "runs v d R w x \<longleftrightarrow> transfers R w {#} (snd x) \<and>
     (\<exists>ds. diagnostics (log (snd x)) = diagnostics (log w) @ ds \<and> fst x = v (d \<or> ds \<noteq> []))"

definition exit_code :: "bool \<Rightarrow> int" where
  "exit_code failed = (if failed then 1 else 0)"

abbreviation ends :: "bool \<Rightarrow> int multiset \<Rightarrow> 'w world \<Rightarrow> int \<times> 'w world \<Rightarrow> bool" where
  "ends \<equiv> runs exit_code"

abbreviation tests :: "bool \<Rightarrow> int multiset \<Rightarrow> 'w world \<Rightarrow> bool \<times> 'w world \<Rightarrow> bool" where
  "tests \<equiv> runs Not"

lemma ends_after:
  assumes "runs v d R' w1 x" "transfers R w R' w1" "diagnostics (log w1) = diagnostics (log w)"
  shows "runs v d R w x"
  using assms transfers_trans unfolding runs_def by fastforce

lemma ends_reported:
  assumes "runs v True R' w1 x" "transfers R w R' w1" "diagnostics (log w1) = diagnostics (log w) @ [s]"
  shows "runs v d R w x"
  using assms transfers_trans unfolding runs_def by fastforce

lemma ends_exit [exit_rules]:
  "ends True {#} w (1, w)" "ends False {#} w (0, w)" "tests True {#} w (False, w)" "tests False {#} w (True, w)"
  by (simp_all add: runs_def exit_code_def)

lemma ends_cout [exit_rules]:
  "runs v d R (cout s w) (f (cout s w)) \<Longrightarrow> runs v d R w (let v = cout s w in f v)"
  unfolding Let_def by (erule ends_after) auto

lemma ends_cerr [exit_rules]:
  "runs v True R (cerr s w) (f (cerr s w)) \<Longrightarrow> runs v d R w (let v = cerr s w in f v)"
  unfolding Let_def by (erule ends_reported) auto

lemma ends_if [exit_rules]:
  "(b \<Longrightarrow> runs v d R w x) \<Longrightarrow> (\<not> b \<Longrightarrow> runs v d R w y) \<Longrightarrow> runs v d R w (if b then x else y)"
  by simp

text \<open>A system call, with the descriptors held after it.\<close>

lemma ends_syscall:
  assumes "\<And>r w1. syscall P c w = (r, w1) \<Longrightarrow> fd_step (Sys c r) R = Some (R' r) \<and> runs v d (R' r) w1 (f r w1)"
  shows "runs v d R w (case syscall P c w of (r, w1) \<Rightarrow> f r w1)"
proof -
  obtain r w1 where s: "syscall P c w = (r, w1)" by force
  show ?thesis
    using assms [OF s] ends_after syscall_transfers [OF s] syscall_diagnostics [OF s] unfolding s prod.case
    by blast
qed

text \<open>Which descriptors are held: rules that find one in a list.\<close>

lemma finds_descriptor [exit_rules]:
  "fd \<in># add_mset fd F" "fd \<in># F \<Longrightarrow> fd \<in># add_mset fd' F"
  "add_mset fd F = add_mset fd F" "F = add_mset fd F' \<Longrightarrow> add_mset fd' F = add_mset fd (add_mset fd' F')"
  "fd \<in># F \<Longrightarrow> fd \<in># A + F" "F = add_mset fd F' \<Longrightarrow> A + F = add_mset fd (A + F')"
  by auto

text \<open>Which owners' descriptors are held.\<close>

lemma finds_owner [exit_rules]:
  "(A :: int multiset) + F = A + F" "F = A + F' \<Longrightarrow> add_mset fd F = A + add_mset fd F'"
  "F = A + F' \<Longrightarrow> B + F = A + (B + F')"
  by (simp_all add: add.left_commute)

lemma ends_on [exit_rules]:
  assumes "fd \<in># R" "\<And>r w1. runs v d R w1 (f r w1)"
  shows "runs v d R w (case syscall P (SysConnect fd a) w of (r, w1) \<Rightarrow> f r w1)"
    "runs v d R w (case syscall P (SysSend fd bs) w of (r, w1) \<Rightarrow> f r w1)"
    "runs v d R w (case syscall P (SysRecv fd n) w of (r, w1) \<Rightarrow> f r w1)"
    "runs v d R w (case syscall P (SysSetLinger fd) w of (r, w1) \<Rightarrow> f r w1)"
    "runs v d R w (case syscall P (SysSetReuseAddr fd) w of (r, w1) \<Rightarrow> f r w1)"
    "runs v d R w (case syscall P (SysBind fd a) w of (r, w1) \<Rightarrow> f r w1)"
    "runs v d R w (case syscall P (SysListen fd b) w of (r, w1) \<Rightarrow> f r w1)"
    "runs v d R w (case syscall P (SysGetsockname fd) w of (r, w1) \<Rightarrow> f r w1)"
    "runs v d R w (case syscall P (SysShutdown fd) w of (r, w1) \<Rightarrow> f r w1)"
  using assms by (intro ends_syscall [where R' = "\<lambda>_. R"]; simp)+

lemma ends_no_descriptor [exit_rules]:
  assumes "\<And>r w1. runs v d R w1 (f r w1)"
  shows "runs v d R w (case syscall P ReadStdin w of (r, w1) \<Rightarrow> f r w1)"
    "runs v d R w (case syscall P SysIgnoreSigpipe w of (r, w1) \<Rightarrow> f r w1)"
  using assms by (intro ends_syscall [where R' = "\<lambda>_. R"]; simp)+

lemma ends_close [exit_rules]:
  assumes "R = add_mset fd F" "\<And>r w1. runs v d F w1 (f r w1)"
  shows "runs v d R w (case syscall P (SysClose fd) w of (r, w1) \<Rightarrow> f r w1)"
  using assms by (intro ends_syscall [where R' = "\<lambda>_. F"]) simp

lemma ends_socket:
  assumes "kernel_ok P"
    "\<And>r w1. ret r < 0 \<Longrightarrow> runs v d R w1 (f r w1)"
    "\<And>r w1. 0 \<le> ret r \<Longrightarrow> runs v d (add_mset (ret r) R) w1 (f r w1)"
  shows "runs v d R w (case syscall P SysSocket w of (r, w1) \<Rightarrow> f r w1)"
proof (rule ends_syscall [where R' = "\<lambda>r. if ret r < 0 then R else add_mset (ret r) R"])
  fix r w1 assume "syscall P SysSocket w = (r, w1)"
  then have "-1 \<le> ret r" using syscall_ok [OF assms(1)] by (fastforce simp: reply_ok_def)
  then show "fd_step (Sys SysSocket r) R = Some (if ret r < 0 then R else add_mset (ret r) R) \<and>
      runs v d (if ret r < 0 then R else add_mset (ret r) R) w1 (f r w1)"
    using assms(2,3) by simp
qed

lemma ends_socket_checked [exit_rules]:
  assumes "kernel_ok P"
    "\<And>r w1. runs v d R w1 (f (ret r) r w1)"
    "\<And>r w1. 0 \<le> ret r \<Longrightarrow> runs v d (add_mset (ret r) R) w1 (g (ret r) r w1)"
  shows "runs v d R w (case syscall P SysSocket w of (r, w1) \<Rightarrow>
    let fd = ret r in if fd < 0 then f fd r w1 else g fd r w1)"
  by (rule ends_socket [OF assms(1)]) (use assms(2,3) in simp_all)

lemma ends_accept:
  assumes "fd \<in># R"
    "\<And>r w1. ret r < 0 \<Longrightarrow> runs v d R w1 (f r w1)"
    "\<And>r w1. 0 \<le> ret r \<Longrightarrow> runs v d (add_mset (ret r) R) w1 (f r w1)"
  shows "runs v d R w (case syscall P (SysAccept fd) w of (r, w1) \<Rightarrow> f r w1)"
  using assms
  by (intro ends_syscall [where R' = "\<lambda>r. if ret r < 0 then R else add_mset (ret r) R"]) auto

lemma ends_accept_checked [exit_rules]:
  assumes "fd \<in># R"
    "\<And>r w1. runs v d R w1 (f (ret r) r w1)"
    "\<And>r w1. 0 \<le> ret r \<Longrightarrow> runs v d (add_mset (ret r) R) w1 (g (ret r) r w1)"
  shows "runs v d R w (case syscall P (SysAccept fd) w of (r, w1) \<Rightarrow>
    let peer = ret r in if peer < 0 then f peer r w1 else g peer r w1)"
  by (rule ends_accept [OF assms(1)]) (use assms(2,3) in simp_all)

text \<open>The call of a test function that holds nothing when it returns.\<close>

lemma ends_test:
  assumes "tests False {#} w x" "\<And>w1. runs v True R w1 (f w1)" "\<And>w1. runs v d R w1 (g w1)"
  shows "runs v d R w (case x of (ok, w1) \<Rightarrow> if \<not> ok then f w1 else g w1)"
proof -
  obtain ok w1 where x: "x = (ok, w1)" by force
  with assms(1) obtain ds where t: "transfers {#} w {#} w1" "diagnostics (log w1) = diagnostics (log w) @ ds"
    "ok \<longleftrightarrow> ds = []" by (auto simp: runs_def)
  have "transfers R w R w1" using transfers_frame [OF t(1), of R] by simp
  note after = transfers_trans [OF this]
  show ?thesis
  proof (cases ok)
    case True
    then show ?thesis using assms(3) [of w1] t after by (auto simp: x runs_def)
  next
    case False
    then show ?thesis using assms(2) [of w1] t after by (auto simp: x runs_def)
  qed
qed

section \<open>Owners of descriptors\<close>

text \<open>A resource whose release writes no diagnostic.\<close>

locale quiet_resource = owned_resource +
  assumes release_quiet: "diagnostics (log (snd (release P r w))) = diagnostics (log w)"
begin

lemma ends_release [exit_rules]:
  assumes "inv r" "R = owned r + F" "\<And>w1. runs v d F w1 (f fresh w1)"
  shows "runs v d R w (case release P r w of (r1, w1) \<Rightarrow> f r1 w1)"
proof -
  have "transfers R w F (snd (release P r w))"
    using transfers_frame [OF release_transfers [OF assms(1), of w P], of F] assms(2) by simp
  from ends_after [OF assms(3) this release_quiet] show ?thesis
    using release_fresh [OF assms(1), of P w] by (cases "release P r w") simp
qed

lemma ends_released:
  assumes "inv r"
  shows "ends True (owned r) w (1, snd (release P r w))" "ends False (owned r) w (0, snd (release P r w))"
    "tests True (owned r) w (False, snd (release P r w))" "tests False (owned r) w (True, snd (release P r w))"
  by (rule ends_after [OF ends_exit(1) release_transfers [OF assms] release_quiet]
      ends_after [OF ends_exit(2) release_transfers [OF assms] release_quiet]
      ends_after [OF ends_exit(3) release_transfers [OF assms] release_quiet]
      ends_after [OF ends_exit(4) release_transfers [OF assms] release_quiet])+

lemmas fresh_rules [exit_rules] = fresh_inv

lemma fresh_held [exit_rules]: "F = owned fresh + F"
  by (simp add: owned_fresh)

end

interpretation quiet_conn: quiet_resource connection_owned connection_inv Connection connection_disconnect
  by unfold_locales simp

interpretation quiet_trans: quiet_resource transport_owned transport_inv Transport transport_disconnect
  by unfold_locales simp

lemma ends_connection_connect [exit_rules]:
  assumes "connection_inv c" "R = connection_owned c + F"
    "\<And>e c1 w1. connection_inv c1 \<Longrightarrow> runs v d (connection_owned c1 + F) w1 (f e c1 w1)"
  shows "runs v d R w (case connection_connect P c host port w of (e, c1, w1) \<Rightarrow> f e c1 w1)"
proof -
  obtain e c1 w1 where s: "connection_connect P c host port w = (e, c1, w1)" by (metis prod_cases3)
  from ends_after [OF assms(3) _ connection_connect_diagnostics [OF s]] show ?thesis
    using connection_connect_inv [OF assms(1) s] transfers_frame [OF connection_connect_transfers [OF s]]
    by (simp add: s assms(2))
qed

lemma connection_handle_held [exit_rules]:
  "connection_inv c \<Longrightarrow> \<not> \<not> connection_isConnected c \<Longrightarrow>
    socket_nativeHandle (conn_socket c) \<in># connection_owned c + F"
  by (simp add: connection_defs socket_owned_def socket_nativeHandle_def)

lemma transport_handle_held [exit_rules]:
  "transport_inv t \<Longrightarrow> transport_isConnected t \<Longrightarrow> transport_handle t \<in># transport_owned t + F"
  by (simp add: transport_handle_owned)

lemma ends_transport_of_connection [exit_rules]:
  assumes "connection_inv c" "R = connection_owned c + F"
    "\<And>t. transport_inv t \<Longrightarrow> runs v d (transport_owned t + F) w (f t Connection)"
  shows "runs v d R w (case transport_of_connection c of (t, rest) \<Rightarrow> f t rest)"
  using assms(1,2) assms(3) [of "\<lparr>tr_connection = c\<rparr>"]
  by (simp add: transport_of_connection_eq transport_inv_def transport_owned_def)

lemma ends_transport_send_any:
  assumes "transport_inv t" "R = transport_owned t + F" "\<And>e w1. runs v d R w1 (f e w1)"
  shows "runs v d R w (case transport_send P t bs w of (e, w1) \<Rightarrow> f e w1)"
proof -
  obtain e w1 where s: "transport_send P t bs w = (e, w1)" by force
  from ends_after [OF assms(3)] show ?thesis
    using transport_send_frame [OF s] transfers_frame [OF transport_send_transfers [OF s assms(1)]]
    by (simp add: s assms(2))
qed

lemma ends_transport_send [exit_rules]:
  assumes "transport_inv t" "R = transport_owned t + F"
    "\<And>e w1. runs v d R w1 (f e w1)" "\<And>e w1. transport_isConnected t \<Longrightarrow> runs v d R w1 (g e w1)"
  shows "runs v d R w (case transport_send P t bs w of (e, w1) \<Rightarrow> if \<not> error_ok e then f e w1 else g e w1)"
proof -
  obtain e w1 where s: "transport_send P t bs w = (e, w1)" by force
  have keep: "transfers R w R w1" "diagnostics (log w1) = diagnostics (log w)"
    using transport_send_frame [OF s] transfers_frame [OF transport_send_transfers [OF s assms(1)]]
    by (simp_all add: assms(2))
  have "transport_isConnected t" if "error_ok e"
    using that s by (auto simp: transport_send_def transport_isConnected_def split: if_splits)
  then show ?thesis
    using ends_after [OF assms(3) keep] ends_after [OF assms(4) keep] s by simp
qed

lemma ends_option [exit_rules]:
  "(x = None \<Longrightarrow> runs v d R w a) \<Longrightarrow> (\<And>y. x = Some y \<Longrightarrow> runs v d R w (f y)) \<Longrightarrow>
    runs v d R w (case x of None \<Rightarrow> a | Some y \<Rightarrow> f y)"
  by (cases x) simp_all

lemma ends_sum [exit_rules]:
  "(\<And>y. runs v d R w (f y)) \<Longrightarrow> (\<And>y. runs v d R w (g y)) \<Longrightarrow>
    runs v d R w (case x of Inl y \<Rightarrow> f y | Inr y \<Rightarrow> g y)"
  by (cases x) simp_all

end
