(* ===== verification/Raw_Clients.thy ===== *)
theory Raw_Clients
  imports Exit_Status
begin

text \<open>
  The test clients under \<open>apps/\<close> that talk to the server on a bare socket, with a header written by
  hand: \<open>packetforge_protocol_error_client.cpp\<close> sends a header of an unsupported version and checks the
  error response, \<open>packetforge_dispatch_failure_client.cpp\<close> sends a header of an unknown opcode and
  checks the error response, \<open>packetforge_response_send_failure_client.cpp\<close> sends a complete request
  and resets the connection. \<open>main\<close> is one definition per phase, in the order of the source; a phase
  returns the exit code and the world.
\<close>

section \<open>The helpers\<close>

text \<open>
  \<open>sendAll\<close> and \<open>receiveAll\<close> are the same loops in each of the files, with different texts: the text
  before \<open>strerror\<close> and the one for a result of 0 are arguments.
\<close>

function sendAll ::
    "string \<Rightarrow> string \<Rightarrow> 'w platform \<Rightarrow> int \<Rightarrow> bytes \<Rightarrow> nat \<Rightarrow> 'w world \<Rightarrow> bool \<times> 'w world" where
  "sendAll failed zero P socketFd data totalSent w =
     (if totalSent < length data
      then (case syscall P (SysSend socketFd (drop totalSent data)) w of (result, w1) \<Rightarrow>
        if ret result < 0 then (False, cerr (failed @ err_text result @ endl) w1)
        else if ret result = 0 then (False, cerr (zero @ endl) w1)
        else sendAll failed zero P socketFd data (totalSent + nat (ret result)) w1)
      else (True, w))"
  by pat_completeness auto
termination
  by (relation "measure (\<lambda>(failed, zero, P, socketFd, data, totalSent, w). length data - totalSent)") auto

function receiveAll ::
    "string \<Rightarrow> 'w platform \<Rightarrow> int \<Rightarrow> bytes \<Rightarrow> nat \<Rightarrow> nat \<Rightarrow> 'w world \<Rightarrow> bool \<times> bytes \<times> 'w world" where
  "receiveAll closed P socketFd data len totalReceived w =
     (if totalReceived < len
      then (case syscall P (SysRecv socketFd (len - totalReceived)) w of (result, w1) \<Rightarrow>
        if ret result < 0 then (False, data, cerr (''recv() failed: '' @ err_text result @ endl) w1)
        else if ret result = 0 then (False, data, cerr (closed @ endl) w1)
        else receiveAll closed P socketFd (store_at totalReceived (stored result) data) len
          (totalReceived + nat (ret result)) w1)
      else (True, data, w))"
  by pat_completeness auto
termination
  by (relation "measure (\<lambda>(closed, P, socketFd, data, len, totalReceived, w). len - totalReceived)") auto

declare sendAll.simps [simp del] receiveAll.simps [simp del]

text \<open>Integers at an offset of a buffer, in network byte order.\<close>

definition writeUint16 :: "endianness \<Rightarrow> bytes \<Rightarrow> nat \<Rightarrow> u16 \<Rightarrow> bytes" where
  "writeUint16 h buffer offset value = store_at offset (store_native h (htons h value)) buffer"

definition writeUint32 :: "endianness \<Rightarrow> bytes \<Rightarrow> nat \<Rightarrow> u32 \<Rightarrow> bytes" where
  "writeUint32 h buffer offset value = store_at offset (store_native h (htonl h value)) buffer"

definition raw_readUint16 :: "endianness \<Rightarrow> bytes \<Rightarrow> nat \<Rightarrow> u16" where
  "raw_readUint16 h buffer offset = ntohs h (load_native h (take 2 (drop offset buffer)))"

definition raw_readUint32 :: "endianness \<Rightarrow> bytes \<Rightarrow> nat \<Rightarrow> u32" where
  "raw_readUint32 h buffer offset = ntohl h (load_native h (take 4 (drop offset buffer)))"

definition raw_MAGIC :: u32 where
  "raw_MAGIC = 0x50464B54"

definition raw_HEADER_SIZE :: nat where
  "raw_HEADER_SIZE = 16"

text \<open>\<open>::close(socketFd); return code;\<close>\<close>

definition close_and_return :: "'w platform \<Rightarrow> int \<Rightarrow> int \<Rightarrow> 'w world \<Rightarrow> int \<times> 'w world" where
  "close_and_return P fd code w = (case syscall P (SysClose fd) w of (_, w1) \<Rightarrow> (code, w1))"

text \<open>
  The connection of the first two clients; \<open>exchange\<close> is the rest of \<open>main\<close>, on the connected socket.
\<close>

definition open_connection ::
    "'w platform \<Rightarrow> (int \<Rightarrow> 'w world \<Rightarrow> int \<times> 'w world) \<Rightarrow> 'w world \<Rightarrow> int \<times> 'w world" where
  "open_connection P exchange w =
     (case syscall P SysSocket w of (r, w1) \<Rightarrow>
        let socketFd = ret r in
        if socketFd < 0
        then (let w2 = cerr (''Failed to create socket: '' @ err_text r @ endl) w1 in (1, w2))
        else (case inet_pton P ''127.0.0.1'' of
            None \<Rightarrow>
              (let w2 = cerr (''Failed to parse server address'' @ endl) w1
               in close_and_return P socketFd 1 w2)
          | Some addr \<Rightarrow>
              (let w2 = cout (''Connecting to 127.0.0.1:'' @ to_string 9090 @ ''...'' @ endl) w1 in
               case syscall P (SysConnect socketFd \<lparr>sin_addr = addr, sin_port = htons (native P) 9090\<rparr>) w2 of
                 (r3, w3) \<Rightarrow>
                   if ret r3 < 0
                   then (let w4 = cerr (''connect() failed: '' @ err_text r3 @ endl) w3
                         in close_and_return P socketFd 1 w4)
                   else exchange socketFd w3)))"

definition print_raw_response :: "endianness \<Rightarrow> string \<Rightarrow> bytes \<Rightarrow> 'w world \<Rightarrow> 'w world" where
  "print_raw_response h title responseHeader w =
     cout (endl @ title @ endl @
       ''  Magic: 0x'' @ to_hex (uint (raw_readUint32 h responseHeader 0)) @ endl @
       ''  Version: '' @ to_string (uint (responseHeader ! 4)) @ endl @
       ''  Flags: '' @ to_string (uint (responseHeader ! 5)) @ endl @
       ''  Opcode: '' @ to_string (uint (raw_readUint16 h responseHeader 6)) @ endl @
       ''  Sequence ID: '' @ to_string (uint (raw_readUint32 h responseHeader 8)) @ endl @
       ''  Payload length: '' @ to_string (uint (raw_readUint32 h responseHeader 12)) @ endl) w"

section \<open>The protocol error client\<close>

definition protocol_error_header :: "endianness \<Rightarrow> bytes" where
  "protocol_error_header h =
     (let header = replicate raw_HEADER_SIZE 0;
          header = writeUint32 h header 0 raw_MAGIC;
          header = header[4 := 99];
          header = header[5 := 0];
          header = writeUint16 h header 6 1;
          header = writeUint32 h header 8 1
      in writeUint32 h header 12 0)"

definition protocol_error_verdict ::
    "'w platform \<Rightarrow> int \<Rightarrow> bytes \<Rightarrow> u8 \<Rightarrow> 'w world \<Rightarrow> int \<times> 'w world" where
  "protocol_error_verdict P socketFd responseHeader responseErrorCode w =
     (let h = native P;
          passed = (raw_readUint32 h responseHeader 0 = raw_MAGIC \<and> responseHeader ! 4 = 1 \<and>
            raw_readUint16 h responseHeader 6 = 100 \<and> raw_readUint32 h responseHeader 8 = 0 \<and>
            raw_readUint32 h responseHeader 12 = 1 \<and> responseErrorCode = 3)
      in if passed
         then (let w1 = cout (endl @ ''GAP-018 unsupported-version test: PASS'' @ endl) w
               in close_and_return P socketFd 0 w1)
         else (let w1 = cerr (endl @ ''GAP-018 unsupported-version test: FAIL'' @ endl) w
               in close_and_return P socketFd 1 w1))"

definition protocol_error_payload ::
    "'w platform \<Rightarrow> int \<Rightarrow> bytes \<Rightarrow> 'w world \<Rightarrow> int \<times> 'w world" where
  "protocol_error_payload P socketFd responseHeader w =
     (if raw_readUint32 (native P) responseHeader 12 \<noteq> 1
      then (let w1 = cerr (''Unexpected protocol error payload length'' @ endl) w
            in close_and_return P socketFd 1 w1)
      else (case receiveAll ''Connection closed before complete response was received'' P socketFd [0] 1 0 w of
          (ok, code, w1) \<Rightarrow>
            if \<not> ok then close_and_return P socketFd 1 w1
            else (let w2 = cout (''  Protocol error code: '' @ to_string (uint (code ! 0)) @ endl) w1
                  in protocol_error_verdict P socketFd responseHeader (code ! 0) w2)))"

definition protocol_error_exchange :: "'w platform \<Rightarrow> int \<Rightarrow> 'w world \<Rightarrow> int \<times> 'w world" where
  "protocol_error_exchange P socketFd w =
     (let w1 = cout (''Connected successfully'' @ endl @
            ''Sending deliberately malformed protocol header...'' @ endl) w in
      case sendAll ''send() failed: '' ''send() returned 0 before the complete packet was sent'' P socketFd
          (protocol_error_header (native P)) 0 w1 of (ok, w2) \<Rightarrow>
        if \<not> ok then close_and_return P socketFd 1 w2
        else
          (let w3 = cout (''Malformed packet sent'' @ endl @ ''Invalid protocol version: '' @ to_string 99 @ endl @
                 ''Expected decoder result: UnsupportedVersion'' @ endl @
                 ''Expected server ErrorCode: ProtocolError'' @ endl @
                 ''Expected server exit code: 1'' @ endl) w2 in
           let w4 = cout (''Waiting for protocol error response...'' @ endl) w3 in
           case receiveAll ''Connection closed before complete response was received'' P socketFd
               (replicate raw_HEADER_SIZE 0) raw_HEADER_SIZE 0 w4 of (ok2, responseHeader, w5) \<Rightarrow>
             if \<not> ok2 then close_and_return P socketFd 1 w5
             else
               (let w6 = print_raw_response (native P) ''Protocol error response received'' responseHeader w5
                in protocol_error_payload P socketFd responseHeader w6)))"

definition protocol_error_client :: "'w platform \<Rightarrow> 'w world \<Rightarrow> int \<times> 'w world" where
  "protocol_error_client P w =
     (let w1 = cout (''PacketForge GAP-003.9.7 Protocol Error Client'' @ endl @
            ''----------------------------------------------'' @ endl) w
      in open_connection P (protocol_error_exchange P) w1)"

section \<open>The dispatcher failure client\<close>

definition dispatch_failure_header :: "endianness \<Rightarrow> bytes" where
  "dispatch_failure_header h =
     (let header = replicate raw_HEADER_SIZE 0;
          header = writeUint32 h header 0 raw_MAGIC;
          header = header[4 := 1];
          header = header[5 := 0];
          header = writeUint16 h header 6 0xFFFF;
          header = writeUint32 h header 8 1
      in writeUint32 h header 12 0)"

text \<open>\<open>sendAll\<close> and \<open>receiveAll\<close> of this file.\<close>

definition dispatch_failure_sendAll :: "'w platform \<Rightarrow> int \<Rightarrow> bytes \<Rightarrow> 'w world \<Rightarrow> bool \<times> 'w world" where
  "dispatch_failure_sendAll P socketFd data w =
     sendAll ''send() failed: '' ''send() returned 0 before the complete packet was sent'' P socketFd data 0 w"

definition dispatch_failure_receiveAll ::
    "'w platform \<Rightarrow> int \<Rightarrow> bytes \<Rightarrow> nat \<Rightarrow> 'w world \<Rightarrow> bool \<times> bytes \<times> 'w world" where
  "dispatch_failure_receiveAll P socketFd data len w =
     receiveAll ''recv() returned 0 before the complete response was received'' P socketFd data len 0 w"

lemmas dispatch_failure_loops = dispatch_failure_sendAll_def dispatch_failure_receiveAll_def

definition dispatch_failure_verdict ::
    "'w platform \<Rightarrow> int \<Rightarrow> bytes \<Rightarrow> u8 \<Rightarrow> 'w world \<Rightarrow> int \<times> 'w world" where
  "dispatch_failure_verdict P socketFd responseHeader responsePayload w =
     (let h = native P;
          passed = (raw_readUint32 h responseHeader 0 = raw_MAGIC \<and> responseHeader ! 4 = 1 \<and>
            raw_readUint16 h responseHeader 6 = 100 \<and> raw_readUint32 h responseHeader 8 = 1 \<and>
            raw_readUint32 h responseHeader 12 = 1 \<and> responsePayload = 2)
      in if passed
         then (let w1 = cout (endl @ ''GAP-007 unsupported-opcode test: PASS'' @ endl) w
               in close_and_return P socketFd 0 w1)
         else (let w1 = cerr (endl @ ''GAP-007 unsupported-opcode test: FAIL'' @ endl) w
               in close_and_return P socketFd 1 w1))"

definition dispatch_failure_payload ::
    "'w platform \<Rightarrow> int \<Rightarrow> bytes \<Rightarrow> 'w world \<Rightarrow> int \<times> 'w world" where
  "dispatch_failure_payload P socketFd responseHeader w =
     (if raw_readUint32 (native P) responseHeader 12 \<noteq> 1
      then (let w1 = cerr (''Unexpected ErrorResponse payload length: '' @
                to_string (uint (raw_readUint32 (native P) responseHeader 12)) @ endl) w
            in close_and_return P socketFd 1 w1)
      else (case dispatch_failure_receiveAll P socketFd [0] 1 w of
          (ok, code, w1) \<Rightarrow>
            if \<not> ok then close_and_return P socketFd 1 w1
            else (let w2 = cout (''  Protocol error code: '' @ to_string (uint (code ! 0)) @ endl) w1
                  in dispatch_failure_verdict P socketFd responseHeader (code ! 0) w2)))"

definition dispatch_failure_exchange :: "'w platform \<Rightarrow> int \<Rightarrow> 'w world \<Rightarrow> int \<times> 'w world" where
  "dispatch_failure_exchange P socketFd w =
     (let w1 = cout (''Connected successfully'' @ endl @
            ''Sending valid V1 packet with test opcode 0xFFFF...'' @ endl) w in
      case dispatch_failure_sendAll P socketFd (dispatch_failure_header (native P)) w1 of (ok, w2) \<Rightarrow>
        if \<not> ok then close_and_return P socketFd 1 w2
        else
          (let w3 = cout (''Test packet sent successfully'' @ endl @ ''Opcode: '' @ to_string 0xFFFF @
                 '' (0xFFFF)'' @ endl @ ''Waiting for dispatcher ErrorResponse...'' @ endl) w2 in
           case syscall P (SysShutdown socketFd) w3 of (_, w4) \<Rightarrow>
           case dispatch_failure_receiveAll P socketFd (replicate raw_HEADER_SIZE 0) raw_HEADER_SIZE w4 of
             (ok2, responseHeader, w5) \<Rightarrow>
             if \<not> ok2 then close_and_return P socketFd 1 w5
             else
               (let w6 = print_raw_response (native P) ''Response received'' responseHeader w5
                in dispatch_failure_payload P socketFd responseHeader w6)))"

definition dispatch_failure_client :: "'w platform \<Rightarrow> 'w world \<Rightarrow> int \<times> 'w world" where
  "dispatch_failure_client P w =
     (let w1 = cout (''PacketForge GAP-003.9.8 Dispatcher Failure Client'' @ endl @
            ''------------------------------------------------'' @ endl) w
      in open_connection P (dispatch_failure_exchange P) w1)"

section \<open>The response send failure client\<close>

definition closeSocket :: "'w platform \<Rightarrow> int \<Rightarrow> 'w world \<Rightarrow> 'w world" where
  "closeSocket P fd w = (if 0 \<le> fd then snd (syscall P (SysClose fd) w) else w)"

definition reset_packet :: bytes where
  "reset_packet =
     [0x50, 0x46, 0x4B, 0x54,
      0x01,
      0x00,
      0x00, 0x01,
      0x00, 0x00, 0x00, 0x01,
      0x00, 0x00, 0x00, 0x11] @
     map byte_of_char
       [CHR ''H'', CHR ''e'', CHR ''l'', CHR ''l'', CHR ''o'', CHR '' '',
        CHR ''P'', CHR ''a'', CHR ''c'', CHR ''k'', CHR ''e'', CHR ''t'', CHR ''F'', CHR ''o'', CHR ''r'',
        CHR ''g'', CHR ''e'']"

definition reset_exchange :: "'w platform \<Rightarrow> int \<Rightarrow> 'w world \<Rightarrow> int \<times> 'w world" where
  "reset_exchange P socketFd w =
     (let w1 = cout (''Fault-injection client connected successfully'' @ endl) w in
      case syscall P (SysSend socketFd reset_packet) w1 of (got, w2) \<Rightarrow>
        if ret got \<noteq> int (length reset_packet)
        then (let w3 = cerr (''Failed to send HelloRequest: '' @
                (if ret got < 0 then err_text got else ''partial send'') @ endl) w2
              in (1, closeSocket P socketFd w3))
        else
          (let w3 = cout (''Valid HelloRequest sent successfully'' @ endl) w2 in
           case syscall P (SysSetLinger socketFd) w3 of (r, w4) \<Rightarrow>
             if ret r < 0
             then (let w5 = cerr (''Failed to configure abortive close: '' @ err_text r @ endl) w4
                   in (1, closeSocket P socketFd w5))
             else
               (let w5 = cout (''Closing connection with TCP reset to trigger '' @
                      ''server response-send failure...'' @ endl) w4 in
                let w6 = closeSocket P socketFd w5 in
                let w7 = cout (''Fault-injection client disconnected'' @ endl) w6
                in (0, w7))))"

definition response_send_failure_client :: "'w platform \<Rightarrow> 'w world \<Rightarrow> int \<times> 'w world" where
  "response_send_failure_client P w =
     (let w1 = cout (''PacketForge response-send-failure test client'' @ endl @
            ''Connecting to PacketForge server...'' @ endl) w in
      case syscall P SysSocket w1 of (r, w2) \<Rightarrow>
        let socketFd = ret r in
        if socketFd < 0
        then (let w3 = cerr (''Failed to create socket: '' @ err_text r @ endl) w2 in (1, w3))
        else (case inet_pton P ''127.0.0.1'' of
            None \<Rightarrow>
              (let w3 = cerr (''Invalid server address'' @ endl) w2 in (1, closeSocket P socketFd w3))
          | Some addr \<Rightarrow>
              (case syscall P (SysConnect socketFd \<lparr>sin_addr = addr, sin_port = htons (native P) 9090\<rparr>) w2 of
                 (r3, w3) \<Rightarrow>
                   if ret r3 < 0
                   then (let w4 = cerr (''Failed to connect to PacketForge server: '' @ err_text r3 @ endl) w3
                         in (1, closeSocket P socketFd w4))
                   else reset_exchange P socketFd w3)))"

section \<open>The exit discipline\<close>

lemma ends_close_and_return [exit_rules]:
  "ends True {#fd#} w (close_and_return P fd 1 w)" "ends False {#fd#} w (close_and_return P fd 0 w)"
  unfolding close_and_return_def by (rule exit_rules)+

lemma closeSocket_transfers: "0 \<le> fd \<Longrightarrow> transfers {#fd#} w {#} (closeSocket P fd w)"
  by (auto simp: closeSocket_def)

lemma closeSocket_diagnostics [simp]: "diagnostics (log (closeSocket P fd w)) = diagnostics (log w)"
  by (simp add: closeSocket_def syscall_diagnostics [OF prod.collapse [symmetric]])

lemma ends_closeSocket [exit_rules]:
  assumes "R = add_mset fd F" "0 \<le> fd" "runs v d F (closeSocket P fd w) (f (closeSocket P fd w))"
  shows "runs v d R w (let u = closeSocket P fd w in f u)"
  unfolding Let_def
  by (rule ends_after [OF assms(3)])
    (use transfers_frame [OF closeSocket_transfers [OF assms(2)], of F] assms(1) in simp_all)

lemma ends_closeSocket_return [exit_rules]:
  "0 \<le> fd \<Longrightarrow> ends True {#fd#} w (1, closeSocket P fd w)"
  using ends_closeSocket [of "{#fd#}" fd "{#}" exit_code True P w "\<lambda>v. (1, v)"] by (simp add: ends_exit)

text \<open>\<open>sendAll\<close> is the loop of \<open>Transport::send\<close>, with a diagnostic for a failure.\<close>

lemma sendAll_loop:
  "\<exists>s. sendAll failed zero P fd data n w =
    (case send_loop P fd data n w of (e, w1) \<Rightarrow> if error_ok e then (True, w1) else (False, cerr s w1))"
proof (induction P fd data n w rule: send_loop.induct)
  case (1 P fd data n w)
  obtain r w1 where sc: "syscall P (SysSend fd (drop n data)) w = (r, w1)" by force
  show ?case
    using "1.IH" [OF _ sc [symmetric]] sc
    by (auto simp: sendAll.simps [of _ _ P fd data n w] send_loop.simps [of P fd data n w])
qed

lemma sendAll_frame:
  assumes "sendAll failed zero P fd data n w = (ok, w')"
  shows "transfers {#fd#} w {#fd#} w' \<and> received f (log w') = received f (log w) \<and>
    (if ok then diagnostics (log w') = diagnostics (log w)
     else \<exists>s. diagnostics (log w') = diagnostics (log w) @ [s])"
proof -
  obtain e w1 where l: "send_loop P fd data n w = (e, w1)" by force
  from assms sendAll_loop [of failed zero P fd data n w] obtain s
    where "ok = error_ok e" "w' = (if error_ok e then w1 else cerr s w1)"
    unfolding l by (auto split: if_splits)
  then show ?thesis using send_loop_transfers [OF l] send_loop_frame [OF l] by auto
qed

lemma sendAll_sent:
  assumes "sendAll failed zero P fd data 0 w = (ok, w')" "kernel_ok P"
  shows "\<exists>n. sent fd (log w') = sent fd (log w) @ take n data \<and>
    (if ok then n = length data else n < length data)"
proof -
  obtain e w1 where l: "send_loop P fd data 0 w = (e, w1)" by force
  from assms(1) sendAll_loop [of failed zero P fd data 0 w] obtain s
    where "ok = error_ok e" "w' = (if error_ok e then w1 else cerr s w1)"
    unfolding l by (auto split: if_splits)
  then show ?thesis using send_loop_sent [OF l assms(2)] by auto
qed

lemma receiveAll_frame:
  assumes "receiveAll closed P fd data len n w = (ok, d, w')"
  shows "transfers {#fd#} w {#fd#} w' \<and> sent f (log w') = sent f (log w) \<and>
    (if ok then diagnostics (log w') = diagnostics (log w)
     else \<exists>s. diagnostics (log w') = diagnostics (log w) @ [s])"
  using assms
proof (induction closed P fd data len n w arbitrary: ok d w' rule: receiveAll.induct)
  case (1 closed P fd data len n w)
  obtain r w1 where sc: "syscall P (SysRecv fd (len - n)) w = (r, w1)" by force
  note t = syscall_keeps(7) [OF sc]
  have s: "sent f (log w1) = sent f (log w)" "diagnostics (log w1) = diagnostics (log w)"
    using sc by (simp_all add: kernel_simps)
  show ?case
    using "1.prems" "1.IH" [OF _ sc [symmetric]] sc s t
    by (auto simp: receiveAll.simps [of closed P fd data len n w] split: if_splits
        intro: transfers_trans [OF t])
qed

lemma ends_sendAll [exit_rules]:
  assumes "R = add_mset fd F" "\<And>w1. runs v True R w1 (f w1)" "\<And>w1. runs v d R w1 (g w1)"
  shows "runs v d R w (case sendAll failed zero P fd data n w of (ok, w1) \<Rightarrow> if \<not> ok then f w1 else g w1)"
proof -
  obtain ok w1 where s: "sendAll failed zero P fd data n w = (ok, w1)" by force
  note frame = sendAll_frame [OF s, of 0]
  have t: "transfers R w R w1" using transfers_frame [OF conjunct1 [OF frame], of F] assms(1) by simp
  show ?thesis
  proof (cases ok)
    case True
    then show ?thesis using ends_after [OF assms(3) t] frame s by simp
  next
    case False
    then show ?thesis using ends_reported [OF assms(2) t] frame s by auto
  qed
qed

lemma ends_receiveAll [exit_rules]:
  assumes "\<And>w1. ends True {#fd#} w1 (f w1)" "\<And>bs w1. ends d {#fd#} w1 (g bs w1)"
  shows "ends d {#fd#} w (case receiveAll closed P fd data len n w of
    (ok, bs, w1) \<Rightarrow> if \<not> ok then f w1 else g bs w1)"
proof -
  obtain ok bs w1 where s: "receiveAll closed P fd data len n w = (ok, bs, w1)" by (metis prod_cases3)
  note frame = receiveAll_frame [OF s, of 0]
  show ?thesis
  proof (cases ok)
    case True
    then show ?thesis using ends_after [OF assms(2)] frame s by simp
  next
    case False
    then show ?thesis using ends_reported [OF assms(1)] frame s by auto
  qed
qed

lemma ends_print_raw_response [exit_rules]:
  assumes "ends d R (print_raw_response h title bs w) (f (print_raw_response h title bs w))"
  shows "ends d R w (let v = print_raw_response h title bs w in f v)"
  using assms unfolding print_raw_response_def by (rule ends_cout)



lemma ends_open_connection [exit_rules]:
  assumes "kernel_ok P" "\<And>fd w1. 0 \<le> fd \<Longrightarrow> ends d {#fd#} w1 (exchange fd w1)"
  shows "ends d {#} w (open_connection P exchange w)"
  unfolding open_connection_def
  by (rule exit_rules assms | assumption)+

lemma ends_protocol_error_exchange [exit_rules]: "ends False {#fd#} w (protocol_error_exchange P fd w)"
  unfolding protocol_error_exchange_def protocol_error_payload_def protocol_error_verdict_def Let_def [of "native P"]
    Let_def [of "_ \<and> _"]
  by (rule exit_rules | assumption)+

lemma ends_dispatch_failure_exchange [exit_rules]: "ends False {#fd#} w (dispatch_failure_exchange P fd w)"
  unfolding dispatch_failure_exchange_def dispatch_failure_payload_def dispatch_failure_verdict_def
    dispatch_failure_loops Let_def [of "native P"] Let_def [of "_ \<and> _"]
  by (rule exit_rules | assumption)+

lemma ends_reset_exchange [exit_rules]: "0 \<le> fd \<Longrightarrow> ends False {#fd#} w (reset_exchange P fd w)"
  unfolding reset_exchange_def
  by (rule exit_rules | assumption)+

lemma raw_clients_end:
  assumes "kernel_ok P"
  shows "ends False {#} w (protocol_error_client P w)" "ends False {#} w (dispatch_failure_client P w)"
    "ends False {#} w (response_send_failure_client P w)"
  unfolding protocol_error_client_def dispatch_failure_client_def response_send_failure_client_def
  by (rule exit_rules assms | assumption)+

end
