(* ===== verification/Raw_Client_Properties.thy ===== *)
theory Raw_Client_Properties
  imports Raw_Clients Server_Main
begin

text \<open>
  What the raw test clients check, against the codec and the server of the library: the headers they
  write by hand are encodings, a client passes exactly when it received the error response frame it
  expects, and the server sends it that frame.
\<close>

section \<open>The helpers agree with the library\<close>

lemma htons_eq: "htons h v = hostToNetwork16 h v"
  unfolding htons_def by (simp flip: wire16.wire_bytes [of h] add: wire16.load_store)

lemma htonl_eq: "htonl h v = hostToNetwork32 h v"
  unfolding htonl_def by (simp flip: wire32.wire_bytes [of h] add: wire32.load_store)

lemma ntohs_eq: "ntohs h v = networkToHost16 h v"
proof -
  have "ntohs h (hostToNetwork16 h (hostToNetwork16 h v)) = hostToNetwork16 h v"
    unfolding ntohs_def wire16.wire_bytes
    by (simp add: load_store_le [OF wire16.bits_width])
  then show ?thesis by (simp add: wire16.hton_hton networkToHost16_def)
qed

lemma ntohl_eq: "ntohl h v = networkToHost32 h v"
proof -
  have "ntohl h (hostToNetwork32 h (hostToNetwork32 h v)) = hostToNetwork32 h v"
    unfolding ntohl_def wire32.wire_bytes
    by (simp add: load_store_le [OF wire32.bits_width])
  then show ?thesis by (simp add: wire32.hton_hton networkToHost32_def)
qed

lemma raw_helpers_eq:
  "writeUint16 h buffer off v16 = store_at off (rev (store_le v16)) buffer"
  "writeUint32 h buffer off v32 = store_at off (rev (store_le v32)) buffer"
  "raw_readUint16 h buffer off = readUint16 h buffer off"
  "raw_readUint32 h buffer off = readUint32 h buffer off"
  by (simp_all add: writeUint16_def writeUint32_def htons_eq htonl_eq wire16.wire_bytes wire32.wire_bytes
      raw_readUint16_def raw_readUint32_def ntohs_eq ntohl_eq readUint16_def readUint32_def)

lemma raw_headers:
  "protocol_error_header h = [0x50, 0x46, 0x4B, 0x54, 99, 0, 0, 1, 0, 0, 0, 1, 0, 0, 0, 0]"
  "dispatch_failure_header h = [0x50, 0x46, 0x4B, 0x54, 1, 0, 0xFF, 0xFF, 0, 0, 0, 1, 0, 0, 0, 0]"
  unfolding protocol_error_header_def dispatch_failure_header_def raw_helpers_eq Let_def
  by code_simp+

section \<open>The frame a client accepts\<close>

text \<open>An \<open>ErrorResponse\<close> with one byte of payload; the clients look at every byte but the flags.\<close>

definition error_packet :: "u8 \<Rightarrow> u32 \<Rightarrow> u8 \<Rightarrow> packet" where
  "error_packet flags seq code =
     Packet\<lparr>pk_flags := flags, pk_opcode := opcode_value ErrorResponse, pk_sequenceId := seq, pk_payload := [code]\<rparr>"

definition error_frame :: "u32 \<Rightarrow> u8 \<Rightarrow> bytes \<Rightarrow> bool" where
  "error_frame seq code R \<longleftrightarrow> (\<exists>flags. R = wire_header (error_packet flags seq code) @ [code])"

lemma error_packet_simps:
  "pk_magic (error_packet f s c) = MagicNumber" "pk_version (error_packet f s c) = 1"
  "pk_flags (error_packet f s c) = f" "pk_opcode (error_packet f s c) = 100"
  "pk_sequenceId (error_packet f s c) = s" "pk_payload (error_packet f s c) = [c]"
  "packet_payloadLength (error_packet f s c) = 1" "packet_isValid (error_packet f s c)"
  by (simp_all add: error_packet_def Packet_def VERSION_def packet_payloadLength_def packet_isValid_iff)

lemma error_frame_length: "error_frame s c R \<Longrightarrow> length R = 17"
  by (auto simp: error_frame_def)

lemma error_frame_iff:
  assumes "length H = 16"
  shows "raw_readUint32 h H 0 = raw_MAGIC \<and> H ! 4 = 1 \<and> raw_readUint16 h H 6 = 100 \<and>
      raw_readUint32 h H 8 = s \<and> raw_readUint32 h H 12 = 1 \<and> c = k \<longleftrightarrow> error_frame s k (H @ [c])"
    (is "?lhs \<longleftrightarrow> ?rhs")
proof
  assume l: ?lhs
  then have "wire_header (error_packet (H ! 5) s k) = H"
    using split_header [of H] assms wire_read32 [of 0 H h] wire_read32 [of 8 H h] wire_read32 [of 12 H h]
      wire_read16 [of 6 H h]
    by (simp add: wire_header_def error_packet_simps raw_helpers_eq raw_MAGIC_def MagicNumber_def)
  with l show ?rhs unfolding error_frame_def by (intro exI [of _ "H ! 5"]) simp
next
  assume ?rhs
  then obtain f where "H = wire_header (error_packet f s k)" "c = k"
    by (auto simp: error_frame_def)
  with header_fields [where d = H and p = "error_packet f s k" and rest = "[]"] show ?lhs
    by (simp add: error_packet_simps raw_helpers_eq raw_MAGIC_def MagicNumber_def)
qed

section \<open>What the phases transfer\<close>

lemma receiveAll_done: "len \<le> n \<Longrightarrow> receiveAll closed P fd data len n w = (True, data, w)"
  by (simp add: receiveAll.simps [of closed P fd data len n w])

lemma receiveAll_received:
  assumes "receiveAll closed P fd data len n w = (ok, d, w')" "kernel_ok P" "length data = len" "n \<le> len"
  shows "\<exists>bs. received fd (log w') = received fd (log w) @ bs \<and>
    (if ok then d = take n data @ bs \<and> length bs = len - n else length bs < len - n)"
  using assms
proof (induction closed P fd data len n w arbitrary: ok d w' rule: receiveAll.induct)
  case (1 closed P fd data len n w)
  show ?case
  proof (cases "n < len")
    case False
    then show ?thesis using "1.prems" by (auto simp: receiveAll_done)
  next
    case True
    obtain r w1 where sc: "syscall P (SysRecv fd (len - n)) w = (r, w1)" by force
    have rec: "received fd (log w1) = received fd (log w) @ (if 0 \<le> ret r then stored r else [])"
      using syscall_log [OF sc] by (simp add: kernel_simps)
    have st: "0 \<le> ret r \<Longrightarrow> length (stored r) = nat (ret r)" "ret r \<le> int (len - n)"
      using syscall_ok [OF "1.prems"(2) sc] by (auto simp: reply_ok_def)
    show ?thesis
    proof (cases "0 < ret r")
      case False
      then have "\<not> ok \<and> received fd (log w') = received fd (log w)"
        using "1.prems"(1) True sc st rec
        by (auto simp: receiveAll.simps [of closed P fd data len n w] split: if_splits)
      then show ?thesis using True by auto
    next
      case pos: True
      let ?d1 = "store_at n (stored r) data" and ?m = "n + nat (ret r)"
      have fit: "n + length (stored r) \<le> len" using st pos True by simp
      note facts = store_at_facts [OF "1.prems"(3) fit]
      have "receiveAll closed P fd ?d1 len ?m w1 = (ok, d, w')"
        using "1.prems"(1) True sc pos by (simp add: receiveAll.simps [of closed P fd data len n w])
      moreover have "\<not> ret r < 0" "ret r \<noteq> 0" using pos by simp_all
      ultimately have "\<exists>bs. received fd (log w') = received fd (log w1) @ bs \<and>
          (if ok then d = take ?m ?d1 @ bs \<and> length bs = len - ?m else length bs < len - ?m)"
        using "1.IH" [OF True sc [symmetric]] "1.prems"(2) facts(1) fit st pos by simp
      then obtain bs where bs: "received fd (log w') = received fd (log w1) @ bs"
        "if ok then d = take ?m ?d1 @ bs \<and> length bs = len - ?m else length bs < len - ?m" by blast
      have "take ?m ?d1 = take n data @ stored r" using facts(3) st pos by simp
      then show ?thesis using bs rec st pos True fit
        by (intro exI [of _ "stored r @ bs"]) (auto split: if_splits)
    qed
  qed
qed

lemma receiveAll_whole:
  assumes "receiveAll closed P fd data len 0 w = (ok, d, w')" "kernel_ok P" "length data = len"
  obtains R where "received fd (log w') = received fd (log w) @ R" "sent fd (log w') = sent fd (log w)"
    "ok \<Longrightarrow> d = R \<and> length R = len" "\<not> ok \<Longrightarrow> length R < len"
  using receiveAll_received [OF assms] receiveAll_frame [OF assms(1), of fd] by (auto split: if_splits)

lemma close_and_return_streams [simp]:
  "fst (close_and_return P fd code w) = code"
  "sent f (log (snd (close_and_return P fd code w))) = sent f (log w)"
  "received f (log (snd (close_and_return P fd code w))) = received f (log w)"
  by (auto simp: close_and_return_def kernel_simps split: prod.splits)

lemma print_raw_response_streams [simp]:
  "sent f (log (print_raw_response h title bs w)) = sent f (log w)"
  "received f (log (print_raw_response h title bs w)) = received f (log w)"
  by (simp_all add: print_raw_response_def)

section \<open>The exchanges\<close>

text \<open>
  What an exchange sent and took, and when it passes: it sent a prefix of its frame, it took at most
  one error frame, and it exits with 0 exactly when it took the frame it expects.
\<close>

definition judges :: "bytes \<Rightarrow> u32 \<Rightarrow> u8 \<Rightarrow> int \<Rightarrow> 'w world \<Rightarrow> int \<times> 'w world \<Rightarrow> bool" where
  "judges frame seq code fd w x \<longleftrightarrow>
     (\<exists>n R. sent fd (log (snd x)) = sent fd (log w) @ take n frame \<and>
        received fd (log (snd x)) = received fd (log w) @ R \<and> length R \<le> 17 \<and>
        (fst x = 0 \<longleftrightarrow> error_frame seq code R) \<and> (R \<noteq> [] \<longrightarrow> length frame \<le> n))"

text \<open>The last phase, on a header that was read whole.\<close>

definition judges_payload :: "bytes \<Rightarrow> u32 \<Rightarrow> u8 \<Rightarrow> int \<Rightarrow> 'w world \<Rightarrow> int \<times> 'w world \<Rightarrow> bool" where
  "judges_payload H seq code fd w x \<longleftrightarrow>
     (\<exists>R. sent fd (log (snd x)) = sent fd (log w) \<and>
        received fd (log (snd x)) = received fd (log w) @ R \<and> length R \<le> 1 \<and>
        (fst x = 0 \<longleftrightarrow> error_frame seq code (H @ R)))"

lemma judges_payload_refused:
  assumes "length H = 16" "x = close_and_return P fd 1 w1"
    "sent fd (log w1) = sent fd (log w)" "received fd (log w1) = received fd (log w)"
  shows "judges_payload H seq code fd w x"
  using assms error_frame_length [of seq code H]
  by (auto simp: judges_payload_def intro!: exI [of _ "[]"])

lemma protocol_error_payload_judges:
  assumes "length H = 16" "kernel_ok P"
  shows "judges_payload H 0 3 fd w (protocol_error_payload P fd H w)"
proof (cases "raw_readUint32 (native P) H 12 = 1")
  case False
  then show ?thesis
    by (intro judges_payload_refused [OF assms(1), where ?w1.0 =
        "cerr (''Unexpected protocol error payload length'' @ endl) w"])
      (simp_all add: protocol_error_payload_def Let_def)
next
  case True
  obtain ok bs w1 where r: "receiveAll ''Connection closed before complete response was received'' P fd [0] 1 0 w
      = (ok, bs, w1)" by (metis prod_cases3)
  obtain R where R: "received fd (log w1) = received fd (log w) @ R" "sent fd (log w1) = sent fd (log w)"
    "ok \<Longrightarrow> bs = R \<and> length R = 1" "\<not> ok \<Longrightarrow> length R < 1"
    using receiveAll_whole [OF r assms(2)] by auto
  show ?thesis
  proof (cases ok)
    case False
    then show ?thesis using True r R
      by (intro judges_payload_refused [OF assms(1), where ?w1.0 = w1]) (simp_all add: protocol_error_payload_def)
  next
    case ok: True
    then obtain c where c: "bs = [c]" "R = [c]" using R(3) by (auto simp: length_Suc_conv)
    have "protocol_error_payload P fd H w = protocol_error_verdict P fd H c
        (cout (''  Protocol error code: '' @ to_string (uint c) @ endl) w1)"
      using True ok r c by (simp add: protocol_error_payload_def Let_def)
    moreover have "fst (protocol_error_verdict P fd H c u) = 0 \<longleftrightarrow> error_frame 0 3 (H @ [c])"
      and "sent fd (log (snd (protocol_error_verdict P fd H c u))) = sent fd (log u)"
      and "received fd (log (snd (protocol_error_verdict P fd H c u))) = received fd (log u)" for u
      by (simp_all add: protocol_error_verdict_def Let_def flip: error_frame_iff [OF assms(1), of "native P"])
    ultimately show ?thesis using R c by (simp add: judges_payload_def)
  qed
qed

lemma dispatch_failure_payload_judges:
  assumes "length H = 16" "kernel_ok P"
  shows "judges_payload H 1 2 fd w (dispatch_failure_payload P fd H w)"
proof (cases "raw_readUint32 (native P) H 12 = 1")
  case False
  then show ?thesis
    by (intro judges_payload_refused [OF assms(1), where ?w1.0 =
        "cerr (''Unexpected ErrorResponse payload length: '' @
           to_string (uint (raw_readUint32 (native P) H 12)) @ endl) w"])
      (simp_all add: dispatch_failure_loops dispatch_failure_payload_def Let_def)
next
  case True
  obtain ok bs w1 where r: "receiveAll ''recv() returned 0 before the complete response was received'' P fd [0] 1 0 w
      = (ok, bs, w1)" by (metis prod_cases3)
  obtain R where R: "received fd (log w1) = received fd (log w) @ R" "sent fd (log w1) = sent fd (log w)"
    "ok \<Longrightarrow> bs = R \<and> length R = 1" "\<not> ok \<Longrightarrow> length R < 1"
    using receiveAll_whole [OF r assms(2)] by auto
  show ?thesis
  proof (cases ok)
    case False
    then show ?thesis using True r R
      by (intro judges_payload_refused [OF assms(1), where ?w1.0 = w1]) (simp_all add: dispatch_failure_loops dispatch_failure_payload_def)
  next
    case ok: True
    then obtain c where c: "bs = [c]" "R = [c]" using R(3) by (auto simp: length_Suc_conv)
    have "dispatch_failure_payload P fd H w = dispatch_failure_verdict P fd H c
        (cout (''  Protocol error code: '' @ to_string (uint c) @ endl) w1)"
      using True ok r c by (simp add: dispatch_failure_loops dispatch_failure_payload_def Let_def)
    moreover have "fst (dispatch_failure_verdict P fd H c u) = 0 \<longleftrightarrow> error_frame 1 2 (H @ [c])"
      and "sent fd (log (snd (dispatch_failure_verdict P fd H c u))) = sent fd (log u)"
      and "received fd (log (snd (dispatch_failure_verdict P fd H c u))) = received fd (log u)" for u
      by (simp_all add: dispatch_failure_verdict_def Let_def flip: error_frame_iff [OF assms(1), of "native P"])
    ultimately show ?thesis using R c by (simp add: judges_payload_def)
  qed
qed

text \<open>The three ways an exchange goes on, whatever it prints in between.\<close>

lemma judges_not_sent:
  assumes "sendAll a b P fd frame 0 w1 = (False, w2)" "kernel_ok P"
    "sent fd (log w1) = sent fd (log w)" "received fd (log w1) = received fd (log w)"
  shows "judges frame seq code fd w (close_and_return P fd 1 w2)"
  using sendAll_sent [OF assms(1,2)] sendAll_frame [OF assms(1), of fd] assms(3,4) error_frame_length [of seq code "[]"]
  by (auto simp: judges_def)

lemma judges_no_header:
  assumes "sendAll a b P fd frame 0 w1 = (True, w2)" "kernel_ok P"
    "sent fd (log w1) = sent fd (log w)" "received fd (log w1) = received fd (log w)"
    "sent fd (log w3) = sent fd (log w2)" "received fd (log w3) = received fd (log w2)"
    "receiveAll c P fd data 16 0 w3 = (False, bs, w4)" "length data = 16"
  shows "judges frame seq code fd w (close_and_return P fd 1 w4)"
proof -
  obtain R where "received fd (log w4) = received fd (log w3) @ R" "sent fd (log w4) = sent fd (log w3)"
    "length R < 16"
    using receiveAll_whole [OF assms(7,2,8)] by auto
  then show ?thesis
    using sendAll_sent [OF assms(1,2)] sendAll_frame [OF assms(1), of fd] assms(3-6) error_frame_length [of seq code R]
    by (auto simp: judges_def intro!: exI [of _ "length frame"] exI [of _ R])
qed

lemma judges_header:
  assumes "sendAll a b P fd frame 0 w1 = (True, w2)" "kernel_ok P"
    "sent fd (log w1) = sent fd (log w)" "received fd (log w1) = received fd (log w)"
    "sent fd (log w3) = sent fd (log w2)" "received fd (log w3) = received fd (log w2)"
    "receiveAll c P fd data 16 0 w3 = (True, H, w4)" "length data = 16"
    "sent fd (log w5) = sent fd (log w4)" "received fd (log w5) = received fd (log w4)"
    "length H = 16 \<Longrightarrow> judges_payload H seq code fd w5 x"
  shows "judges frame seq code fd w x"
proof -
  obtain "received fd (log w4) = received fd (log w3) @ H" "sent fd (log w4) = sent fd (log w3)"
    "length H = 16"
    using receiveAll_whole [OF assms(7,2,8)] by auto
  moreover from assms(11) [OF this(3)] obtain R where "sent fd (log (snd x)) = sent fd (log w5)"
    "received fd (log (snd x)) = received fd (log w5) @ R" "length R \<le> 1"
    "fst x = 0 \<longleftrightarrow> error_frame seq code (H @ R)"
    unfolding judges_payload_def by blast
  ultimately show ?thesis
    using sendAll_sent [OF assms(1,2)] sendAll_frame [OF assms(1), of fd] assms(3-6,9,10)
    unfolding judges_def by (intro exI [of _ "length frame"] exI [of _ "H @ R"]) auto
qed

lemma protocol_error_exchange_judges:
  assumes "kernel_ok P"
  shows "judges (protocol_error_header (native P)) 0 3 fd w (protocol_error_exchange P fd w)"
proof -
  let ?frame = "protocol_error_header (native P)"
  define w1 where "w1 = cout (''Connected successfully'' @ endl @
    ''Sending deliberately malformed protocol header...'' @ endl) w"
  obtain ok w2 where s: "sendAll ''send() failed: '' ''send() returned 0 before the complete packet was sent'' P fd
      ?frame 0 w1 = (ok, w2)" by force
  define w3 where "w3 = cout (''Malformed packet sent'' @ endl @ ''Invalid protocol version: '' @ to_string 99 @ endl @
     ''Expected decoder result: UnsupportedVersion'' @ endl @
     ''Expected server ErrorCode: ProtocolError'' @ endl @
     ''Expected server exit code: 1'' @ endl) w2"
  define w4 where "w4 = cout (''Waiting for protocol error response...'' @ endl) w3"
  obtain ok2 H w5 where r: "receiveAll ''Connection closed before complete response was received'' P fd
      (replicate 16 0) 16 0 w4 = (ok2, H, w5)" by (metis prod_cases3)
  have x: "protocol_error_exchange P fd w = (if \<not> ok then close_and_return P fd 1 w2
      else if \<not> ok2 then close_and_return P fd 1 w5
      else protocol_error_payload P fd H
        (print_raw_response (native P) ''Protocol error response received'' H w5))"
    unfolding protocol_error_exchange_def Let_def w1_def [symmetric] s prod.case w3_def [symmetric] w4_def [symmetric]
      raw_HEADER_SIZE_def r ..
  have w1: "sent fd (log w1) = sent fd (log w)" "received fd (log w1) = received fd (log w)"
    and w4: "sent fd (log w4) = sent fd (log w2)" "received fd (log w4) = received fd (log w2)"
    by (simp_all add: w1_def w4_def w3_def)
  consider "\<not> ok" | "ok" "\<not> ok2" | "ok" "ok2" by blast
  then show ?thesis
  proof cases
    case 1
    then show ?thesis using judges_not_sent [OF _ assms w1] s by (simp add: x)
  next
    case 2
    then show ?thesis using judges_no_header [OF _ assms w1 w4] s r by (simp add: x)
  next
    case 3
    have p: "judges_payload H 0 3 fd (print_raw_response (native P) ''Protocol error response received'' H w5)
        (protocol_error_payload P fd H
          (print_raw_response (native P) ''Protocol error response received'' H w5))" if "length H = 16"
      by (rule protocol_error_payload_judges [OF that assms])
    from 3 show ?thesis using s r
      by (simp add: x judges_header [OF _ assms w1 w4 _ _ print_raw_response_streams p])
  qed
qed

lemma dispatch_failure_exchange_judges:
  assumes "kernel_ok P"
  shows "judges (dispatch_failure_header (native P)) 1 2 fd w (dispatch_failure_exchange P fd w)"
proof -
  let ?frame = "dispatch_failure_header (native P)"
  define w1 where "w1 = cout (''Connected successfully'' @ endl @
    ''Sending valid V1 packet with test opcode 0xFFFF...'' @ endl) w"
  obtain ok w2 where s: "sendAll ''send() failed: '' ''send() returned 0 before the complete packet was sent'' P fd
      ?frame 0 w1 = (ok, w2)" by force
  define w3 where "w3 = cout (''Test packet sent successfully'' @ endl @ ''Opcode: '' @ to_string 0xFFFF @
    '' (0xFFFF)'' @ endl @ ''Waiting for dispatcher ErrorResponse...'' @ endl) w2"
  obtain q w4 where sd: "syscall P (SysShutdown fd) w3 = (q, w4)" by force
  obtain ok2 H w5 where r: "receiveAll ''recv() returned 0 before the complete response was received'' P fd
      (replicate 16 0) 16 0 w4 = (ok2, H, w5)" by (metis prod_cases3)
  have x: "dispatch_failure_exchange P fd w = (if \<not> ok then close_and_return P fd 1 w2
      else if \<not> ok2 then close_and_return P fd 1 w5
      else dispatch_failure_payload P fd H (print_raw_response (native P) ''Response received'' H w5))"
    unfolding dispatch_failure_exchange_def dispatch_failure_loops Let_def w1_def [symmetric] s prod.case w3_def [symmetric] sd
      raw_HEADER_SIZE_def r ..
  have w1: "sent fd (log w1) = sent fd (log w)" "received fd (log w1) = received fd (log w)"
    and w3: "sent fd (log w3) = sent fd (log w2)" "received fd (log w3) = received fd (log w2)"
    by (simp_all add: w1_def w3_def)
  then have w4: "sent fd (log w4) = sent fd (log w2)" "received fd (log w4) = received fd (log w2)"
    by (simp_all add: syscall_log [OF sd] sent_simps received_simps)
  consider "\<not> ok" | "ok" "\<not> ok2" | "ok" "ok2" by blast
  then show ?thesis
  proof cases
    case 1
    then show ?thesis using judges_not_sent [OF _ assms w1] s by (simp add: x)
  next
    case 2
    then show ?thesis using judges_no_header [OF _ assms w1 w4] s r by (simp add: x)
  next
    case 3
    have p: "judges_payload H 1 2 fd (print_raw_response (native P) ''Response received'' H w5)
        (dispatch_failure_payload P fd H (print_raw_response (native P) ''Response received'' H w5))"
      if "length H = 16"
      by (rule dispatch_failure_payload_judges [OF that assms])
    from 3 show ?thesis using s r
      by (simp add: x judges_header [OF _ assms w1 w4 _ _ print_raw_response_streams p])
  qed
qed

section \<open>Client and server\<close>

lemma error_response_packet: "error_response err = error_packet 0 0 (protocol_error_byte err)"
  by (simp add: error_response_def error_packet_def Packet_def)

lemma error_packet_encode: "encode h (error_packet f s c) = Inr (wire_header (error_packet f s c) @ [c])"
  using encode_wire [OF error_packet_simps(8), of h f s c] by (simp add: error_packet_simps)

text \<open>What the server answers to the two frames.\<close>

lemma server_answers_headers:
  "server_answer (protocol_error_header h) = error_packet 0 0 3"
  "server_answer (dispatch_failure_header h) = error_packet 0 1 2"
proof -
  have "decode Little (protocol_error_header h) =
      Inl (ProtocolDecodeError PE_UnsupportedVersion ''Unsupported protocol version'')"
    and d: "decode Little (dispatch_failure_header h) = Inr (Packet\<lparr>pk_opcode := 0xFFFF, pk_sequenceId := 1\<rparr>)"
    unfolding raw_headers by code_simp+
  from framed_answer [OF this(1)] show "server_answer (protocol_error_header h) = error_packet 0 0 3"
    by (simp add: ProtocolDecodeError_def error_response_packet protocol_error_byte_def)
  have "snd (dispatch (Packet\<lparr>pk_opcode := 0xFFFF, pk_sequenceId := 1\<rparr>)) = error_packet 0 1 2"
    by code_simp
  with framed_answer [OF d] show "server_answer (dispatch_failure_header h) = error_packet 0 1 2"
    by simp
qed

text \<open>
  A stream of which the client took a prefix \<open>R\<close>, and which is itself a prefix of the encoding of an
  error packet, is accepted when it was taken whole.
\<close>

lemma error_frame_prefix:
  assumes "encode h (error_packet 0 seq code) = Inr d" "R = take k (take n d)"
  shows "error_frame seq code R \<longleftrightarrow> length R = 17"
proof
  assume l: "length R = 17"
  have d: "d = wire_header (error_packet 0 seq code) @ [code]" using assms(1) by (simp add: error_packet_encode)
  then have "R = d" using l assms(2) by (auto simp: min_def split: if_splits)
  then show "error_frame seq code R" unfolding error_frame_def d by blast
qed (rule error_frame_length)

text \<open>
  One exchange of a raw client with the server's session. The two byte streams connect the two logs:
  what the server took is a prefix of what the client sent, and what the client took is a prefix of
  what the server sent.
\<close>

lemma raw_exchange:
  assumes "kernel_ok Ps" "transport_inv t" "receive_request Ps t False ws = (c, t', f', ws')"
    "judges frame seq code fd wc (x, wc')" "server_answer frame = error_packet 0 seq code"
    "length frame = 16"
    "sent fd (log wc') = sent fd (log wc) @ S" "received fd (log wc') = received fd (log wc) @ R"
    "received (transport_handle t) (log ws') = received (transport_handle t) (log ws) @ take m S"
    "sent (transport_handle t) (log ws') = sent (transport_handle t) (log ws) @ A" "R = take k A"
  shows "x = 0 \<longleftrightarrow> length R = 17"
proof -
  from assms(4,7,8) obtain n where n: "S = take n frame" "x = 0 \<longleftrightarrow> error_frame seq code R"
    unfolding judges_def by auto
  from receive_request_cases [OF assms(3,1,2)] assms(9) obtain d where
    d: "sent (transport_handle t) (log ws') = sent (transport_handle t) (log ws) \<or>
      length (take m S) = 16 + be_value (take 4 (drop 12 (take m S))) \<and>
      (\<exists>n. encode (native Ps) (server_answer (take m S)) = Inr d \<and> A = take n d)"
    using assms(10) by auto
  show ?thesis
  proof (cases "A = []")
    case True
    then have "R = []" using assms(11) by simp
    moreover have "\<not> error_frame seq code []" using error_frame_length by fastforce
    ultimately show ?thesis using n(2) by simp
  next
    case False
    then have "sent (transport_handle t) (log ws') \<noteq> sent (transport_handle t) (log ws)"
      using assms(10) by simp
    with d obtain n' where a: "length (take m S) = 16 + be_value (take 4 (drop 12 (take m S)))"
      "encode (native Ps) (server_answer (take m S)) = Inr d" "A = take n' d" by blast
    then have "16 \<le> length (take m S)" by linarith
    then have "take m S = frame" using n(1) assms(6) by (simp add: min_def split: if_splits)
    then have "encode (native Ps) (error_packet 0 seq code) = Inr d" using a(2) assms(5) by simp
    then show ?thesis using error_frame_prefix [of "native Ps" seq code d R k n'] n(2) assms(11) a(3) by simp
  qed
qed

section \<open>Properties\<close>

text \<open>
  C28. The unsupported-version test. Client and server run on machines of any byte orders; the server's
  session takes a prefix of what the client sends and the client takes a prefix of what the session
  sends, in any pieces. Then the test passes, with exit code 0, exactly when the client received 17
  bytes: it can fail because the kernel fails, never because of what the server answers. When it
  passes, the client had sent its whole header.
\<close>

theorem unsupported_version_exchange:
  assumes "kernel_ok Pc" "kernel_ok Ps" "transport_inv t"
    "protocol_error_exchange Pc fd wc = (x, wc')" "receive_request Ps t False ws = (c, t', f', ws')"
    "sent fd (log wc') = sent fd (log wc) @ S" "received fd (log wc') = received fd (log wc) @ R"
    "received (transport_handle t) (log ws') = received (transport_handle t) (log ws) @ take m S"
    "sent (transport_handle t) (log ws') = sent (transport_handle t) (log ws) @ A" "R = take k A"
  shows "(x = 0 \<longleftrightarrow> length R = 17) \<and> (x = 0 \<longrightarrow> S = protocol_error_header (native Pc))"
proof -
  have j: "judges (protocol_error_header (native Pc)) 0 3 fd wc (x, wc')"
    using protocol_error_exchange_judges [OF assms(1), of fd wc] assms(4) by simp
  from raw_exchange [OF assms(2,3,5) j server_answers_headers(1) _ assms(6-10)]
  have "x = 0 \<longleftrightarrow> length R = 17" by (simp add: raw_headers)
  moreover from j assms(6,7) have "R \<noteq> [] \<Longrightarrow> S = protocol_error_header (native Pc)"
    unfolding judges_def by auto
  ultimately show ?thesis by (cases R) auto
qed

theorem unsupported_version_exchange_witness:
  "\<exists>w'. protocol_error_exchange (sim_platform Big) 3 (sim_world [] [[0x50, 0x46, 0x4B, 0x54, 1, 0, 0], [100, 0, 0, 0, 0, 0, 0, 0, 1, 3]] 5 []) = (0, w')"
proof -
  let ?frame = "[0x50, 0x46, 0x4B, 0x54, 99, 0, 0, 1, 0, 0, 0, 1, 0, 0, 0, 0] :: u8 list"
  let ?c = "protocol_error_exchange (sim_platform Big) 3 (sim_world [] [[0x50, 0x46, 0x4B, 0x54, 1, 0, 0], [100, 0, 0, 0, 0, 0, 0, 0, 1, 3]] 5 [])"
  let ?s = "receive_request (sim_platform Little) demo_transport False (sim_world [] [?frame] 20 [])"
  let ?wc' = "snd ?c" and ?ws' = "snd (snd (snd ?s))" and ?answer = "([0x50, 0x46, 0x4B, 0x54, 1, 0, 0] @ [100, 0, 0, 0, 0, 0, 0, 0, 1, 3]) :: u8 list"
  have inv: "transport_inv demo_transport" by code_simp
  have s: "?s = (fst ?s, fst (snd ?s), fst (snd (snd ?s)), ?ws')" by simp
  have "(sent 3 (log ?wc'), received 3 (log ?wc')) = (?frame, ?answer)" by code_simp
  moreover have "(received 3 (log ?ws'), sent 3 (log ?ws')) = (?frame, ?answer)" by code_simp
  ultimately have streams: "sent 3 (log ?wc') = sent 3 [] @ ?frame" "received 3 (log ?wc') = received 3 [] @ ?answer"
    "received 3 (log ?ws') = received 3 [] @ take 16 ?frame" "sent 3 (log ?ws') = sent 3 [] @ ?answer"
    "?answer = take 17 ?answer"
    by (simp_all add: kernel_simps)
  have "log (sim_world ps rs n ss) = []" "transport_handle demo_transport = 3" for ps rs n ss
    by (simp_all add: sim_world_def)
  then have "fst ?c = 0"
    using unsupported_version_exchange [where S = ?frame and R = ?answer and m = 16 and A = ?answer and k = 17,
        OF sim_kernel_ok sim_kernel_ok inv prod.collapse [symmetric] s] streams by simp
  then show ?thesis by (metis prod.collapse)
qed

text \<open>
  The unsupported-opcode test, likewise: it passes exactly when the client received 17 bytes, the
  dispatcher's answer with the request's sequence number.
\<close>

theorem unsupported_opcode_exchange:
  assumes "kernel_ok Pc" "kernel_ok Ps" "transport_inv t"
    "dispatch_failure_exchange Pc fd wc = (x, wc')" "receive_request Ps t False ws = (c, t', f', ws')"
    "sent fd (log wc') = sent fd (log wc) @ S" "received fd (log wc') = received fd (log wc) @ R"
    "received (transport_handle t) (log ws') = received (transport_handle t) (log ws) @ take m S"
    "sent (transport_handle t) (log ws') = sent (transport_handle t) (log ws) @ A" "R = take k A"
  shows "(x = 0 \<longleftrightarrow> length R = 17) \<and> (x = 0 \<longrightarrow> S = dispatch_failure_header (native Pc))"
proof -
  have j: "judges (dispatch_failure_header (native Pc)) 1 2 fd wc (x, wc')"
    using dispatch_failure_exchange_judges [OF assms(1), of fd wc] assms(4) by simp
  from raw_exchange [OF assms(2,3,5) j server_answers_headers(2) _ assms(6-10)]
  have "x = 0 \<longleftrightarrow> length R = 17" by (simp add: raw_headers)
  moreover from j assms(6,7) have "R \<noteq> [] \<Longrightarrow> S = dispatch_failure_header (native Pc)"
    unfolding judges_def by auto
  ultimately show ?thesis by (cases R) auto
qed

theorem unsupported_opcode_exchange_witness:
  "\<exists>w'. dispatch_failure_exchange (sim_platform Big) 3 (sim_world [] [[0x50, 0x46, 0x4B, 0x54, 1, 0, 0], [100, 0, 0, 0, 1, 0, 0, 0, 1, 2]] 5 []) = (0, w')"
proof -
  let ?frame = "[0x50, 0x46, 0x4B, 0x54, 1, 0, 255, 255, 0, 0, 0, 1, 0, 0, 0, 0] :: u8 list"
  let ?c = "dispatch_failure_exchange (sim_platform Big) 3 (sim_world [] [[0x50, 0x46, 0x4B, 0x54, 1, 0, 0], [100, 0, 0, 0, 1, 0, 0, 0, 1, 2]] 5 [])"
  let ?s = "receive_request (sim_platform Little) demo_transport False (sim_world [] [?frame] 20 [])"
  let ?wc' = "snd ?c" and ?ws' = "snd (snd (snd ?s))" and ?answer = "([0x50, 0x46, 0x4B, 0x54, 1, 0, 0] @ [100, 0, 0, 0, 1, 0, 0, 0, 1, 2]) :: u8 list"
  have inv: "transport_inv demo_transport" by code_simp
  have s: "?s = (fst ?s, fst (snd ?s), fst (snd (snd ?s)), ?ws')" by simp
  have "(sent 3 (log ?wc'), received 3 (log ?wc')) = (?frame, ?answer)" by code_simp
  moreover have "(received 3 (log ?ws'), sent 3 (log ?ws')) = (?frame, ?answer)" by code_simp
  ultimately have streams: "sent 3 (log ?wc') = sent 3 [] @ ?frame" "received 3 (log ?wc') = received 3 [] @ ?answer"
    "received 3 (log ?ws') = received 3 [] @ take 16 ?frame" "sent 3 (log ?ws') = sent 3 [] @ ?answer"
    "?answer = take 17 ?answer"
    by (simp_all add: kernel_simps)
  have "log (sim_world ps rs n ss) = []" "transport_handle demo_transport = 3" for ps rs n ss
    by (simp_all add: sim_world_def)
  then have "fst ?c = 0"
    using unsupported_opcode_exchange [where S = ?frame and R = ?answer and m = 16 and A = ?answer and k = 17,
        OF sim_kernel_ok sim_kernel_ok inv prod.collapse [symmetric] s] streams by simp
  then show ?thesis by (metis prod.collapse)
qed

end
