(* ===== verification/Workflow_Clients.thy ===== *)
theory Workflow_Clients
  imports Client_Main Exit_Status
begin

text \<open>
  The test clients under \<open>apps/\<close> that use the library's own classes against a running server:
  \<open>PacketForge_integration_success_client.cpp\<close>, \<open>remote_close_client_main.cpp\<close>,
  \<open>packetforge_receive_failure_client.cpp\<close>, \<open>packetforge_gap035_client.cpp\<close> and
  \<open>shutdown_client_main.cpp\<close>. \<open>main\<close> is one definition per phase; a \<open>return\<close> runs the destructors of
  the locals that exist, so it is written as one of the \<open>leave\<close> definitions.
\<close>

section \<open>Leaving main\<close>

definition client_leave :: "'w platform \<Rightarrow> client \<Rightarrow> int \<Rightarrow> 'w world \<Rightarrow> int \<times> 'w world" where
  "client_leave P client code w = (code, client_destroy P client w)"

definition connection_leave :: "'w platform \<Rightarrow> connection \<Rightarrow> int \<Rightarrow> 'w world \<Rightarrow> int \<times> 'w world" where
  "connection_leave P connection code w = (code, connection_destroy P connection w)"

text \<open>A transport, and the connection it was made from.\<close>

definition transport_leave ::
    "'w platform \<Rightarrow> transport \<Rightarrow> connection \<Rightarrow> int \<Rightarrow> 'w world \<Rightarrow> int \<times> 'w world" where
  "transport_leave P transport connection code w =
     (code, connection_destroy P connection (transport_destroy P transport w))"

section \<open>The successful workflow\<close>

definition REQUEST_PAYLOAD :: bytes where
  "REQUEST_PAYLOAD = map byte_of_char
     [CHR ''H'', CHR ''e'', CHR ''l'', CHR ''l'', CHR ''o'', CHR '' '',
      CHR ''P'', CHR ''a'', CHR ''c'', CHR ''k'', CHR ''e'', CHR ''t'',
      CHR ''F'', CHR ''o'', CHR ''r'', CHR ''g'', CHR ''e'']"

definition EXPECTED_RESPONSE_PAYLOAD :: bytes where
  "EXPECTED_RESPONSE_PAYLOAD = map byte_of_char
     [CHR ''H'', CHR ''e'', CHR ''l'', CHR ''l'', CHR ''o'', CHR '' '',
      CHR ''f'', CHR ''r'', CHR ''o'', CHR ''m'', CHR '' '',
      CHR ''P'', CHR ''a'', CHR ''c'', CHR ''k'', CHR ''e'', CHR ''t'',
      CHR ''F'', CHR ''o'', CHR ''r'', CHR ''g'', CHR ''e'', CHR '' '',
      CHR ''S'', CHR ''e'', CHR ''r'', CHR ''v'', CHR ''e'', CHR ''r'']"

text \<open>\<open>return fail(client, message);\<close>\<close>

definition integration_fail :: "'w platform \<Rightarrow> client \<Rightarrow> string \<Rightarrow> 'w world \<Rightarrow> int \<times> 'w world" where
  "integration_fail P client message w =
     (let w1 = cerr (''FAIL: '' @ message @ endl) w in
      case client_disconnect P client w1 of (client1, w2) \<Rightarrow> client_leave P client1 1 w2)"

definition integration_request :: packet where
  "integration_request =
     (let request = Packet;
          request = packet_setVersion VERSION request;
          request = packet_setFlags 0 request;
          request = packet_setOpcode (opcode_value HelloRequest) request;
          request = packet_setSequenceId 1 request
      in packet_setPayload REQUEST_PAYLOAD request)"

definition integration_disconnect :: "'w platform \<Rightarrow> client \<Rightarrow> packet \<Rightarrow> 'w world \<Rightarrow> int \<times> 'w world" where
  "integration_disconnect P client response w =
     (if \<not> packet_isValid response then integration_fail P client ''Final HelloResponse validation failed'' w
      else (case client_disconnect P client w of (client1, w1) \<Rightarrow>
        if client_isConnected client1
        then integration_fail P client1 ''Client remained CONNECTED after disconnect'' w1
        else (let w2 = cout (''Disconnect: PASS'' @ endl) w1 in
              let w3 = cout (endl @ ''GAP-022 successful workflow test: PASS'' @ endl) w2
              in client_leave P client1 0 w3)))"

definition integration_validate :: "'w platform \<Rightarrow> client \<Rightarrow> packet \<Rightarrow> 'w world \<Rightarrow> int \<times> 'w world" where
  "integration_validate P client response w =
     (if packet_magicNumber response \<noteq> MagicNumber
      then integration_fail P client ''Response magic number is incorrect'' w
      else (let w1 = cout (''Magic validation: PASS'' @ endl) w in
      if packet_version response \<noteq> VERSION
      then integration_fail P client ''Response version is incorrect'' w1
      else (let w2 = cout (''Version validation: PASS'' @ endl) w1 in
      if packet_opcode response \<noteq> opcode_value HelloResponse
      then integration_fail P client ''Response opcode is not HelloResponse'' w2
      else (let w3 = cout (''Opcode validation: PASS'' @ endl) w2 in
      if packet_flags response \<noteq> 0
      then integration_fail P client ''Response flags are incorrect'' w3
      else (let w4 = cout (''Flags validation: PASS'' @ endl) w3 in
      if packet_sequenceId response \<noteq> 1
      then integration_fail P client ''Response sequence ID does not match request'' w4
      else (let w5 = cout (''Sequence ID validation: PASS'' @ endl) w4 in
      if packet_payload response \<noteq> EXPECTED_RESPONSE_PAYLOAD
      then integration_fail P client ''Response payload is incorrect'' w5
      else if unat (packet_payloadLength response) \<noteq> length EXPECTED_RESPONSE_PAYLOAD
      then integration_fail P client ''Response payload length is incorrect'' w5
      else (let w6 = cout (''Payload validation: PASS'' @ endl) w5
            in integration_disconnect P client response w6)))))))"

definition integration_exchange :: "'w platform \<Rightarrow> client \<Rightarrow> packet \<Rightarrow> 'w world \<Rightarrow> int \<times> 'w world" where
  "integration_exchange P client request w =
     (case client_send P client request w of (sendError, w1) \<Rightarrow>
        if \<not> error_ok sendError then integration_fail P client ''HelloRequest transmission failed'' w1
        else (let w2 = cout (''Request transmission: PASS'' @ endl) w1 in
          case client_receive P client Packet w2 of (receiveError, response, client1, w3) \<Rightarrow>
            if \<not> error_ok receiveError
            then integration_fail P client1 ''HelloResponse reception failed'' w3
            else (let w4 = cout (''HelloResponse received: PASS'' @ endl) w3
                  in integration_validate P client1 response w4)))"

definition integration_check_request :: "'w platform \<Rightarrow> client \<Rightarrow> packet \<Rightarrow> 'w world \<Rightarrow> int \<times> 'w world" where
  "integration_check_request P client request w =
     (if \<not> packet_isValid request then integration_fail P client ''HelloRequest validation failed'' w
      else if packet_opcode request \<noteq> opcode_value HelloRequest
      then integration_fail P client ''HelloRequest opcode is incorrect'' w
      else if packet_sequenceId request \<noteq> 1
      then integration_fail P client ''HelloRequest sequence ID is incorrect'' w
      else if packet_payload request \<noteq> REQUEST_PAYLOAD
      then integration_fail P client ''HelloRequest payload is incorrect'' w
      else (let w1 = cout (''HelloRequest construction: PASS'' @ endl) w
            in integration_exchange P client request w1))"

definition integration_client :: "'w platform \<Rightarrow> 'w world \<Rightarrow> int \<times> 'w world" where
  "integration_client P w =
     (let w1 = cout (''GAP-022 Successful Workflow Test'' @ endl) w in
      case client_connect P Client ''127.0.0.1'' 9090 w1 of (connectError, client, w2) \<Rightarrow>
        if \<not> error_ok connectError then integration_fail P client ''Client connection failed'' w2
        else if \<not> client_isConnected client
        then integration_fail P client ''Client connection state is not CONNECTED'' w2
        else (let w3 = cout (''Connect: PASS'' @ endl) w2
              in integration_check_request P client integration_request w3))"

section \<open>The server closes first\<close>

definition remote_close_request :: "u32 \<Rightarrow> packet" where
  "remote_close_request sequenceId =
     (let request = Packet;
          request = packet_setVersion VERSION request;
          request = packet_setFlags 0 request;
          request = packet_setOpcode (opcode_value HelloRequest) request
      in packet_setSequenceId sequenceId request)"

definition remote_close_after :: "'w platform \<Rightarrow> client \<Rightarrow> 'w world \<Rightarrow> int \<times> 'w world" where
  "remote_close_after P client w =
     (let w1 = cout (endl @ ''Testing send after remote closure...'' @ endl) w in
      case client_send P client (remote_close_request 2) w1 of (sendError, w2) \<Rightarrow>
      let w3 = cout (''Send after remote closure result: '' @ error_message sendError @ endl) w2 in
      let w4 = cout (''Connection state after send attempt: '' @ state_text client @ endl) w3 in
      let w5 = cout (endl @ ''Testing receive after remote closure...'' @ endl) w4 in
      case client_receive P client Packet w5 of (receiveError, _, client1, w6) \<Rightarrow>
      let w7 = cout (''Receive after remote closure result: '' @ error_message receiveError @ endl) w6 in
      let w8 = cout (''Connection state after receive attempt: '' @ state_text client1 @ endl) w7 in
      let w9 = cout (endl @ ''Testing explicit disconnect after remote closure...'' @ endl) w8 in
      case client_disconnect P client1 w9 of (client2, w10) \<Rightarrow>
      let w11 = cout (''Explicit disconnect completed successfully'' @ endl) w10 in
      let w12 = cout (''Connection state after explicit disconnect: '' @ state_text client2 @ endl) w11
      in client_leave P client2 0 w12)"

definition remote_close_wait :: "'w platform \<Rightarrow> client \<Rightarrow> 'w world \<Rightarrow> int \<times> 'w world" where
  "remote_close_wait P client w =
     (let w1 = cout (endl @ ''Waiting for server to close connection...'' @ endl) w in
      case client_receive P client Packet w1 of (remoteCloseError, _, client1, w2) \<Rightarrow>
      let w3 = cout (''Receive after server closure: '' @ error_message remoteCloseError @ endl) w2 in
      let w4 = cout (''Connection state after server closure: '' @ state_text client1 @ endl) w3
      in remote_close_after P client1 w4)"

definition remote_close_client :: "'w platform \<Rightarrow> 'w world \<Rightarrow> int \<times> 'w world" where
  "remote_close_client P w =
     (case client_connect P Client ''127.0.0.1'' 9090 w of (connectError, client, w1) \<Rightarrow>
        if \<not> error_ok connectError
        then (let w2 = cerr (''Failed to connect: '' @ error_message connectError @ endl) w1
              in client_leave P client 1 w2)
        else (let w2 = cout (''Client connected successfully'' @ endl) w1 in
              let w3 = cout (''Connection state: '' @ state_text client @ endl) w2 in
          case client_send P client (remote_close_request 1) w3 of (sendError, w4) \<Rightarrow>
            if \<not> error_ok sendError
            then (let w5 = cerr (''Failed to send request: '' @ error_message sendError @ endl) w4
                  in client_leave P client 1 w5)
            else (let w5 = cout (''HelloRequest sent successfully'' @ endl) w4 in
              case client_receive P client Packet w5 of (receiveError, response, client1, w6) \<Rightarrow>
                if \<not> error_ok receiveError
                then (let w7 = cerr (''Failed to receive response: '' @ error_message receiveError @ endl) w6
                      in client_leave P client1 1 w7)
                else (let w7 = cout (''Initial server response received successfully'' @ endl) w6
                      in remote_close_wait P client1 w7))))"

section \<open>The idle client, and the client that resets\<close>

definition connection_state :: "bool \<Rightarrow> string" where
  "connection_state connected = (if connected then ''CONNECTED'' else ''DISCONNECTED'')"

definition shutdown_client :: "'w platform \<Rightarrow> 'w world \<Rightarrow> int \<times> 'w world" where
  "shutdown_client P w =
     (let w1 = cout (''PacketForge shutdown test client'' @ endl @
            ''Connecting to PacketForge server...'' @ endl) w in
      case connection_connect P Connection ''127.0.0.1'' 9090 w1 of (connectError, connection, w2) \<Rightarrow>
        if \<not> error_ok connectError
        then (let w3 = cerr (''Failed to connect to PacketForge server: '' @ error_message connectError @ endl) w2
              in connection_leave P connection 1 w3)
        else (let w3 = cout (''PacketForge shutdown test client connected successfully'' @ endl) w2 in
              let w4 = cout (''Connection state: '' @ connection_state (connection_isConnected connection) @ endl) w3 in
              let w5 = cout (endl @ ''Client is now idle.'' @ endl @ ''No packet will be created or sent.'' @ endl @
                     ''The server should now be blocked in receive().'' @ endl @ endl @
                     ''Press ENTER to disconnect the client after testing Ctrl+C on the server...'' @ endl) w4 in
              case syscall P ReadStdin w5 of (_, w6) \<Rightarrow>
              case connection_disconnect P connection w6 of (connection1, w7) \<Rightarrow>
              let w8 = cout (''PacketForge shutdown test client disconnected'' @ endl) w7
              in connection_leave P connection1 0 w8))"

definition receive_failure_reset :: "'w platform \<Rightarrow> connection \<Rightarrow> 'w world \<Rightarrow> int \<times> 'w world" where
  "receive_failure_reset P connection w =
     (case syscall P (SysSetLinger (socket_nativeHandle (conn_socket connection))) w of (r, w1) \<Rightarrow>
        if ret r < 0
        then (let w2 = cerr (''FAIL: setsockopt(SO_LINGER) failed: '' @ err_text r @ endl) w1 in
              case connection_disconnect P connection w2 of (connection1, w3) \<Rightarrow>
              connection_leave P connection1 1 w3)
        else (let w2 = cout (''TCP reset configuration: PASS'' @ endl) w1 in
              case connection_disconnect P connection w2 of (connection1, w3) \<Rightarrow>
              if connection_isConnected connection1
              then (let w4 = cerr (''FAIL: Client remained CONNECTED after reset close'' @ endl) w3
                    in connection_leave P connection1 1 w4)
              else (let w4 = cout (''TCP reset sent successfully'' @ endl @ ''Client state: DISCONNECTED'' @ endl @
                           ''GAP-032 receive-side failure injection: PASS'' @ endl) w3
                    in connection_leave P connection1 0 w4)))"

definition receive_failure_client :: "'w platform \<Rightarrow> 'w world \<Rightarrow> int \<times> 'w world" where
  "receive_failure_client P w =
     (let w1 = cout (''GAP-032 Receive-Side Failure Test'' @ endl) w in
      case connection_connect P Connection ''127.0.0.1'' 9090 w1 of (connectError, connection, w2) \<Rightarrow>
        if \<not> error_ok connectError
        then (let w3 = cerr (''FAIL: Connection failed: '' @ error_message connectError @ endl) w2
              in connection_leave P connection 1 w3)
        else if \<not> connection_isConnected connection
        then (let w3 = cerr (''FAIL: Connection state is not CONNECTED'' @ endl) w2
              in connection_leave P connection 1 w3)
        else (let w3 = cout (''Connection: PASS'' @ endl) w2 in receive_failure_reset P connection w3))"

section \<open>The peer that disconnects during the workflow\<close>

definition gap035_reset :: "'w platform \<Rightarrow> transport \<Rightarrow> connection \<Rightarrow> 'w world \<Rightarrow> int \<times> 'w world" where
  "gap035_reset P transport connection w =
     (let w1 = cout (endl @ ''Waiting for GDB breakpoint on the server...'' @ endl @
            ''When the server is stopped immediately before'' @ endl @
            ''packetIO.send(response), press ENTER here to'' @ endl @
            ''inject the peer TCP RST.'' @ endl @ endl) w in
      case syscall P ReadStdin w1 of (_, w2) \<Rightarrow>
      case syscall P (SysSetLinger (transport_handle transport)) w2 of (result, w3) \<Rightarrow>
        if ret result \<noteq> 0
        then (let w4 = cerr (''TCP reset configuration: FAIL'' @ endl) w3
              in transport_leave P transport connection 1 w4)
        else (let w4 = cout (''TCP reset configuration: PASS'' @ endl) w3 in
              case transport_disconnect P transport w4 of (transport1, w5) \<Rightarrow>
              let w6 = cout (''TCP reset injected: PASS'' @ endl @ ''Connection state after reset: '' @
                     connection_state (transport_isConnected transport1) @ endl) w5 in
              let w7 = cout (''GAP-035 peer disconnect injection: PASS'' @ endl) w6
              in transport_leave P transport1 connection 0 w7))"

definition gap035_send :: "'w platform \<Rightarrow> transport \<Rightarrow> connection \<Rightarrow> packet \<Rightarrow> 'w world \<Rightarrow> int \<times> 'w world" where
  "gap035_send P transport connection request w =
     (if \<not> packet_isValid request
      then (let w1 = cerr (''HelloRequest validation: FAIL'' @ endl) w
            in transport_leave P transport connection 1 w1)
      else (let w1 = cout (''HelloRequest validation: PASS'' @ endl) w in
        case encode (native P) request of
          Inl what \<Rightarrow>
            (let w2 = cerr (''HelloRequest encoding: FAIL - '' @ what @ endl) w1
             in transport_leave P transport connection 1 w2)
        | Inr encodedRequest \<Rightarrow>
            (case transport_send P transport encodedRequest w1 of (sendError, w2) \<Rightarrow>
               if \<not> error_ok sendError
               then (let w3 = cerr (''HelloRequest transmission: FAIL - '' @ error_message sendError @ endl) w2
                     in transport_leave P transport connection 1 w3)
               else (let w3 = cout (''HelloRequest transmission: PASS'' @ endl) w2
                     in gap035_reset P transport connection w3))))"

definition gap035_request :: packet where
  "gap035_request =
     (let request = Packet;
          request = packet_setVersion VERSION request;
          request = packet_setFlags 0 request;
          request = packet_setOpcode (opcode_value HelloRequest) request;
          request = packet_setSequenceId 1 request
      in packet_setPayload REQUEST_PAYLOAD request)"

definition gap035_client :: "'w platform \<Rightarrow> 'w world \<Rightarrow> int \<times> 'w world" where
  "gap035_client P w =
     (let w1 = cout (''GAP-035 Peer Disconnect During Workflow Client'' @ endl @ ''Target: '' @ ''127.0.0.1'' @ '':'' @
            to_string 9090 @ endl @ endl) w in
      case connection_connect P Connection ''127.0.0.1'' 9090 w1 of (connectError, connection, w2) \<Rightarrow>
        if \<not> error_ok connectError
        then (let w3 = cerr (''Connection: FAIL - '' @ error_message connectError @ endl) w2
              in connection_leave P connection 1 w3)
        else (let w3 = cout (''Connection: PASS'' @ endl @ ''Connection state: '' @
                connection_state (connection_isConnected connection) @ endl) w2 in
          case transport_of_connection connection of (transport, connection1) \<Rightarrow>
          gap035_send P transport connection1 gap035_request w3))"

section \<open>The exit discipline\<close>

interpretation quiet_cli: quiet_resource client_owned client_inv Client client_disconnect
  by unfold_locales simp

lemma ends_client_connect [exit_rules]:
  assumes "client_inv c" "R = client_owned c + F"
    "\<And>e c1 w1. client_inv c1 \<Longrightarrow> ends d (client_owned c1 + F) w1 (f e c1 w1)"
  shows "ends d R w (case client_connect P c host port w of (e, c1, w1) \<Rightarrow> f e c1 w1)"
proof -
  obtain e c1 w1 where s: "client_connect P c host port w = (e, c1, w1)" by (metis prod_cases3)
  from ends_after [OF assms(3) _ client_connect_diagnostics [OF s]] show ?thesis
    using client_connect_inv [OF assms(1) s] transfers_frame [OF client_connect_transfers [OF s]]
    by (simp add: s assms(2))
qed

lemma ends_client_send [exit_rules]:
  assumes "client_inv c" "R = client_owned c + F" "\<And>e w1. ends d R w1 (f e w1)"
  shows "ends d R w (case client_send P c p w of (e, w1) \<Rightarrow> f e w1)"
proof -
  obtain e w1 where s: "client_send P c p w = (e, w1)" by force
  from ends_after [OF assms(3)] show ?thesis
    using client_send_frame [OF s] transfers_frame [OF client_send_transfers [OF s assms(1)]]
    by (simp add: s assms(2))
qed

lemma ends_client_receive [exit_rules]:
  assumes "client_inv c" "R = client_owned c + F"
    "\<And>e q c1 w1. client_inv c1 \<Longrightarrow> ends d (client_owned c1 + F) w1 (f e q c1 w1)"
  shows "ends d R w (case client_receive P c p w of (e, q, c1, w1) \<Rightarrow> f e q c1 w1)"
proof -
  obtain e q c1 w1 where s: "client_receive P c p w = (e, q, c1, w1)" by (metis prod_cases4)
  note keeps = client_receive_keeps [OF s assms(1)]
  have "transfers R w (client_owned c1 + F) w1"
    using transfers_frame [OF conjunct1 [OF keeps]] by (simp add: assms(2))
  moreover have "diagnostics (log w1) = diagnostics (log w)" using client_receive_frame [OF s, of 0] by simp
  ultimately show ?thesis using ends_after [OF assms(3)] keeps by (simp add: s)
qed

lemma ends_client_leave [exit_rules]:
  assumes "client_inv c" "R = client_owned c + {#}"
  shows "ends True R w (client_leave P c 1 w)" "ends False R w (client_leave P c 0 w)"
  using assms by (auto simp: client_leave_def client_destroy_eq intro!: quiet_cli.ends_released)

lemma ends_integration_fail [exit_rules]:
  "client_inv c \<Longrightarrow> R = client_owned c + {#} \<Longrightarrow> ends d R w (integration_fail P c message w)"
  unfolding integration_fail_def by (rule exit_rules | assumption)+

lemma ends_connection_leave [exit_rules]:
  assumes "connection_inv c" "R = connection_owned c + {#}"
  shows "ends True R w (connection_leave P c 1 w)" "ends False R w (connection_leave P c 0 w)"
  using assms by (auto simp: connection_leave_def connection_destroy_eq intro!: quiet_conn.ends_released)

lemma integration_client_ends: "ends False {#} w (integration_client P w)"
  unfolding integration_client_def integration_check_request_def integration_exchange_def
    integration_validate_def integration_disconnect_def
  by (rule exit_rules | assumption)+

lemma remote_close_client_ends: "ends False {#} w (remote_close_client P w)"
  unfolding remote_close_client_def remote_close_wait_def remote_close_after_def
  by (rule exit_rules | assumption)+

lemma shutdown_client_ends: "ends False {#} w (shutdown_client P w)"
  unfolding shutdown_client_def
  by (rule exit_rules | assumption)+

lemma ends_transport_leave [exit_rules]:
  assumes "transport_inv t" "R = transport_owned t + {#}"
  shows "ends True R w (transport_leave P t Connection 1 w)" "ends False R w (transport_leave P t Connection 0 w)"
  using assms conn.release_idle [OF conn.fresh_inv conn.owned_fresh, of P]
  by (auto simp: transport_leave_def transport_destroy_eq connection_destroy_eq intro!: quiet_trans.ends_released)

lemma receive_failure_client_ends: "ends False {#} w (receive_failure_client P w)"
  unfolding receive_failure_client_def receive_failure_reset_def
  by (rule exit_rules | assumption)+

lemma gap035_client_ends: "ends False {#} w (gap035_client P w)"
  unfolding gap035_client_def gap035_send_def gap035_reset_def
  by (rule exit_rules | assumption)+

end
