(* ===== verification/Loopback_Clients.thy ===== *)
theory Loopback_Clients
  imports Raw_Clients Workflow_Clients
begin

text \<open>
  The test clients under \<open>apps/\<close> that are their own peer: they listen on a port of the loopback
  interface, connect a \<open>Connection\<close> to it, and let the accepted socket send a malformed packet
  (\<open>packetforge_malformed_packet_client.cpp\<close>) or reset the connection
  (\<open>packetforge_transport_send_failure_client.cpp\<close>, \<open>packetforge_packetio_send_failure_client.cpp\<close>) before
  they call the operation under test. One definition per function or phase of \<open>main\<close>.
\<close>

section \<open>The local listener\<close>

text \<open>
  \<open>createListener\<close> returns its result, the two out-parameters (initially -1 and 0) and what
  \<open>strerror(errno)\<close> gives after it; a failure after \<open>socket\<close> has closed the descriptor.
\<close>

definition listener_failed ::
    "'w platform \<Rightarrow> int \<Rightarrow> string \<Rightarrow> 'w world \<Rightarrow> bool \<times> int \<times> u16 \<times> string \<times> 'w world" where
  "listener_failed P listeningFd errno_text w =
     (if 0 \<le> listeningFd
      then (case syscall P (SysClose listeningFd) w of (r, w1) \<Rightarrow> (False, -1, 0, err_text r, w1))
      else (False, -1, 0, errno_text, w))"

definition createListener :: "'w platform \<Rightarrow> 'w world \<Rightarrow> bool \<times> int \<times> u16 \<times> string \<times> 'w world" where
  "createListener P w =
     (case syscall P SysSocket w of (r, w1) \<Rightarrow>
        let listeningFd = ret r in
        if listeningFd < 0 then (False, listeningFd, 0, err_text r, w1)
        else (case syscall P (SysSetReuseAddr listeningFd) w1 of (r2, w2) \<Rightarrow>
          if ret r2 < 0 then listener_failed P listeningFd (err_text r2) w2
          else (case syscall P (SysBind listeningFd
                  \<lparr>sin_addr = htonl (native P) 0x7F000001, sin_port = htons (native P) 0\<rparr>) w2 of (r3, w3) \<Rightarrow>
            if ret r3 < 0 then listener_failed P listeningFd (err_text r3) w3
            else (case syscall P (SysListen listeningFd 1) w3 of (r4, w4) \<Rightarrow>
              if ret r4 < 0 then listener_failed P listeningFd (err_text r4) w4
              else (case syscall P (SysGetsockname listeningFd) w4 of (r5, w5) \<Rightarrow>
                if ret r5 < 0 then listener_failed P listeningFd (err_text r5) w5
                else (True, listeningFd, ntohs (native P) (stored_port r5), err_text r5, w5))))))"

text \<open>\<open>configureAbortiveClose\<close>: its result, and what \<open>strerror(errno)\<close> gives after it.\<close>

definition configureAbortiveClose :: "'w platform \<Rightarrow> int \<Rightarrow> 'w world \<Rightarrow> bool \<times> string \<times> 'w world" where
  "configureAbortiveClose P fd w =
     (case syscall P (SysSetLinger fd) w of (r, w1) \<Rightarrow> (ret r = 0, err_text r, w1))"

section \<open>Malformed packets\<close>

definition expectProtocolDecodeError ::
    "'w platform \<Rightarrow> bytes \<Rightarrow> protocol_error \<Rightarrow> string \<Rightarrow> 'w world \<Rightarrow> bool \<times> 'w world" where
  "expectProtocolDecodeError P data expectedError expectedMessage w =
     (case decode (native P) data of
        Inr _ \<Rightarrow> (let w1 = cerr (''FAIL: Decoder unexpectedly accepted malformed packet'' @ endl) w in (False, w1))
      | Inl error \<Rightarrow>
          if pde_error error \<noteq> expectedError
          then (let w1 = cerr (''FAIL: unexpected decoder error code: '' @
                  to_string (uint (protocol_error_value (pde_error error))) @ endl) w in (False, w1))
          else if c_str (pde_what error) \<noteq> expectedMessage
          then (let w1 = cerr (''FAIL: unexpected decoder error message: '' @ c_str (pde_what error) @ endl) w
                in (False, w1))
          else (True, w))"

definition malformed_sendAll :: "'w platform \<Rightarrow> int \<Rightarrow> bytes \<Rightarrow> 'w world \<Rightarrow> bool \<times> 'w world" where
  "malformed_sendAll P socketFd data w =
     sendAll ''FAIL: send() failed: '' ''FAIL: send() returned zero'' P socketFd data 0 w"

definition makeInvalidMagicPacket :: "endianness \<Rightarrow> bytes" where
  "makeInvalidMagicPacket h =
     (let opcode = htons h (opcode_value HelloRequest);
          sequenceId = htonl h 1;
          payloadLength = htonl h 0;
          packet = replicate HEADER_SIZE 0;
          invalidMagic = htonl h 0xDEADBEEF;
          packet = store_at 0 (store_native h invalidMagic) packet;
          packet = packet[4 := VERSION];
          packet = packet[5 := 0];
          packet = store_at 6 (store_native h opcode) packet;
          packet = store_at 8 (store_native h sequenceId) packet
      in store_at 12 (store_native h payloadLength) packet)"

definition makePayloadMismatchPacket :: "endianness \<Rightarrow> bytes" where
  "makePayloadMismatchPacket h =
     (let magic = htonl h MagicNumber;
          opcode = htons h (opcode_value HelloRequest);
          sequenceId = htonl h 1;
          payloadLength = htonl h 4;
          packet = replicate HEADER_SIZE 0;
          packet = store_at 0 (store_native h magic) packet;
          packet = packet[4 := VERSION];
          packet = packet[5 := 0];
          packet = store_at 6 (store_native h opcode) packet;
          packet = store_at 8 (store_native h sequenceId) packet
      in store_at 12 (store_native h payloadLength) packet)"

text \<open>\<open>return result;\<close> with a transport and the connection it was made from, or the connection alone.\<close>

definition transport_return ::
    "'w platform \<Rightarrow> transport \<Rightarrow> connection \<Rightarrow> bool \<Rightarrow> 'w world \<Rightarrow> bool \<times> 'w world" where
  "transport_return P transport connection result w =
     (result, connection_destroy P connection (transport_destroy P transport w))"

definition connection_return :: "'w platform \<Rightarrow> connection \<Rightarrow> bool \<Rightarrow> 'w world \<Rightarrow> bool \<times> 'w world" where
  "connection_return P connection result w = (result, connection_destroy P connection w)"

definition propagation_receive ::
    "'w platform \<Rightarrow> transport \<Rightarrow> connection \<Rightarrow> 'w world \<Rightarrow> bool \<times> 'w world" where
  "propagation_receive P transport connection w =
     (case packetio_receive P transport Packet (Some PE_InvalidPacket) w of
        (receiveError, packet, protocolError, transport1, w1) \<Rightarrow>
        if error_ok receiveError
        then (let w2 = cerr (''FAIL: PacketIO::receive() unexpectedly succeeded'' @ endl) w1 in
              case transport_disconnect P transport1 w2 of (transport2, w3) \<Rightarrow>
              transport_return P transport2 connection False w3)
        else if error_code receiveError \<noteq> ProtocolError
        then (let w2 = cerr (''FAIL: PacketIO::receive() returned unexpected error code: '' @
                to_string (error_code_value (error_code receiveError)) @ endl) w1 in
              case transport_disconnect P transport1 w2 of (transport2, w3) \<Rightarrow>
              transport_return P transport2 connection False w3)
        else if protocolError \<noteq> Some PE_InvalidPacket
        then (let w2 = cerr (''FAIL: PacketIO protocol error value is unexpected: '' @
                to_string (uint (protocol_error_value (the protocolError))) @ endl) w1 in
              case transport_disconnect P transport1 w2 of (transport2, w3) \<Rightarrow>
              transport_return P transport2 connection False w3)
        else (case transport_disconnect P transport1 w1 of (transport2, w2) \<Rightarrow>
              transport_return P transport2 connection True w2))"

definition testPacketIODecodeFailurePropagation ::
    "'w platform \<Rightarrow> bytes \<Rightarrow> 'w world \<Rightarrow> bool \<times> 'w world" where
  "testPacketIODecodeFailurePropagation P malformedPacket w =
     (case createListener P w of (ok, listeningFd, port, errno_text, w1) \<Rightarrow>
        if \<not> ok
        then (let w2 = cerr (''FAIL: local listener creation failed: '' @ errno_text @ endl) w1 in (False, w2))
        else (case connection_connect P Connection ''127.0.0.1'' port w1 of (connectError, connection, w2) \<Rightarrow>
          if \<not> error_ok connectError
          then (let w3 = cerr (''FAIL: PacketForge connection failed: '' @ error_message connectError @ endl) w2 in
                let w4 = closeSocket P listeningFd w3
                in connection_return P connection False w4)
          else (case syscall P (SysAccept listeningFd) w2 of (r, w3) \<Rightarrow>
            let peerFd = ret r in
            if peerFd < 0
            then (let w4 = cerr (''FAIL: peer accept() failed: '' @ err_text r @ endl) w3 in
                  case connection_disconnect P connection w4 of (connection1, w5) \<Rightarrow>
                  let w6 = closeSocket P listeningFd w5
                  in connection_return P connection1 False w6)
            else (let w4 = closeSocket P listeningFd w3 in
              case malformed_sendAll P peerFd malformedPacket w4 of (sent_all, w5) \<Rightarrow>
                if \<not> sent_all
                then (let w6 = closeSocket P peerFd w5 in
                      case connection_disconnect P connection w6 of (connection1, w7) \<Rightarrow>
                      connection_return P connection1 False w7)
                else (let w6 = closeSocket P peerFd w5 in
                      case transport_of_connection connection of (transport, connection1) \<Rightarrow>
                      propagation_receive P transport connection1 w6)))))"

definition truncatedHeader :: bytes where
  "truncatedHeader = [0x50, 0x46, 0x4B, 0x54, 0x01, 0x00, 0x00, 0x01]"

definition malformed_packet_client :: "'w platform \<Rightarrow> 'w world \<Rightarrow> int \<times> 'w world" where
  "malformed_packet_client P w =
     (let w1 = cout (''GAP-034 Malformed Packet Handling Test'' @ endl) w in
      case expectProtocolDecodeError P truncatedHeader PE_InvalidPacket ''Invalid packet size'' w1 of (ok, w2) \<Rightarrow>
      if \<not> ok then (1, w2)
      else (let w3 = cout (''Truncated header rejected: PASS'' @ endl) w2 in
      case expectProtocolDecodeError P (makeInvalidMagicPacket (native P)) PE_InvalidPacket ''Invalid magic number'' w3
        of (ok, w4) \<Rightarrow>
      if \<not> ok then (1, w4)
      else (let w5 = cout (''Invalid magic rejected: PASS'' @ endl) w4 in
      case expectProtocolDecodeError P (makePayloadMismatchPacket (native P)) PE_InvalidPayload
        ''Payload size mismatch'' w5 of (ok, w6) \<Rightarrow>
      if \<not> ok then (1, w6)
      else (let w7 = cout (''Payload size mismatch rejected: PASS'' @ endl) w6 in
      case testPacketIODecodeFailurePropagation P (makeInvalidMagicPacket (native P)) w7 of (ok, w8) \<Rightarrow>
      if \<not> ok then (1, w8)
      else (let w9 = cout (''PacketIO malformed-packet propagation: PASS'' @ endl) w8 in
            let w10 = cout (''GAP-034 malformed packet handling: PASS'' @ endl) w9
            in (0, w10))))))"

section \<open>A failing Transport::send\<close>

definition transport_failure_send :: "'w platform \<Rightarrow> connection \<Rightarrow> 'w world \<Rightarrow> int \<times> 'w world" where
  "transport_failure_send P connection w =
     (case transport_of_connection connection of (transport, connection1) \<Rightarrow>
      case transport_send P transport [0x50, 0x46, 0x4B, 0x54] w of (sendError, w1) \<Rightarrow>
        if error_ok sendError
        then (let w2 = cerr (''FAIL: Transport::send() unexpectedly succeeded'' @ endl) w1 in
              case transport_disconnect P transport w2 of (transport1, w3) \<Rightarrow>
              transport_leave P transport1 connection1 1 w3)
        else if error_code sendError \<noteq> SocketError
        then (let w2 = cerr (''FAIL: unexpected error code: '' @
                to_string (error_code_value (error_code sendError)) @ endl) w1 in
              case transport_disconnect P transport w2 of (transport1, w3) \<Rightarrow>
              transport_leave P transport1 connection1 1 w3)
        else if error_message sendError \<noteq> ''Send failed''
        then (let w2 = cerr (''FAIL: unexpected error message: '' @ error_message sendError @ endl) w1 in
              case transport_disconnect P transport w2 of (transport1, w3) \<Rightarrow>
              transport_leave P transport1 connection1 1 w3)
        else (let w2 = cout (''Transport::send() returned SocketError: PASS'' @ endl @
                     ''Transport::send() message: '' @ error_message sendError @ endl) w1 in
              case transport_disconnect P transport w2 of (transport1, w3) \<Rightarrow>
              if transport_isConnected transport1
              then (let w4 = cerr (''FAIL: connection remained CONNECTED after cleanup'' @ endl) w3
                    in transport_leave P transport1 connection1 1 w4)
              else (let w4 = cout (''Connection cleanup: PASS'' @ endl @
                           ''Connection state after cleanup: DISCONNECTED'' @ endl) w3 in
                    let w5 = cout (''GAP-033 transport send-failure injection: PASS'' @ endl) w4
                    in transport_leave P transport1 connection1 0 w5)))"

definition transport_failure_probe :: "'w platform \<Rightarrow> connection \<Rightarrow> 'w world \<Rightarrow> int \<times> 'w world" where
  "transport_failure_probe P connection w =
     (case syscall P (SysRecv (socket_nativeHandle (conn_socket connection)) 1) w of (r, w1) \<Rightarrow>
        if 0 \<le> ret r
        then (let w2 = cerr (''FAIL: expected recv() to report TCP reset, but it returned '' @
                to_string (ret r) @ endl) w1 in
              case connection_disconnect P connection w2 of (connection1, w3) \<Rightarrow>
              connection_leave P connection1 1 w3)
        else if \<not> err_ECONNRESET r
        then (let w2 = cerr (''FAIL: expected ECONNRESET, got: '' @ err_text r @ endl) w1 in
              case connection_disconnect P connection w2 of (connection1, w3) \<Rightarrow>
              connection_leave P connection1 1 w3)
        else (let w2 = cout (''Peer reset observed by socket: PASS'' @ endl) w1 in
          if \<not> connection_isConnected connection
          then (let w3 = cerr (''FAIL: connection state unexpectedly changed to DISCONNECTED before send()'' @ endl) w2 in
                case connection_disconnect P connection w3 of (connection1, w4) \<Rightarrow>
                connection_leave P connection1 1 w4)
          else (let w3 = cout (''Connection state before send(): CONNECTED'' @ endl) w2
                in transport_failure_send P connection w3)))"

definition transport_failure_reset ::
    "'w platform \<Rightarrow> int \<Rightarrow> connection \<Rightarrow> 'w world \<Rightarrow> int \<times> 'w world" where
  "transport_failure_reset P listeningFd connection w =
     (case syscall P (SysAccept listeningFd) w of (r, w1) \<Rightarrow>
        let peerFd = ret r in
        if peerFd < 0
        then (let w2 = cerr (''FAIL: accept() failed: '' @ err_text r @ endl) w1 in
              case connection_disconnect P connection w2 of (connection1, w3) \<Rightarrow>
              let w4 = closeSocket P listeningFd w3
              in connection_leave P connection1 1 w4)
        else (let w2 = closeSocket P listeningFd w1 in
          case configureAbortiveClose P peerFd w2 of (ok, errno_text, w3) \<Rightarrow>
            if \<not> ok
            then (let w4 = cerr (''FAIL: failed to configure abortive close: '' @ errno_text @ endl) w3 in
                  let w5 = closeSocket P peerFd w4 in
                  case connection_disconnect P connection w5 of (connection1, w6) \<Rightarrow>
                  connection_leave P connection1 1 w6)
            else (let w4 = cout (''TCP reset configuration: PASS'' @ endl) w3 in
                  let w5 = closeSocket P peerFd w4 in
                  let w6 = cout (''TCP reset injected: PASS'' @ endl) w5
                  in transport_failure_probe P connection w6)))"

definition transport_failure_connect ::
    "'w platform \<Rightarrow> int \<Rightarrow> u16 \<Rightarrow> 'w world \<Rightarrow> int \<times> 'w world" where
  "transport_failure_connect P listeningFd port w =
     (let w1 = cout (''Local listener: PASS'' @ endl @ ''Test port: '' @ to_string (uint port) @ endl) w in
      case connection_connect P Connection ''127.0.0.1'' port w1 of (connectError, connection, w2) \<Rightarrow>
        if \<not> error_ok connectError
        then (let w3 = cerr (''FAIL: PacketForge Connection failed: '' @ error_message connectError @ endl) w2 in
              let w4 = closeSocket P listeningFd w3
              in connection_leave P connection 1 w4)
        else if \<not> connection_isConnected connection
        then (let w3 = cerr (''FAIL: Connection state is not CONNECTED'' @ endl) w2 in
              case connection_disconnect P connection w3 of (connection1, w4) \<Rightarrow>
              let w5 = closeSocket P listeningFd w4
              in connection_leave P connection1 1 w5)
        else (let w3 = cout (''PacketForge connection: PASS'' @ endl @ ''Connection state: CONNECTED'' @ endl) w2
              in transport_failure_reset P listeningFd connection w3))"

text \<open>A diagnostic with \<open>strerror(errno)\<close>, then \<open>closeSocket(listeningFd); return 1;\<close>\<close>

definition listen_failed :: "'w platform \<Rightarrow> int \<Rightarrow> string \<Rightarrow> reply \<Rightarrow> 'w world \<Rightarrow> int \<times> 'w world" where
  "listen_failed P listeningFd failed r w =
     (let w1 = cerr (''FAIL: '' @ failed @ '' failed: '' @ err_text r @ endl) w
      in (1, closeSocket P listeningFd w1))"

definition transport_send_failure_client :: "'w platform \<Rightarrow> 'w world \<Rightarrow> int \<times> 'w world" where
  "transport_send_failure_client P w =
     (let w1 = cout (''GAP-033 Transport Send Failure Test'' @ endl) w in
      case syscall P SysIgnoreSigpipe w1 of (r0, w2) \<Rightarrow>
      if ret r0 = -1 then (let w3 = cerr (''FAIL: unable to ignore SIGPIPE'' @ endl) w2 in (1, w3))
      else (case syscall P SysSocket w2 of (r, w3) \<Rightarrow>
        let listeningFd = ret r in
        if listeningFd < 0
        then (let w4 = cerr (''FAIL: socket() failed: '' @ err_text r @ endl) w3 in (1, w4))
        else (case syscall P (SysSetReuseAddr listeningFd) w3 of (r4, w4) \<Rightarrow>
          if ret r4 < 0 then listen_failed P listeningFd ''SO_REUSEADDR configuration'' r4 w4
          else (case syscall P (SysBind listeningFd
                  \<lparr>sin_addr = htonl (native P) 0x7F000001, sin_port = htons (native P) 0\<rparr>) w4 of (r5, w5) \<Rightarrow>
            if ret r5 < 0 then listen_failed P listeningFd ''bind()'' r5 w5
            else (case syscall P (SysListen listeningFd 1) w5 of (r6, w6) \<Rightarrow>
              if ret r6 < 0 then listen_failed P listeningFd ''listen()'' r6 w6
              else (case syscall P (SysGetsockname listeningFd) w6 of (r7, w7) \<Rightarrow>
                if ret r7 < 0 then listen_failed P listeningFd ''getsockname()'' r7 w7
                else transport_failure_connect P listeningFd (ntohs (native P) (stored_port r7)) w7))))))"

section \<open>A failing PacketIO::send\<close>

definition expectConnectionReset :: "'w platform \<Rightarrow> connection \<Rightarrow> 'w world \<Rightarrow> bool \<times> 'w world" where
  "expectConnectionReset P connection w =
     (case syscall P (SysRecv (socket_nativeHandle (conn_socket connection)) 1) w of (r, w1) \<Rightarrow>
        if 0 \<le> ret r
        then (False, cerr (''FAIL: expected recv() to report TCP reset, but it returned '' @
                to_string (ret r) @ endl) w1)
        else if \<not> err_ECONNRESET r
        then (False, cerr (''FAIL: expected ECONNRESET, got: '' @ err_text r @ endl) w1)
        else (True, w1))"

definition packetio_failure_packet :: packet where
  "packetio_failure_packet =
     (let packet = Packet;
          packet = packet_setVersion VERSION packet;
          packet = packet_setFlags 0 packet;
          packet = packet_setOpcode (opcode_value HelloRequest) packet;
          packet = packet_setSequenceId 1 packet
      in packet_setPayload (map byte_of_char
           [CHR ''H'', CHR ''e'', CHR ''l'', CHR ''l'', CHR ''o'', CHR '' '',
            CHR ''P'', CHR ''a'', CHR ''c'', CHR ''k'', CHR ''e'', CHR ''t'',
            CHR ''F'', CHR ''o'', CHR ''r'', CHR ''g'', CHR ''e'']) packet)"

definition packetio_failure_send :: "'w platform \<Rightarrow> connection \<Rightarrow> packet \<Rightarrow> 'w world \<Rightarrow> int \<times> 'w world" where
  "packetio_failure_send P connection packet w =
     (if \<not> packet_isValid packet
      then (let w1 = cerr (''FAIL: valid HelloRequest packet failed validation'' @ endl) w in
            case connection_disconnect P connection w1 of (connection1, w2) \<Rightarrow>
            connection_leave P connection1 1 w2)
      else (let w1 = cout (''Valid HelloRequest packet: PASS'' @ endl) w in
      case transport_of_connection connection of (transport, connection1) \<Rightarrow>
      case packetio_send P transport packet w1 of (sendError, w2) \<Rightarrow>
        if error_ok sendError
        then (let w3 = cerr (''FAIL: PacketIO::send() unexpectedly succeeded'' @ endl) w2 in
              case transport_disconnect P transport w3 of (transport1, w4) \<Rightarrow>
              transport_leave P transport1 connection1 1 w4)
        else if error_code sendError \<noteq> SocketError
        then (let w3 = cerr (''FAIL: PacketIO::send() returned unexpected error code: '' @
                to_string (error_code_value (error_code sendError)) @ endl) w2 in
              case transport_disconnect P transport w3 of (transport1, w4) \<Rightarrow>
              transport_leave P transport1 connection1 1 w4)
        else if error_message sendError \<noteq> ''Send failed''
        then (let w3 = cerr (''FAIL: PacketIO::send() returned unexpected error message: '' @
                error_message sendError @ endl) w2 in
              case transport_disconnect P transport w3 of (transport1, w4) \<Rightarrow>
              transport_leave P transport1 connection1 1 w4)
        else (let w3 = cout (''PacketIO::send() returned SocketError: PASS'' @ endl @
                     ''PacketIO::send() message: '' @ error_message sendError @ endl) w2 in
              case transport_disconnect P transport w3 of (transport1, w4) \<Rightarrow>
              if transport_isConnected transport1
              then (let w5 = cerr (''FAIL: connection remained CONNECTED after cleanup'' @ endl) w4
                    in transport_leave P transport1 connection1 1 w5)
              else (let w5 = cout (''Connection cleanup: PASS'' @ endl @
                           ''Connection state after cleanup: DISCONNECTED'' @ endl) w4 in
                    let w6 = cout (''GAP-033 PacketIO send-failure propagation: PASS'' @ endl) w5
                    in transport_leave P transport1 connection1 0 w6))))"

definition packetio_failure_reset ::
    "'w platform \<Rightarrow> int \<Rightarrow> connection \<Rightarrow> 'w world \<Rightarrow> int \<times> 'w world" where
  "packetio_failure_reset P listeningFd connection w =
     (case syscall P (SysAccept listeningFd) w of (r, w1) \<Rightarrow>
        let peerFd = ret r in
        if peerFd < 0
        then (let w2 = cerr (''FAIL: peer accept() failed: '' @ err_text r @ endl) w1 in
              case connection_disconnect P connection w2 of (connection1, w3) \<Rightarrow>
              let w4 = closeSocket P listeningFd w3
              in connection_leave P connection1 1 w4)
        else (let w2 = closeSocket P listeningFd w1 in
          case configureAbortiveClose P peerFd w2 of (ok, errno_text, w3) \<Rightarrow>
            if \<not> ok
            then (let w4 = cerr (''FAIL: failed to configure TCP abortive close: '' @ errno_text @ endl) w3 in
                  let w5 = closeSocket P peerFd w4 in
                  case connection_disconnect P connection w5 of (connection1, w6) \<Rightarrow>
                  connection_leave P connection1 1 w6)
            else (let w4 = cout (''TCP reset configuration: PASS'' @ endl) w3 in
                  let w5 = closeSocket P peerFd w4 in
                  let w6 = cout (''TCP reset injected: PASS'' @ endl) w5 in
              case expectConnectionReset P connection w6 of (reset, w7) \<Rightarrow>
                if \<not> reset
                then (case connection_disconnect P connection w7 of (connection1, w8) \<Rightarrow>
                      connection_leave P connection1 1 w8)
                else (let w8 = cout (''Peer reset observed by socket: PASS'' @ endl) w7 in
                  if \<not> connection_isConnected connection
                  then (let w9 = cerr (''FAIL: connection unexpectedly became DISCONNECTED before PacketIO::send()'' @
                          endl) w8 in
                        case connection_disconnect P connection w9 of (connection1, w10) \<Rightarrow>
                        connection_leave P connection1 1 w10)
                  else (let w9 = cout (''Connection state before PacketIO::send(): CONNECTED'' @ endl) w8
                        in packetio_failure_send P connection packetio_failure_packet w9)))))"

definition packetio_send_failure_client :: "'w platform \<Rightarrow> 'w world \<Rightarrow> int \<times> 'w world" where
  "packetio_send_failure_client P w =
     (let w1 = cout (''GAP-033 PacketIO Send Failure Propagation Test'' @ endl) w in
      case syscall P SysIgnoreSigpipe w1 of (r0, w2) \<Rightarrow>
      if ret r0 = -1 then (let w3 = cerr (''FAIL: unable to ignore SIGPIPE'' @ endl) w2 in (1, w3))
      else (case createListener P w2 of (ok, listeningFd, port, errno_text, w3) \<Rightarrow>
        if \<not> ok
        then (let w4 = cerr (''FAIL: unable to create local TCP listener: '' @ errno_text @ endl) w3 in (1, w4))
        else (let w4 = cout (''Local listener: PASS'' @ endl @ ''Test port: '' @ to_string (uint port) @ endl) w3 in
          case connection_connect P Connection ''127.0.0.1'' port w4 of (connectError, connection, w5) \<Rightarrow>
            if \<not> error_ok connectError
            then (let w6 = cerr (''FAIL: PacketForge Connection failed: '' @ error_message connectError @ endl) w5 in
                  let w7 = closeSocket P listeningFd w6
                  in connection_leave P connection 1 w7)
            else if \<not> connection_isConnected connection
            then (let w6 = cerr (''FAIL: connection state is not CONNECTED'' @ endl) w5 in
                  case connection_disconnect P connection w6 of (connection1, w7) \<Rightarrow>
                  let w8 = closeSocket P listeningFd w7
                  in connection_leave P connection1 1 w8)
            else (let w6 = cout (''PacketForge connection: PASS'' @ endl @ ''Connection state: CONNECTED'' @ endl) w5
                  in packetio_failure_reset P listeningFd connection w6))))"

section \<open>The exit discipline\<close>

lemma createListener_keeps:
  assumes "createListener P w = (ok, fd, port, errno_text, w')" "kernel_ok P"
  shows "diagnostics (log w') = diagnostics (log w) \<and>
    (if ok then 0 \<le> fd \<and> transfers {#} w {#fd#} w' else transfers {#} w {#} w')"
proof -
  obtain r w1 where s: "syscall P SysSocket w = (r, w1)" by force
  note d1 = syscall_diagnostics [OF s]
  have ge: "-1 \<le> ret r" using syscall_ok [OF assms(2) s] by (simp add: reply_ok_def)
  show ?thesis
  proof (cases "ret r < 0")
    case True
    then have "transfers {#} w {#} w1" using syscall_transfers [OF s] ge by simp
    then show ?thesis using assms(1) s True d1 by (simp add: createListener_def)
  next
    case False
    let ?fd = "ret r"
    have t1: "transfers {#} w {#?fd#} w1" using syscall_transfers [OF s] False by simp
    have fails: "diagnostics (log u') = diagnostics (log w) \<and> \<not> ok \<and> transfers {#} w {#} u'"
      if "listener_failed P ?fd tx u = (ok, fd, port, errno_text, u')" "transfers {#} w {#?fd#} u"
        "diagnostics (log u) = diagnostics (log w)" for tx u u'
    proof -
      obtain q v where c: "syscall P (SysClose ?fd) u = (q, v)" by force
      have "transfers {#?fd#} u {#} v" using syscall_transfers [OF c] by simp
      with c that False show ?thesis
        using transfers_trans [OF that(2)] syscall_diagnostics [OF c] by (auto simp: listener_failed_def)
    qed
    obtain r2 w2 where s2: "syscall P (SysSetReuseAddr ?fd) w1 = (r2, w2)" by force
    obtain r3 w3 where s3: "syscall P (SysBind ?fd \<lparr>sin_addr = htonl (native P) 0x7F000001,
        sin_port = htons (native P) 0\<rparr>) w2 = (r3, w3)" by force
    obtain r4 w4 where s4: "syscall P (SysListen ?fd 1) w3 = (r4, w4)" by force
    obtain r5 w5 where s5: "syscall P (SysGetsockname ?fd) w4 = (r5, w5)" by force
    note t2 = transfers_trans [OF t1 syscall_keeps(1) [OF s2]]
    note t3 = transfers_trans [OF t2 syscall_keeps(2) [OF s3]]
    note t4 = transfers_trans [OF t3 syscall_keeps(3) [OF s4]]
    note t5 = transfers_trans [OF t4 syscall_keeps(5) [OF s5]]
    note d = d1 syscall_diagnostics [OF s2] syscall_diagnostics [OF s3] syscall_diagnostics [OF s4]
      syscall_diagnostics [OF s5]
    note unfolded = assms(1) [unfolded createListener_def Let_def s prod.case s2 s3 s4 s5]
    consider "ret r2 < 0" | "\<not> ret r2 < 0" "ret r3 < 0" | "\<not> ret r2 < 0" "\<not> ret r3 < 0" "ret r4 < 0"
      | "\<not> ret r2 < 0" "\<not> ret r3 < 0" "\<not> ret r4 < 0" "ret r5 < 0"
      | "\<not> ret r2 < 0" "\<not> ret r3 < 0" "\<not> ret r4 < 0" "\<not> ret r5 < 0" by blast
    then show ?thesis
    proof cases
      case 1
      then have "listener_failed P ?fd (err_text r2) w2 = (ok, fd, port, errno_text, w')"
        using unfolded False by simp
      from fails [OF this t2] d show ?thesis by auto
    next
      case 2
      then have "listener_failed P ?fd (err_text r3) w3 = (ok, fd, port, errno_text, w')"
        using unfolded False by simp
      from fails [OF this t3] d show ?thesis by auto
    next
      case 3
      then have "listener_failed P ?fd (err_text r4) w4 = (ok, fd, port, errno_text, w')"
        using unfolded False by simp
      from fails [OF this t4] d show ?thesis by auto
    next
      case 4
      then have "listener_failed P ?fd (err_text r5) w5 = (ok, fd, port, errno_text, w')"
        using unfolded False by simp
      from fails [OF this t5] d show ?thesis by auto
    next
      case 5
      then show ?thesis using unfolded t5 d False by auto
    qed
  qed
qed

lemma ends_createListener [exit_rules]:
  assumes "kernel_ok P" "\<And>fd port errno_text w1. runs v d R w1 (f fd port errno_text w1)"
    "\<And>fd port errno_text w1. 0 \<le> fd \<Longrightarrow> runs v d (add_mset fd R) w1 (g fd port errno_text w1)"
  shows "runs v d R w (case createListener P w of (ok, fd, port, errno_text, w1) \<Rightarrow>
    if \<not> ok then f fd port errno_text w1 else g fd port errno_text w1)"
proof -
  obtain ok fd port tx w1 where s: "createListener P w = (ok, fd, port, tx, w1)" by (metis prod_cases5)
  note keeps = createListener_keeps [OF s assms(1)]
  show ?thesis
  proof (cases ok)
    case True
    with keeps have "transfers {#} w {#fd#} w1" "0 \<le> fd" by simp_all
    from ends_after [OF assms(3) [OF this(2)] transfers_frame [OF this(1), of R, simplified]] keeps True
    show ?thesis by (simp add: s)
  next
    case False
    with keeps have "transfers {#} w {#} w1" by simp
    from ends_after [OF assms(2) transfers_frame [OF this, of R, simplified]] keeps False
    show ?thesis by (simp add: s)
  qed
qed

lemma ends_configureAbortiveClose [exit_rules]:
  assumes "fd \<in># R" "\<And>errno_text w1. runs v d R w1 (f errno_text w1)" "\<And>errno_text w1. runs v d R w1 (g errno_text w1)"
  shows "runs v d R w (case configureAbortiveClose P fd w of (ok, errno_text, w1) \<Rightarrow>
    if \<not> ok then f errno_text w1 else g errno_text w1)"
proof -
  have "runs v d R w (case syscall P (SysSetLinger fd) w of (r, w1) \<Rightarrow>
      if \<not> ret r = 0 then f (err_text r) w1 else g (err_text r) w1)"
    by (rule exit_rules assms)+
  then show ?thesis by (simp add: configureAbortiveClose_def case_prod_unfold split: if_splits)
qed

lemma ends_expectConnectionReset [exit_rules]:
  assumes "socket_nativeHandle (conn_socket c) \<in># R"
    "\<And>w1. runs v True R w1 (f w1)" "\<And>w1. runs v d R w1 (g w1)"
  shows "runs v d R w (case expectConnectionReset P c w of (reset, w1) \<Rightarrow> if \<not> reset then f w1 else g w1)"
proof -
  let ?fd = "socket_nativeHandle (conn_socket c)"
  have "runs v d R w (case syscall P (SysRecv ?fd 1) w of (r, w1) \<Rightarrow>
      if 0 \<le> ret r
      then (let w2 = cerr (''FAIL: expected recv() to report TCP reset, but it returned '' @
                to_string (ret r) @ endl) w1 in f w2)
      else if \<not> err_ECONNRESET r
      then (let w2 = cerr (''FAIL: expected ECONNRESET, got: '' @ err_text r @ endl) w1 in f w2)
      else g w1)"
    by (rule exit_rules assms)+
  then show ?thesis
    unfolding expectConnectionReset_def case_prod_unfold Let_def by (simp split: if_splits)
qed

lemma ends_connection_return [exit_rules]:
  assumes "connection_inv c" "R = connection_owned c + {#}"
  shows "tests True R w (connection_return P c False w)" "tests False R w (connection_return P c True w)"
  using assms by (auto simp: connection_return_def connection_destroy_eq intro!: quiet_conn.ends_released)

lemma ends_transport_return [exit_rules]:
  assumes "transport_inv t" "R = transport_owned t + {#}"
  shows "tests True R w (transport_return P t Connection False w)"
    "tests False R w (transport_return P t Connection True w)"
  using assms conn.release_idle [OF conn.fresh_inv conn.owned_fresh, of P]
  by (auto simp: transport_return_def transport_destroy_eq connection_destroy_eq intro!: quiet_trans.ends_released)

lemma ends_packetio_receive [exit_rules]:
  assumes "transport_inv t" "R = transport_owned t + F"
    "\<And>e q pe t1 w1. transport_inv t1 \<Longrightarrow> runs v d (transport_owned t1 + F) w1 (f e q pe t1 w1)"
  shows "runs v d R w (case packetio_receive P t p pe0 w of (e, q, pe, t1, w1) \<Rightarrow> f e q pe t1 w1)"
proof -
  obtain e q pe t1 w1 where s: "packetio_receive P t p pe0 w = (e, q, pe, t1, w1)" by (metis prod_cases5)
  note keeps = packetio_receive_transfers [OF s assms(1)]
  have "transfers R w (transport_owned t1 + F) w1"
    using transfers_frame [OF conjunct1 [OF keeps]] by (simp add: assms(2))
  moreover have "diagnostics (log w1) = diagnostics (log w)" using packetio_receive_frame [OF s, of 0] by simp
  ultimately show ?thesis using ends_after [OF assms(3)] keeps by (simp add: s)
qed

lemma ends_packetio_send [exit_rules]:
  assumes "transport_inv t" "R = transport_owned t + F" "\<And>e w1. runs v d R w1 (f e w1)"
  shows "runs v d R w (case packetio_send P t p w of (e, w1) \<Rightarrow> f e w1)"
proof -
  obtain e w1 where s: "packetio_send P t p w = (e, w1)" by force
  from ends_after [OF assms(3)] show ?thesis
    using packetio_send_frame [OF s, of 0] transfers_frame [OF packetio_send_transfers [OF s assms(1)]]
    by (simp add: s assms(2))
qed

lemma tests_expectProtocolDecodeError: "tests False {#} w (expectProtocolDecodeError P data err what w)"
  unfolding expectProtocolDecodeError_def by (rule exit_rules)+

lemma tests_propagation:
  assumes "kernel_ok P"
  shows "tests False {#} w (testPacketIODecodeFailurePropagation P data w)"
  unfolding testPacketIODecodeFailurePropagation_def propagation_receive_def malformed_sendAll_def
  by (rule exit_rules assms | assumption)+

lemma malformed_packet_client_ends:
  assumes "kernel_ok P"
  shows "ends False {#} w (malformed_packet_client P w)"
  unfolding malformed_packet_client_def
  by (rule exit_rules ends_test [OF tests_expectProtocolDecodeError] ends_test [OF tests_propagation [OF assms]])+

lemma ends_listen_failed [exit_rules]: "0 \<le> fd \<Longrightarrow> ends False {#fd#} w (listen_failed P fd failed r w)"
  unfolding listen_failed_def by (rule exit_rules | assumption)+

lemma transport_send_failure_client_ends:
  assumes "kernel_ok P"
  shows "ends False {#} w (transport_send_failure_client P w)"
  unfolding transport_send_failure_client_def transport_failure_connect_def transport_failure_reset_def
    transport_failure_probe_def transport_failure_send_def
  by (rule connection_handle_held | rule exit_rules assms ends_transport_send_any | assumption)+

lemma packetio_send_failure_client_ends:
  assumes "kernel_ok P"
  shows "ends False {#} w (packetio_send_failure_client P w)"
  unfolding packetio_send_failure_client_def packetio_failure_reset_def packetio_failure_send_def
  by (rule connection_handle_held | rule exit_rules assms | assumption)+

end
