(* ===== verification/Fault_Injection.thy ===== *)
theory Fault_Injection
  imports Raw_Client_Properties Loopback_Clients
begin

text \<open>
  What the test clients under \<open>apps/\<close> establish. All of them keep the exit discipline; the ones that
  judge an answer of the server or of the library pass exactly when the bytes got through, or when
  the kernel failed in the way the test injects: a verdict never depends on anything else.
\<close>

section \<open>The successful workflow\<close>

lemma client_streams:
  "sent f (log (client_destroy P c w)) = sent f (log w)"
  "received f (log (client_destroy P c w)) = received f (log w)"
  by (simp_all add: client_destroy_eq)

lemma integration_fail_result [simp]:
  "fst (integration_fail P c message w) = 1"
  "sent f (log (snd (integration_fail P c message w))) = sent f (log w)"
  "received f (log (snd (integration_fail P c message w))) = received f (log w)"
  by (simp_all add: integration_fail_def Let_def client_disconnect_eq client_leave_def client_streams)

lemma integration_disconnect_result:
  "fst (integration_disconnect P c p w) = (if packet_isValid p then 0 else 1)"
  "sent f (log (snd (integration_disconnect P c p w))) = sent f (log w)"
  "received f (log (snd (integration_disconnect P c p w))) = received f (log w)"
  by (simp_all add: integration_disconnect_def Let_def client_disconnect_eq client_leave_def client_streams
      client_defs transport_defs connection_defs)

definition integration_response :: packet where
  "integration_response = Packet\<lparr>pk_opcode := 2, pk_sequenceId := 1, pk_payload := EXPECTED_RESPONSE_PAYLOAD\<rparr>"

lemma integration_validate_result:
  "fst (integration_validate P c p w) = (if p = integration_response then 0 else 1)"
  "sent f (log (snd (integration_validate P c p w))) = sent f (log w)"
  "received f (log (snd (integration_validate P c p w))) = received f (log w)"
proof -
  have n: "length EXPECTED_RESPONSE_PAYLOAD = 29" by (simp add: EXPECTED_RESPONSE_PAYLOAD_def)
  have r: "packet_magicNumber p = MagicNumber \<and> packet_version p = VERSION \<and> packet_opcode p = 2 \<and>
      packet_flags p = 0 \<and> packet_sequenceId p = 1 \<and> packet_payload p = EXPECTED_RESPONSE_PAYLOAD \<longleftrightarrow>
      p = integration_response"
    by (cases p) (auto simp: integration_response_def packet_unfold)
  have i: "unat (packet_payloadLength integration_response) = 29" "packet_isValid integration_response"
    using n by (simp_all add: integration_response_def packet_payloadLength_def packet_isValid_iff Packet_def)
  have v: "fst (integration_validate P c p w) =
      (if packet_magicNumber p = MagicNumber \<and> packet_version p = VERSION \<and>
          packet_opcode p = opcode_value HelloResponse \<and> packet_flags p = 0 \<and> packet_sequenceId p = 1 \<and>
          packet_payload p = EXPECTED_RESPONSE_PAYLOAD \<and>
          unat (packet_payloadLength p) = length EXPECTED_RESPONSE_PAYLOAD \<and> packet_isValid p
       then 0 else 1)"
    by (simp only: integration_validate_def Let_def integration_disconnect_result integration_fail_result
        if_distrib [of fst]) (auto split: if_split)
  show "fst (integration_validate P c p w) = (if p = integration_response then 0 else 1)"
  proof (cases "p = integration_response")
    case True
    then show ?thesis unfolding v using r i n by simp
  next
    case False
    with r have "\<not> (packet_magicNumber p = MagicNumber \<and> packet_version p = VERSION \<and>
          packet_opcode p = opcode_value HelloResponse \<and> packet_flags p = 0 \<and> packet_sequenceId p = 1 \<and>
          packet_payload p = EXPECTED_RESPONSE_PAYLOAD)" by simp
    then show ?thesis unfolding v using False by (simp only: if_False if_cancel simp_thms split: if_split) blast
  qed
  show "sent f (log (snd (integration_validate P c p w))) = sent f (log w)"
    "received f (log (snd (integration_validate P c p w))) = received f (log w)"
    by (simp_all add: integration_validate_def Let_def integration_disconnect_result)
qed

lemma integration_request_hello: "integration_request = hello_request" "gap035_request = hello_request"
    "packetio_failure_packet = hello_request"
  by (simp_all add: integration_request_def gap035_request_def packetio_failure_packet_def hello_request_def
      REQUEST_PAYLOAD_def)

lemma dispatch_integration: "snd (dispatch integration_request) = integration_response"
  by code_simp

text \<open>The frames of the workflow: 33 bytes out, 45 bytes back.\<close>

lemma workflow_frames:
  "encode h hello_request = Inr (wire_header hello_request @ pk_payload hello_request)"
  "length (wire_header hello_request @ pk_payload hello_request) = 33"
  "encode h integration_response = Inr (wire_header integration_response @ pk_payload integration_response)"
  "length (wire_header integration_response @ pk_payload integration_response) = 45"
  by (rule encode_wire, code_simp, code_simp, rule encode_wire, code_simp, code_simp)

lemma announced_frame:
  assumes "packet_isValid q" "R = take k (wire_header q @ pk_payload q)"
    "length R = 16 + be_value (take 4 (drop 12 R))"
  shows "R = wire_header q @ pk_payload q"
  using announced_length [OF assms(1,2)] assms(2,3) by (simp add: min_def split: if_splits)

text \<open>What a client's receive took, when the stream starts with an encoding.\<close>

lemma client_receive_prefix:
  assumes "client_receive P c p w = (e, p', c', w')" "kernel_ok P" "encode h q = Inr d"
    "received (transport_handle (cl_transport c)) (log w') =
       received (transport_handle (cl_transport c)) (log w) @ R" "R = take k d"
  shows "(error_ok e \<longleftrightarrow> length R = length d) \<and> (error_ok e \<longrightarrow> p' = q)"
proof (cases "client_isConnected c")
  case False
  moreover have "0 < length d"
    using assms(3) by (cases "packet_isValid q") (auto simp: encode_wire encode_invalid wire_header_def)
  ultimately show ?thesis using assms(1,4) by (auto simp: client_receive_def)
next
  case True
  then obtain pe t where "packetio_receive P (cl_transport c) p None w = (e, p', pe, t, w')"
    using assms(1) unfolding client_receive_def by (simp split: prod.splits)
  from packetio_receive_prefix [OF this assms(2-5)] show ?thesis .
qed

text \<open>What the server sends when it took a prefix of the request's encoding.\<close>

lemma server_stream:
  assumes "kernel_ok Ps" "transport_inv t" "receive_request Ps t False ws = (c, t', f', ws')"
    "packet_isValid q" "R = take m (wire_header q @ pk_payload q)"
    "received (transport_handle t) (log ws') = received (transport_handle t) (log ws) @ R"
    "sent (transport_handle t) (log ws') = sent (transport_handle t) (log ws) @ A"
  shows "\<exists>d n. encode (native Ps) (snd (dispatch q)) = Inr d \<and> A = take n d"
proof -
  obtain r where r: "encode (native Ps) (snd (dispatch q)) = Inr r" using encode_wire [OF dispatch_valid] by blast
  from receive_request_cases [OF assms(3,1,2)] assms(6,7) consider "A = []"
    | d n where "length R = 16 + be_value (take 4 (drop 12 R))"
      "encode (native Ps) (server_answer R) = Inr d" "A = take n d"
    by auto
  then show ?thesis
  proof cases
    case 1
    then show ?thesis using r by (intro exI [of _ r] exI [of _ 0]) simp
  next
    case 2
    have "R = wire_header q @ pk_payload q" by (rule announced_frame [OF assms(4,5) 2(1)])
    then have "server_answer R = snd (dispatch q)" using framed_answer [OF decode_wire [OF assms(4)]] by simp
    then show ?thesis using 2(2,3) by auto
  qed
qed

definition workflow_verdict :: "int \<Rightarrow> 'w world \<Rightarrow> int \<times> 'w world \<Rightarrow> bool" where
  "workflow_verdict fd w = (\<lambda>(x, w').
     (\<exists>n. sent fd (log w') = sent fd (log w) @ take n (wire_header hello_request @ pk_payload hello_request)) \<and>
     (\<forall>R h d k. received fd (log w') = received fd (log w) @ R \<longrightarrow>
        encode h integration_response = Inr d \<longrightarrow> R = take k d \<longrightarrow> (x = 0 \<longleftrightarrow> length R = length d)))"

lemma integration_exchange_streams:
  assumes "kernel_ok P" "integration_exchange P c hello_request w = (x, w')"
  shows "workflow_verdict (transport_handle (cl_transport c)) w (x, w')"
proof -
  let ?fd = "transport_handle (cl_transport c)" and ?q = "wire_header hello_request @ pk_payload hello_request"
  have v: "packet_isValid hello_request" by (simp add: hello_request_def packet_unfold packet_isValid_iff)
  have d: "length d = 45" if "encode h integration_response = Inr d" for h d
    using that workflow_frames(3,4) by auto
  obtain e w1 where s: "client_send P c hello_request w = (e, w1)" by force
  obtain n where n: "sent ?fd (log w1) = sent ?fd (log w) @ take n ?q"
    using client_send_prefix [OF s assms(1) v] workflow_frames(1) [of "native P"] by auto
  have rec: "received ?fd (log w1) = received ?fd (log w)" using client_send_frame [OF s, of ?fd] by simp
  show ?thesis
  proof (cases "error_ok e")
    case False
    then have "(x, w') = integration_fail P c ''HelloRequest transmission failed'' w1"
      using assms(2) s by (simp add: integration_exchange_def)
    then have "x = 1" "sent ?fd (log w') = sent ?fd (log w1)" "received ?fd (log w') = received ?fd (log w1)"
      by (metis integration_fail_result(1) fst_conv, metis integration_fail_result(2) snd_conv,
          metis integration_fail_result(3) snd_conv)
    moreover have "0 < length d" if "encode h integration_response = Inr d" for h d using d [OF that] by simp
    ultimately show ?thesis using n rec unfolding workflow_verdict_def prod.case by fastforce
  next
    case True
    define w2 where "w2 = cout (''Request transmission: PASS'' @ endl) w1"
    obtain e2 p c1 w3 where r: "client_receive P c Packet w2 = (e2, p, c1, w3)" by (metis prod_cases4)
    have w2: "sent ?fd (log w2) = sent ?fd (log w1)" "received ?fd (log w2) = received ?fd (log w1)"
      by (simp_all add: w2_def)
    have w3: "sent ?fd (log w3) = sent ?fd (log w2)" using client_receive_frame [OF r, of ?fd] by simp
    let ?y = "if \<not> error_ok e2 then integration_fail P c1 ''HelloResponse reception failed'' w3
      else integration_validate P c1 p (cout (''HelloResponse received: PASS'' @ endl) w3)"
    have y: "?y = (x, w')"
      using assms(2) True unfolding integration_exchange_def Let_def s prod.case w2_def [symmetric] r
      by (simp only: simp_thms if_False)
    have out: "x = (if error_ok e2 \<and> p = integration_response then 0 else 1)"
      "sent ?fd (log w') = sent ?fd (log w3)" "received ?fd (log w') = received ?fd (log w3)"
      using arg_cong [OF y, of fst] arg_cong [OF y, of "\<lambda>z. sent ?fd (log (snd z))"]
        arg_cong [OF y, of "\<lambda>z. received ?fd (log (snd z))"]
      by (simp_all add: integration_validate_result split: if_splits)
    have "x = 0 \<longleftrightarrow> length R = length d"
      if "received ?fd (log w') = received ?fd (log w) @ R" "encode h integration_response = Inr d" "R = take k d"
      for R h d k
    proof -
      have "received ?fd (log w3) = received ?fd (log w2) @ R" using out(3) that(1) w2 rec by simp
      from client_receive_prefix [OF r assms(1) that(2) this that(3)] out(1) show ?thesis by auto
    qed
    then show ?thesis using out(2) w3 w2 n unfolding workflow_verdict_def prod.case by metis
  qed
qed

text \<open>The bytes of an exchange whose request got out are those of its send and its receive.\<close>

lemma integration_exchange_bytes:
  fixes P :: "'w platform"
  defines "answered \<equiv> \<lambda>c q w. snd (snd (snd (client_receive P c Packet
    (cout (''Request transmission: PASS'' @ endl) (snd (client_send P c q w))))))"
  assumes "error_ok (fst (client_send P c q w))"
  shows "sent f (log (snd (integration_exchange P c q w))) = sent f (log (answered c q w))"
    "received f (log (snd (integration_exchange P c q w))) = received f (log (answered c q w))"
  using assms(2)
  by (simp_all add: answered_def integration_exchange_def Let_def case_prod_unfold integration_validate_result)

section \<open>Refused sends\<close>

text \<open>Among the events there is a \<open>send\<close> on the descriptor that the kernel refused.\<close>

definition refused :: "int \<Rightarrow> event list \<Rightarrow> bool" where
  "refused fd es \<longleftrightarrow>
     list_ex (\<lambda>e. case e of Sys (SysSend f _) r \<Rightarrow> f = fd \<and> ret r < 0 | _ \<Rightarrow> False) es"

lemma refused_simps [simp]:
  "\<not> refused fd []" "refused fd (es @ es') \<longleftrightarrow> refused fd es \<or> refused fd es'"
  "refused fd (Sys (SysSend fd bs) r # es) \<longleftrightarrow> ret r < 0 \<or> refused fd es"
  "refused fd (Sys (SysClose f) r # es) \<longleftrightarrow> refused fd es"
  "refused fd (Out s # es) \<longleftrightarrow> refused fd es" "refused fd (Err s # es) \<longleftrightarrow> refused fd es"
  by (auto simp: refused_def)

lemma send_loop_refused:
  assumes "send_loop P fd data n w = (e, w')"
  shows "\<exists>es. log w' = log w @ es \<and> (e = Error SocketError ''Send failed'' \<longleftrightarrow> refused fd es)"
  using assms
proof (induction P fd data n w arbitrary: e w' rule: send_loop.induct)
  case (1 P fd data n w)
  obtain r w1 where sc: "syscall P (SysSend fd (drop n data)) w = (r, w1)" by force
  consider "length data \<le> n" | "n < length data" "ret r < 0" | "n < length data" "ret r = 0"
    | "n < length data" "0 < ret r" by linarith
  then show ?case
  proof cases
    case 1
    then show ?thesis using "1.prems" by (auto simp: send_loop_done)
  next
    case 2
    then have "w' = w1 \<and> e = Error SocketError ''Send failed''"
      using "1.prems" sc by (simp add: send_loop.simps [of P fd data n w])
    then show ?thesis using 2 syscall_log [OF sc] by auto
  next
    case 3
    then have "w' = w1 \<and> e = Error SocketError ''Send failed: connection closed''"
      using "1.prems" sc by (simp add: send_loop.simps [of P fd data n w])
    then show ?thesis using 3 syscall_log [OF sc] by auto
  next
    case 4
    then have "send_loop P fd data (n + nat (ret r)) w1 = (e, w')"
      using "1.prems" sc by (simp add: send_loop.simps [of P fd data n w])
    moreover have "\<not> ret r < 0" "ret r \<noteq> 0" using 4 by simp_all
    ultimately obtain es where "log w' = log w1 @ es" "e = Error SocketError ''Send failed'' \<longleftrightarrow> refused fd es"
      using "1.IH" [OF 4(1) sc [symmetric]] by blast
    then show ?thesis using 4 by (auto simp: syscall_log [OF sc])
  qed
qed

lemma transport_leave_fresh: "transport_leave P Transport Connection code w = (code, w)"
  by (simp add: transport_leave_def transport_destroy_eq connection_destroy_fresh
      trans.release_idle trans.fresh_inv trans.owned_fresh)

text \<open>From \<open>w\<close> to \<open>w'\<close> nothing was sent.\<close>

definition sends_nothing :: "int \<Rightarrow> 'w world \<Rightarrow> 'w world \<Rightarrow> bool" where
  "sends_nothing fd w w' \<longleftrightarrow> (\<exists>es. log w' = log w @ es \<and> \<not> refused fd es)"

lemma sends_nothing_intros:
  "sends_nothing fd w w" "sends_nothing fd w w' \<Longrightarrow> sends_nothing fd w (cout s w')"
  "sends_nothing fd w w' \<Longrightarrow> sends_nothing fd w (cerr s w')"
  by (auto simp: sends_nothing_def kernel_simps)

lemma sends_nothing_disconnect:
  assumes "sends_nothing fd w w'"
  shows "sends_nothing fd w (snd (transport_disconnect P t w'))"
proof -
  obtain es where es: "log w' = log w @ es" "\<not> refused fd es" using assms by (auto simp: sends_nothing_def)
  have "log (snd (transport_disconnect P t w')) = log w' \<or>
      (\<exists>f r. log (snd (transport_disconnect P t w')) = log w' @ [Sys (SysClose f) r])"
    by (simp add: transport_disconnect_eq connection_disconnect_eq socket_close_def
        syscall_log [OF prod.collapse [symmetric]])
  then show ?thesis using es by (auto simp: sends_nothing_def)
qed

lemma report_and_disconnect:
  "sends_nothing fd w (snd (connection_disconnect P c (cerr s w)))"
  "sends_nothing fd w (snd (connection_disconnect P c (cout s w)))"
  using sends_nothing_disconnect [of fd w "cerr s w" P "\<lparr>tr_connection = c\<rparr>"]
    sends_nothing_disconnect [of fd w "cout s w" P "\<lparr>tr_connection = c\<rparr>"]
  by (simp_all add: transport_disconnect_eq sends_nothing_intros)

lemma transport_failure_send_result:
  assumes "transport_send P \<lparr>tr_connection = c\<rparr> [0x50, 0x46, 0x4B, 0x54] w = (e, w1)"
  shows "fst (transport_failure_send P c w) = (if e = Error SocketError ''Send failed'' then 0 else 1)"
    "sends_nothing fd w1 (snd (transport_failure_send P c w))"
proof -
  have e: "e = Error SocketError ''Send failed'' \<longleftrightarrow>
      \<not> error_ok e \<and> error_code e = SocketError \<and> error_message e = ''Send failed''"
    by (cases e rule: Error_exhaust) auto
  have "\<not> transport_isConnected Transport" by (simp add: transport_defs connection_defs)
  then show "fst (transport_failure_send P c w) = (if e = Error SocketError ''Send failed'' then 0 else 1)"
    unfolding e
    by (simp add: transport_failure_send_def transport_of_connection_eq assms Let_def case_prod_unfold
        transport_disconnect_eq transport_leave_fresh)
  show "sends_nothing fd w1 (snd (transport_failure_send P c w))"
    using \<open>\<not> transport_isConnected Transport\<close>
    by (simp add: transport_failure_send_def transport_of_connection_eq assms Let_def case_prod_unfold
        transport_disconnect_eq transport_leave_fresh sends_nothing_intros report_and_disconnect)
qed

lemma packetio_failure_send_result:
  assumes "packetio_send P \<lparr>tr_connection = c\<rparr> hello_request
      (cout (''Valid HelloRequest packet: PASS'' @ endl) w) = (e, w1)"
  shows "fst (packetio_failure_send P c packetio_failure_packet w) =
      (if e = Error SocketError ''Send failed'' then 0 else 1)"
    "sends_nothing fd w1 (snd (packetio_failure_send P c packetio_failure_packet w))"
proof -
  have e: "e = Error SocketError ''Send failed'' \<longleftrightarrow>
      \<not> error_ok e \<and> error_code e = SocketError \<and> error_message e = ''Send failed''"
    by (cases e rule: Error_exhaust) auto
  have v: "packet_isValid hello_request" by (simp add: hello_request_def packet_unfold packet_isValid_iff)
  have n: "\<not> transport_isConnected Transport" by (simp add: transport_defs connection_defs)
  note unfolded = packetio_failure_send_def [of P c packetio_failure_packet w, unfolded Let_def
      integration_request_hello transport_of_connection_eq prod.case assms transport_disconnect_eq]
  show "fst (packetio_failure_send P c packetio_failure_packet w) =
      (if e = Error SocketError ''Send failed'' then 0 else 1)"
    unfolding e integration_request_hello unfolded using v n by (simp add: transport_leave_fresh)
  show "sends_nothing fd w1 (snd (packetio_failure_send P c packetio_failure_packet w))"
    unfolding integration_request_hello unfolded
    using v n by (simp add: transport_leave_fresh sends_nothing_intros report_and_disconnect)
qed

section \<open>Malformed packets\<close>

lemma stored_bytes:
  "rev (store_le (0xDEADBEEF :: u32)) = [0xDE, 0xAD, 0xBE, 0xEF]" "rev (store_le MagicNumber) = [0x50, 0x46, 0x4B, 0x54]"
  "rev (store_le (0 :: u32)) = [0, 0, 0, 0]" "rev (store_le (1 :: u32)) = [0, 0, 0, 1]"
  "rev (store_le (4 :: u32)) = [0, 0, 0, 4]" "rev (store_le (opcode_value HelloRequest)) = [0, 1]"
  by code_simp+

lemma malformed_packets:
  "makeInvalidMagicPacket h = [0xDE, 0xAD, 0xBE, 0xEF, 1, 0, 0, 1, 0, 0, 0, 1, 0, 0, 0, 0]"
  "makePayloadMismatchPacket h = [0x50, 0x46, 0x4B, 0x54, 1, 0, 0, 1, 0, 0, 0, 1, 0, 0, 0, 4]"
  unfolding makeInvalidMagicPacket_def makePayloadMismatchPacket_def Let_def htons_eq htonl_eq
    wire16.wire_bytes wire32.wire_bytes stored_bytes
  by (simp_all add: store_at_def HEADER_SIZE_def VERSION_def eval_nat_numeral)

lemma every_endianness: "f Little = y \<and> f Big = y \<Longrightarrow> f h = y"
  by (cases h) simp_all

lemma malformed_decodings:
  "decode h truncatedHeader = Inl (ProtocolDecodeError PE_InvalidPacket ''Invalid packet size'')"
  "decode h (makeInvalidMagicPacket h') = Inl (ProtocolDecodeError PE_InvalidPacket ''Invalid magic number'')"
  "decode h (makePayloadMismatchPacket h') = Inl (ProtocolDecodeError PE_InvalidPayload ''Payload size mismatch'')"
  unfolding malformed_packets
  by (rule every_endianness [where f = "\<lambda>h. decode h _"]; code_simp)+

section \<open>Properties\<close>

text \<open>The eleven test clients under \<open>apps/\<close>.\<close>

definition fault_clients :: "('w platform \<Rightarrow> 'w world \<Rightarrow> int \<times> 'w world) list" where
  "fault_clients =
     [protocol_error_client, dispatch_failure_client, response_send_failure_client,
      integration_client, remote_close_client, shutdown_client, receive_failure_client, gap035_client,
      malformed_packet_client, transport_send_failure_client, packetio_send_failure_client]"

text \<open>
  C30. Each of the eleven test clients, whatever the kernel answers, leaks no descriptor, closes none
  twice and uses none that is closed, and exits with 1 exactly when it wrote a diagnostic to
  \<open>std::cerr\<close>, with 0 otherwise.
\<close>

theorem fault_clients_exit:
  assumes "kernel_ok P" "main \<in> set fault_clients"
  shows "transfers {#} w {#} (snd (main P w)) \<and>
    (\<exists>ds. diagnostics (log (snd (main P w))) = diagnostics (log w) @ ds \<and>
       fst (main P w) = (if ds = [] then 0 else 1))"
proof -
  have "\<forall>main \<in> set fault_clients. ends False {#} w (main P w)"
    unfolding fault_clients_def list.set ball_simps simp_thms
    by (intro conjI raw_clients_end [OF assms(1)] integration_client_ends
        remote_close_client_ends shutdown_client_ends receive_failure_client_ends gap035_client_ends
        malformed_packet_client_ends [OF assms(1)] transport_send_failure_client_ends [OF assms(1)]
        packetio_send_failure_client_ends [OF assms(1)])
  with assms(2) have "ends False {#} w (main P w)" by blast
  then obtain ds where "transfers {#} w {#} (snd (main P w))"
    "diagnostics (log (snd (main P w))) = diagnostics (log w) @ ds" "fst (main P w) = exit_code (ds \<noteq> [])"
    unfolding runs_def by auto
  then show ?thesis by (intro conjI exI [of _ ds]) (simp_all add: exit_code_def)
qed

text \<open>A run in which \<open>getsockname\<close> fails: the listener is closed again.\<close>

theorem fault_clients_exit_witness:
  "\<exists>w'. packetio_send_failure_client (sim_platform Little) (sim_world [0, 7, 0, 0, 0, -1] [] 0 []) = (1, w') \<and>
    transfers {#} (sim_world [0, 7, 0, 0, 0, -1] [] 0 []) {#} w' \<and> length (diagnostics (log w')) = 1"
proof -
  let ?r = "packetio_send_failure_client (sim_platform Little) (sim_world [0, 7, 0, 0, 0, -1] [] 0 [])"
  have d: "length (diagnostics (log (snd ?r))) = 1" by code_simp
  have "packetio_send_failure_client \<in> set fault_clients" by (simp add: fault_clients_def)
  from fault_clients_exit [OF sim_kernel_ok [of Little] this, of "sim_world [0, 7, 0, 0, 0, -1] [] 0 []"] d
  have "transfers {#} (sim_world [0, 7, 0, 0, 0, -1] [] 0 []) {#} (snd ?r) \<and> fst ?r = 1"
    by (auto simp: sim_world_def kernel_simps split: if_splits)
  then show ?thesis using d by (metis prod.collapse)
qed

text \<open>
  C29. The successful workflow. Client and server run on machines of any byte orders; the server's
  session takes a prefix of what the client sends and the client takes a prefix of what the session
  sends, in any pieces. Then the client's checks of the response, field by field, pass with exit
  code 0 exactly when it received 45 bytes, the length of the response: no other answer is possible.
\<close>

theorem successful_workflow:
  assumes "kernel_ok Pc" "kernel_ok Ps" "transport_inv t"
    "integration_exchange Pc c integration_request wc = (x, wc')"
    "receive_request Ps t False ws = (s, t', f', ws')"
    "sent (transport_handle (cl_transport c)) (log wc') = sent (transport_handle (cl_transport c)) (log wc) @ S"
    "received (transport_handle (cl_transport c)) (log wc') = received (transport_handle (cl_transport c)) (log wc) @ R"
    "received (transport_handle t) (log ws') = received (transport_handle t) (log ws) @ take m S"
    "sent (transport_handle t) (log ws') = sent (transport_handle t) (log ws) @ A" "R = take k A"
  shows "x = 0 \<longleftrightarrow> length R = 45"
proof -
  let ?q = "wire_header hello_request @ pk_payload hello_request"
  have v: "packet_isValid hello_request" by (simp add: hello_request_def packet_unfold packet_isValid_iff)
  from integration_exchange_streams [OF assms(1) assms(4) [unfolded integration_request_hello]] assms(6)
  obtain n where n: "S = take n ?q" and verdict: "\<And>h d k. encode h integration_response = Inr d \<Longrightarrow>
      R = take k d \<Longrightarrow> x = 0 \<longleftrightarrow> length R = length d"
    using assms(7) unfolding workflow_verdict_def by auto
  have "take m S = take (min m n) ?q" by (simp only: n take_take)
  from server_stream [OF assms(2,3,5) v this assms(8,9)] obtain d i
    where d: "encode (native Ps) integration_response = Inr d" "A = take i d"
    using dispatch_integration unfolding integration_request_hello by auto
  then have "length d = 45" using workflow_frames(3,4) by auto
  moreover have "R = take (min k i) d" using assms(10) d(2) by simp
  ultimately show ?thesis using verdict [OF d(1)] by simp
qed

theorem successful_workflow_witness:
  "\<exists>w'. integration_exchange (sim_platform Big) \<lparr>cl_transport = demo_transport\<rparr> integration_request
    (sim_world [] [[0x50, 0x46, 0x4B, 0x54, 1, 0, 0, 2, 0, 0, 0, 1, 0, 0, 0, 29],
      bytes_of_string ''Hello from PacketForge Server''] 30 []) = (0, w')"
proof -
  let ?answer = "[[0x50, 0x46, 0x4B, 0x54, 1, 0, 0, 2, 0, 0, 0, 1, 0, 0, 0, 29],
    bytes_of_string ''Hello from PacketForge Server'']"
  let ?frame = "[0x50, 0x46, 0x4B, 0x54, 1, 0, 0, 1, 0, 0, 0, 1, 0, 0, 0, 17] @ bytes_of_string ''Hello PacketForge''"
  let ?c = "integration_exchange (sim_platform Big) \<lparr>cl_transport = demo_transport\<rparr> integration_request
    (sim_world [] ?answer 30 [])"
  let ?s = "receive_request (sim_platform Little) demo_transport False (sim_world [] [?frame] 50 [])"
  let ?wc' = "snd ?c" and ?ws' = "snd (snd (snd ?s))"
  have inv: "transport_inv demo_transport" by code_simp
  have s: "?s = (fst ?s, fst (snd ?s), fst (snd (snd ?s)), ?ws')" by simp
  have ok: "error_ok (fst (client_send (sim_platform Big) \<lparr>cl_transport = demo_transport\<rparr> integration_request
      (sim_world [] ?answer 30 [])))" by code_simp
  have "(sent 3 (log ?wc'), received 3 (log ?wc')) = (?frame, concat ?answer)"
    unfolding integration_exchange_bytes [OF ok] by code_simp
  moreover have "(received 3 (log ?ws'), sent 3 (log ?ws')) = (?frame, concat ?answer)" by code_simp
  moreover have "take 33 ?frame = ?frame \<and> take 45 (concat ?answer) = concat ?answer \<and> length (concat ?answer) = 45"
    by code_simp
  ultimately have streams: "sent 3 (log ?wc') = sent 3 [] @ ?frame"
    "received 3 (log ?wc') = received 3 [] @ concat ?answer"
    "received 3 (log ?ws') = received 3 [] @ take 33 ?frame" "sent 3 (log ?ws') = sent 3 [] @ concat ?answer"
    "concat ?answer = take 45 (concat ?answer)" "length (concat ?answer) = 45"
    by (simp_all only: prod.inject kernel_simps append_Nil)
  have "log (sim_world ps rs n ss) = []" for ps rs n ss by (simp add: sim_world_def)
  then have "fst ?c = 0"
    using successful_workflow [where S = ?frame and R = "concat ?answer" and m = 33 and A = "concat ?answer"
        and k = 45, OF sim_kernel_ok sim_kernel_ok inv prod.collapse [symmetric] s] streams
    by (simp only: client.simps demo_transport_simps)
  then show ?thesis by (metis prod.collapse)
qed

text \<open>
  Failing sends. On a connected object both send-failure tests pass, with exit code 0, exactly when
  the kernel refused one of the \<open>send\<close> calls made in the test: the error of \<open>Transport::send\<close> goes
  through \<open>PacketIO::send\<close> unchanged, and a \<open>send\<close> that returned 0 or accepted everything fails the test.
\<close>

theorem send_failure_tests:
  assumes "connection_isConnected c"
    "log (snd (transport_failure_send P c w)) = log w @ es"
    "log (snd (packetio_failure_send P c packetio_failure_packet u)) = log u @ es'"
  shows "(fst (transport_failure_send P c w) = 0 \<longleftrightarrow> refused (socket_nativeHandle (conn_socket c)) es) \<and>
    (fst (packetio_failure_send P c packetio_failure_packet u) = 0 \<longleftrightarrow>
       refused (socket_nativeHandle (conn_socket c)) es')"
proof -
  let ?t = "\<lparr>tr_connection = c\<rparr>" and ?fd = "socket_nativeHandle (conn_socket c)"
  have t: "transport_handle ?t = ?fd" "transport_isConnected ?t"
    using assms(1) by (simp_all add: transport_handle_def transport_isConnected_def)
  have send: "\<exists>es. log w' = log v @ es \<and> (e = Error SocketError ''Send failed'' \<longleftrightarrow> refused ?fd es)"
    if "transport_send P ?t bs v = (e, w')" for bs v e w'
    using that t send_loop_refused [of P ?fd bs 0 v e w']
    by (simp add: transport_send_def transport_isConnected_def)
  have whole: "e = Error SocketError ''Send failed'' \<longleftrightarrow> refused ?fd bs"
    if "log w1 = log v @ as" "e = Error SocketError ''Send failed'' \<longleftrightarrow> refused ?fd as"
      "sends_nothing ?fd w1 x" "log x = log v @ bs" for e w1 v as x bs
    using that by (auto simp: sends_nothing_def)
  obtain e w1 where s: "transport_send P ?t [0x50, 0x46, 0x4B, 0x54] w = (e, w1)" by force
  from send [OF s] obtain as where "log w1 = log w @ as" "e = Error SocketError ''Send failed'' \<longleftrightarrow> refused ?fd as"
    by blast
  from whole [OF this transport_failure_send_result(2) [OF s] assms(2)]
  have 1: "fst (transport_failure_send P c w) = 0 \<longleftrightarrow> refused ?fd es"
    using transport_failure_send_result(1) [OF s] by simp
  define v where "v = cout (''Valid HelloRequest packet: PASS'' @ endl) u"
  obtain e' w2 where s': "packetio_send P ?t hello_request v = (e', w2)" by force
  have "transport_send P ?t (wire_header hello_request @ pk_payload hello_request) v = (e', w2)"
    using packetio_send_cases [OF s'] by (auto simp: hello_request_def packet_unfold packet_isValid_iff)
  from send [OF this] obtain as' where
    as': "log w2 = log v @ as'" "e' = Error SocketError ''Send failed'' \<longleftrightarrow> refused ?fd as'" by blast
  note r = packetio_failure_send_result [OF s' [unfolded v_def]]
  have "log w2 = log u @ Out (''Valid HelloRequest packet: PASS'' @ endl) # as'" using as'(1) by (simp add: v_def kernel_simps)
  from whole [OF this _ r(2) assms(3)] as'(2)
  have "fst (packetio_failure_send P c packetio_failure_packet u) = 0 \<longleftrightarrow> refused ?fd es'"
    using r(1) by simp
  with 1 show ?thesis by blast
qed

theorem send_failure_tests_witness:
  "let w = sim_world [] [] 0 []; c = tr_connection demo_transport in
    fst (transport_failure_send (sim_platform Big) c w) = 0 \<and>
    fst (packetio_failure_send (sim_platform Big) c packetio_failure_packet (w\<lparr>log := [Out ''started'']\<rparr>)) = 0"
proof -
  let ?w = "sim_world [] [] 0 []" and ?c = "tr_connection demo_transport"
  let ?u = "?w\<lparr>log := [Out ''started'']\<rparr>"
  let ?es = "drop 0 (log (snd (transport_failure_send (sim_platform Big) ?c ?w)))"
  let ?es' = "drop 1 (log (snd (packetio_failure_send (sim_platform Big) ?c packetio_failure_packet ?u)))"
  have c: "connection_isConnected ?c" by code_simp
  have es: "log (snd (transport_failure_send (sim_platform Big) ?c ?w)) = log ?w @ ?es" by code_simp
  have es': "log (snd (packetio_failure_send (sim_platform Big) ?c packetio_failure_packet ?u)) = log ?u @ ?es'"
    by code_simp
  have r: "refused (socket_nativeHandle (conn_socket ?c)) ?es" "refused (socket_nativeHandle (conn_socket ?c)) ?es'"
    by code_simp+
  show ?thesis unfolding Let_def using send_failure_tests [OF c es es'] r by blast
qed

text \<open>
  Malformed packets. On every machine the decoder refuses the three packets of the test with the
  expected error and message, so the checks pass without a word; and if the connection delivers the
  packet with the invalid magic number, in any pieces, the propagation test through \<open>PacketIO\<close> passes.
\<close>

theorem malformed_packets_rejected:
  assumes "transport_isConnected t"
    "delivers P (transport_handle t) (makeInvalidMagicPacket h @ rest) (kernel w)"
  shows "expectProtocolDecodeError P truncatedHeader PE_InvalidPacket ''Invalid packet size'' u = (True, u) \<and>
    expectProtocolDecodeError P (makeInvalidMagicPacket h) PE_InvalidPacket ''Invalid magic number'' u = (True, u) \<and>
    expectProtocolDecodeError P (makePayloadMismatchPacket h) PE_InvalidPayload ''Payload size mismatch'' u =
      (True, u) \<and>
    fst (propagation_receive P t c w)"
proof -
  let ?p = "makeInvalidMagicPacket h"
  obtain w1 where r: "transport_receive P t [] 16 w = (ok_result, ?p, t, w1)"
    using tstream.get_delivers [OF assms, of 16] by (auto simp: malformed_packets)
  have "readUint32 (native P) ?p 12 = 0"
    by (cases "native P"; simp only: malformed_packets; code_simp)
  then have "packetio_receive P t Packet (Some PE_InvalidPacket) w =
      (Error ProtocolError ''Invalid magic number'', Packet, Some PE_InvalidPacket, t, w1)"
    using r malformed_decodings(2) [of "native P" h]
    by (simp add: packetio_receive_def HEADER_SIZE_def payload_length_read ProtocolDecodeError_def)
  then have "fst (propagation_receive P t c w)"
    by (simp add: propagation_receive_def transport_return_def split: prod.splits)
  then show ?thesis
    by (simp add: expectProtocolDecodeError_def malformed_decodings ProtocolDecodeError_def c_str_def)
qed

theorem malformed_packets_rejected_witness:
  "fst (propagation_receive (sim_platform Big) demo_transport Connection
    (sim_world [] [[0xDE, 0xAD, 0xBE], [0xEF, 1, 0, 0, 1, 0, 0, 0, 1], [0, 0, 0, 0]] 0 []))"
proof -
  let ?k = "kernel (sim_world [] [[0xDE, 0xAD, 0xBE], [0xEF, 1, 0, 0, 1, 0, 0, 0, 1], [0, 0, 0, 0]] 0 [])"
  have "concat (inbox ?k) = makeInvalidMagicPacket Little @ []"
    unfolding malformed_packets by code_simp
  then have "delivers (sim_platform Big) (transport_handle demo_transport) (makeInvalidMagicPacket Little @ []) ?k"
    using sim_delivers [of ?k Big "transport_handle demo_transport"] by (simp add: sim_world_def)
  from malformed_packets_rejected [OF demo_transport_simps(2) this] show ?thesis by blast
qed

end
