(* ===== verification/Unit_Tests.thy ===== *)
theory Unit_Tests
  imports Byte_Buffer Logging Config_Loader Server_Main Client_Main Loopback_Clients
begin

text \<open>
  The expectations of the repository's own tests, on the model: the unit tests under
  \<open>src/PacketForge_V1/tests/unit/\<close> that do not depend on what a kernel answers, and the two programs
  \<open>tests/test_accept_failure.cpp\<close> and \<open>tests/test_accept_exit_code.cpp\<close>. A test file is a list with one
  entry per \<open>TEST\<close>, in the order of the file, that says whether all of its expectations hold; a call
  whose exception the test does not expect fails it. Tests that copy or move a configuration value are
  left out, since a value of HOL is its own copy. The tests of the codec run on a machine of either
  byte order, those of the network classes on every kernel.
\<close>

section \<open>The framework\<close>

definition expect :: "'e + 'a \<Rightarrow> ('a \<Rightarrow> bool) \<Rightarrow> bool" where
  "expect r f = (case r of Inl _ \<Rightarrow> False | Inr v \<Rightarrow> f v)"

definition throws :: "'e + 'a \<Rightarrow> bool" where
  "throws r = (case r of Inl _ \<Rightarrow> True | Inr _ \<Rightarrow> False)"

definition all_pass :: "bool list \<Rightarrow> bool" where
  "all_pass results = list_all id results"

section \<open>The common classes and the protocol\<close>

definition endian_tests :: "endianness \<Rightarrow> bool list" where
  "endian_tests h =
     [hostEndianness h = Little \<or> hostEndianness h = Big,
      networkToHost16 h (hostToNetwork16 h 0x1234) = 0x1234,
      networkToHost32 h (hostToNetwork32 h 0x12345678) = 0x12345678,
      networkToHost64 h (hostToNetwork64 h 0x1122334455667788) = 0x1122334455667788]"

definition error_tests :: "bool list" where
  "error_tests =
     [(let e = Error SocketError ''socket creation failed''
       in error_code e = SocketError \<and> error_message e = ''socket creation failed'' \<and> \<not> error_ok e),
      error_ok (Error Success ''''),
      (let e = Error InvalidPacket ''Malformed packet received''
       in error_code e = InvalidPacket \<and> error_message e = ''Malformed packet received''),
      (let e = Error UnknownError ''unknown failure'' in error_code e \<noteq> Success \<and> \<not> error_ok e)]"

definition buffer_tests :: "bool list" where
  "buffer_tests =
     [expect (buffer_write [10, 20, 30] Buffer)
        (\<lambda>b. buffer_size b = 3 \<and> fst (buffer_read 3 b) = Some [10, 20, 30]),
      expect (buffer_write [1, 2] Buffer) (\<lambda>b. fst (buffer_read 5 b) = None),
      expect (buffer_write [1, 2, 3] Buffer)
        (\<lambda>b. buffer_size (buffer_clear b) = 0 \<and> buffer_readableSize (buffer_clear b) = 0)]"

definition logger_tests :: "bool list" where
  "logger_tests =
     (let w = sim_world [] [] 0 [] in
      [log (logger_info ''Server started'' w) = [Out (''[INFO] Server started'' @ endl)],
       log (logger_debug ''Packet received'' w) = [Out (''[DEBUG] Packet received'' @ endl)],
       log (logger_warning ''Connection is slow'' w) = [Out (''[WARNING] Connection is slow'' @ endl)],
       log (logger_error ''Socket creation failed'' w) = [Err (''[ERROR] Socket creation failed'' @ endl)],
       log (logger_info '''' w) = [Out (''[INFO] '' @ endl)]])"

definition packet_tests :: "bool list" where
  "packet_tests =
     [packet_isValid Packet \<and> packet_magicNumber Packet = MagicNumber,
      packet_version Packet = 1,
      packet_version (packet_setVersion 2 Packet) = 2,
      packet_flags (packet_setFlags 0xAA Packet) = 0xAA,
      packet_opcode (packet_setOpcode 100 Packet) = 100,
      packet_sequenceId (packet_setSequenceId 500 Packet) = 500,
      packet_payload Packet = [] \<and> packet_payloadLength Packet = 0,
      (let p = packet_setPayload [10, 20, 30, 40] Packet
       in packet_payloadLength p = 4 \<and> packet_payload p = [10, 20, 30, 40]),
      packet_payloadLength (packet_setPayload [1, 2, 3, 4, 5] Packet) = 5]"

definition encoder_tests :: "endianness \<Rightarrow> bool list" where
  "encoder_tests h =
     [expect (encode h Packet) (\<lambda>bs. length bs = HEADER_SIZE),
      expect (encode h (packet_setPayload [1, 2, 3, 4] Packet)) (\<lambda>bs. length bs = HEADER_SIZE + 4),
      expect (encode h Packet) (\<lambda>bs. networkToHost32 h (load_native h (take 4 bs)) = MagicNumber),
      expect (encode h Packet) (\<lambda>bs. bs ! 4 = VERSION),
      (let p = packet_setVersion 2 Packet in \<not> packet_isValid p \<and> throws (encode h p)),
      expect (encode h (packet_setFlags 0xAA Packet)) (\<lambda>bs. bs ! 5 = 0xAA),
      expect (encode h (packet_setPayload [10, 20, 30] Packet))
        (\<lambda>bs. bs ! HEADER_SIZE = 10 \<and> bs ! (HEADER_SIZE + 1) = 20 \<and> bs ! (HEADER_SIZE + 2) = 30),
      expect (encode h (packet_setOpcode 0x1234 Packet))
        (\<lambda>bs. networkToHost16 h (load_native h (take 2 (drop 6 bs))) = 0x1234),
      expect (encode h (packet_setSequenceId 0x12345678 Packet))
        (\<lambda>bs. networkToHost32 h (load_native h (take 4 (drop 8 bs))) = 0x12345678),
      expect (encode h (packet_setPayload [10, 20, 30, 40, 50] Packet))
        (\<lambda>bs. networkToHost32 h (load_native h (take 4 (drop 12 bs))) = 5),
      expect (encode h (packet_setPayload [1, 2, 3, 4] (packet_setSequenceId 0x12345678
          (packet_setOpcode 0x1234 (packet_setFlags 0xAA Packet)))))
        (\<lambda>bs. length bs = HEADER_SIZE + 4)]"

definition decoder_tests :: "endianness \<Rightarrow> bool list" where
  "decoder_tests h =
     [expect (encode h Packet) (\<lambda>bs. expect (decode h bs)
        (\<lambda>p. packet_magicNumber p = MagicNumber \<and> packet_version p = 1)),
      (let payload = bytes_of_string ''HELLO''
       in expect (encode h (packet_setPayload payload Packet))
            (\<lambda>bs. expect (decode h bs) (\<lambda>p. packet_payload p = payload))),
      throws (decode h [0, 0, 0, 0, 1, 0, 0, 1, 0, 0, 0, 1, 0, 0, 0, 0]),
      expect (encode h Packet) (\<lambda>bs. throws (decode h (bs[15 := 10])))]"

section \<open>The configuration\<close>

definition config_value_tests :: "bool list" where
  "config_value_tests =
     (let only_string = (\<lambda>v. configvalue_isString v \<and> \<not> configvalue_isInteger v \<and> \<not> configvalue_isBoolean v);
          only_integer = (\<lambda>v. \<not> configvalue_isString v \<and> configvalue_isInteger v \<and> \<not> configvalue_isBoolean v);
          only_boolean = (\<lambda>v. \<not> configvalue_isString v \<and> \<not> configvalue_isInteger v \<and> configvalue_isBoolean v)
      in [only_string ConfigValue \<and> configvalue_asString ConfigValue = Inr '''',
          only_string (VString ''127.0.0.1'') \<and> configvalue_asString (VString ''127.0.0.1'') = Inr ''127.0.0.1'',
          configvalue_isString (VString ''localhost'') \<and> configvalue_asString (VString ''localhost'') = Inr ''localhost'',
          only_integer (VInteger 9000) \<and> configvalue_asInteger (VInteger 9000) = Inr 9000,
          only_boolean (VBoolean True) \<and> configvalue_asBoolean (VBoolean True) = Inr True,
          only_string (VString ''packetforge''),
          only_integer (VInteger 42),
          only_boolean (VBoolean False),
          configvalue_asString (VString ''127.0.0.1'') = Inr ''127.0.0.1'',
          configvalue_asInteger (VInteger 65535) = Inr 65535,
          configvalue_asBoolean (VBoolean True) = Inr True \<and> configvalue_asBoolean (VBoolean False) = Inr False,
          throws (configvalue_asString (VInteger 9000)),
          throws (configvalue_asInteger (VString ''9000'')),
          throws (configvalue_asBoolean (VString ''true''))])"

definition config_tests :: "bool list" where
  "config_tests =
     (let port = config_set ''server.port'' (VInteger 8080) Config;
          host = config_set ''server.host'' (VString ''127.0.0.1'') Config;
          enabled = config_set ''server.enabled'' (VBoolean True) Config;
          three = config_set ''server.enabled'' (VBoolean True)
            (config_set ''server.port'' (VInteger 8080) host)
      in [\<not> config_contains Config ''server.port'' \<and> config_get Config ''server.port'' = None,
          \<not> config_contains Config ''missing'',
          config_contains port ''server.port'',
          config_contains host ''server.host'',
          config_contains port ''server.port'',
          config_contains enabled ''server.enabled'',
          map_option configvalue_asString (config_get host ''server.host'') = Some (Inr ''127.0.0.1''),
          map_option configvalue_asInteger (config_get port ''server.port'') = Some (Inr 8080),
          map_option configvalue_asBoolean (config_get enabled ''server.enabled'') = Some (Inr True),
          config_get Config ''missing'' = None,
          map_option configvalue_asInteger
            (config_get (config_set ''server.port'' (VInteger 9090) port) ''server.port'') = Some (Inr 9090),
          map_option configvalue_asString
            (config_get (config_set ''server.value'' (VString ''updated'')
              (config_set ''server.value'' (VInteger 100) Config)) ''server.value'') = Some (Inr ''updated''),
          map_option configvalue_asString (config_get three ''server.host'') = Some (Inr ''127.0.0.1'') \<and>
            map_option configvalue_asInteger (config_get three ''server.port'') = Some (Inr 8080) \<and>
            map_option configvalue_asBoolean (config_get three ''server.enabled'') = Some (Inr True),
          list_all (\<lambda>key. \<not> config_contains (config_clear three) key \<and> config_get (config_clear three) key = None)
            [''server.host'', ''server.port'', ''server.enabled''],
          config_get (config_clear Config) ''missing'' = None,
          (let c = config_set ''client.port'' (VInteger 9090) port
           in map_option configvalue_asInteger (config_get c ''server.port'') = Some (Inr 8080) \<and>
              map_option configvalue_asInteger (config_get c ''client.port'') = Some (Inr 9090))])"

text \<open>\<open>load(testFile)\<close> after \<open>writeConfig(contents)\<close>.\<close>

definition load_written :: "string \<Rightarrow> std_exception + config" where
  "load_written contents =
     load (\<lambda>path. if path = ''build/test_config_loader.conf'' then Some contents else None)
       ''build/test_config_loader.conf''"

definition config_loader_tests :: "bool list" where
  "config_loader_tests =
     (let has = (\<lambda>c key v. config_contains c key \<and> config_get c key = Some v)
      in [True,
          expect (load_written '''') (\<lambda>c. \<not> config_contains c ''anything''),
          expect (load_written (''name = packetforge'' @ endl)) (\<lambda>c. has c ''name'' (VString ''packetforge'')),
          expect (load_written (''port = 8080'' @ endl)) (\<lambda>c. has c ''port'' (VInteger 8080)),
          expect (load_written (''enabled = true'' @ endl)) (\<lambda>c. has c ''enabled'' (VBoolean True)),
          expect (load_written (''enabled = false'' @ endl)) (\<lambda>c. has c ''enabled'' (VBoolean False)),
          expect (load_written (''name = packetforge'' @ endl @ ''port = 8080'' @ endl @ ''enabled = true'' @ endl))
            (\<lambda>c. has c ''name'' (VString ''packetforge'') \<and> has c ''port'' (VInteger 8080) \<and>
              has c ''enabled'' (VBoolean True)),
          expect (load_written (''   port   =   8080   '' @ endl)) (\<lambda>c. has c ''port'' (VInteger 8080)),
          expect (load_written (endl @ endl @ ''port = 8080'' @ endl @ endl)) (\<lambda>c. has c ''port'' (VInteger 8080)),
          expect (load_written (''# PacketForge configuration'' @ endl @ ''port = 8080'' @ endl @
              ''# another comment'' @ endl))
            (\<lambda>c. has c ''port'' (VInteger 8080) \<and> \<not> config_contains c ''# PacketForge configuration''),
          expect (load_written (''timeout = -10'' @ endl)) (\<lambda>c. has c ''timeout'' (VInteger (- 10))),
          throws (load (\<lambda>path. None) ''build/does_not_exist.conf''),
          throws (load_written (''this is not valid configuration'' @ endl)),
          throws (load_written (''= value'' @ endl)),
          throws (load_written (''port ='' @ endl))])"

section \<open>The network classes, before any system call\<close>

definition transport_tests :: "'w platform \<Rightarrow> 'w world \<Rightarrow> bool list" where
  "transport_tests P w =
     [\<not> transport_isConnected Transport,
      error_code (fst (transport_send P Transport [1, 2, 3] w)) = ConnectionFailed,
      error_code (fst (transport_receive P Transport [] 10 w)) = ConnectionFailed,
      \<not> transport_isConnected (fst (transport_move Transport)),
      \<not> transport_isConnected (fst (transport_assign False P Transport Transport w))]"

definition client_tests :: "'w platform \<Rightarrow> 'w world \<Rightarrow> bool list" where
  "client_tests P w =
     [\<not> client_isConnected Client,
      \<not> client_isConnected (fst (client_disconnect P Client w)),
      \<not> error_ok (fst (client_send P Client Packet w)),
      \<not> client_isConnected (fst (client_move Client)),
      \<not> client_isConnected (fst (client_assign False P Client Client w))]"

text \<open>Of the tests of sockets, connections and servers, those that make no system call.\<close>

definition SocketStartsClosed :: bool where
  "SocketStartsClosed \<longleftrightarrow> \<not> socket_isOpen Socket \<and> socket_nativeHandle Socket = -1"

definition ListenWithoutSocketFails :: "'w platform \<Rightarrow> 'w world \<Rightarrow> bool" where
  "ListenWithoutSocketFails P w \<longleftrightarrow>
     \<not> socket_isOpen Socket \<and>
     (let error = fst (socket_listen P Socket 5 w) in \<not> error_ok error \<and> error_code error = SocketError)"

definition ConnectionStartsDisconnected :: bool where
  "ConnectionStartsDisconnected \<longleftrightarrow>
     \<not> connection_isConnected Connection \<and> \<not> socket_isOpen (conn_socket Connection)"

definition AcceptFailsWithoutListeningSocket :: "'w platform \<Rightarrow> 'w world \<Rightarrow> bool" where
  "AcceptFailsWithoutListeningSocket P w \<longleftrightarrow>
     (case connection_accept P Connection Socket w of (error, connection, _) \<Rightarrow>
        \<not> error_ok error \<and> error_code error = SocketError \<and> \<not> connection_isConnected connection \<and>
        \<not> socket_isOpen (conn_socket connection))"

definition ServerStartsStopped :: bool where
  "ServerStartsStopped \<longleftrightarrow> \<not> server_isRunning Server \<and> server_port Server = 0"

definition AcceptFailsWhenServerIsStopped :: "'w platform \<Rightarrow> 'w world \<Rightarrow> bool" where
  "AcceptFailsWhenServerIsStopped P w \<longleftrightarrow>
     (case server_accept P Server Connection w of (error, connection, _) \<Rightarrow>
        \<not> error_ok error \<and> error_code error = ConnectionFailed \<and> \<not> connection_isConnected connection)"

lemmas closed_tests_def = SocketStartsClosed_def ListenWithoutSocketFails_def
  ConnectionStartsDisconnected_def AcceptFailsWithoutListeningSocket_def ServerStartsStopped_def
  AcceptFailsWhenServerIsStopped_def

section \<open>Two test programs\<close>

text \<open>\<open>return code;\<close> with a connection and the listening socket declared before it.\<close>

definition accept_leave :: "'w platform \<Rightarrow> connection \<Rightarrow> socket \<Rightarrow> int \<Rightarrow> 'w world \<Rightarrow> int \<times> 'w world" where
  "accept_leave P connection listeningSocket code w =
     (code, socket_destroy P listeningSocket (connection_destroy P connection w))"

definition test_accept_failure :: "'w platform \<Rightarrow> 'w world \<Rightarrow> int \<times> 'w world" where
  "test_accept_failure P w =
     (let w1 = cout (''GAP-003.2 Accept Failure Test'' @ endl @ ''--------------------------------'' @ endl) w in
      let w2 = cout (''Listening socket state: '' @ (if socket_isOpen Socket then ''OPEN'' else ''CLOSED'') @ endl) w1 in
      case connection_accept P Connection Socket w2 of (acceptError, connection, w3) \<Rightarrow>
        if error_ok acceptError
        then (let w4 = cerr (''FAIL: accept() unexpectedly succeeded'' @ endl) w3
              in accept_leave P connection Socket 1 w4)
        else
          (let w4 = cout (''Accept failure detected successfully'' @ endl @ ''Error code: '' @
                 to_string (error_code_value (error_code acceptError)) @ endl @ ''Error message: '' @
                 error_message acceptError @ endl) w3 in
           if error_message acceptError \<noteq> ''Listening socket is not open''
           then (let w5 = cerr (''FAIL: unexpected error message'' @ endl) w4
                 in accept_leave P connection Socket 1 w5)
           else if connection_isConnected connection
           then (let w5 = cerr (''FAIL: connection state changed unexpectedly'' @ endl) w4
                 in accept_leave P connection Socket 1 w5)
           else (let w5 = cout (''Connection state: '' @
                        connection_state (connection_isConnected connection) @ endl) w4 in
                 let w6 = cout (''GAP-003.2 PASS'' @ endl) w5
                 in accept_leave P connection Socket 0 w6)))"

definition test_accept_exit_code :: "'w platform \<Rightarrow> 'w world \<Rightarrow> int \<times> 'w world" where
  "test_accept_exit_code P w =
     (let w1 = cout (''GAP-003.9.5 Accept Failure Exit-Code Test'' @ endl @
            ''-------------------------------------------'' @ endl) w in
      let w2 = cout (''Listening socket state: '' @ (if socket_isOpen Socket then ''OPEN'' else ''CLOSED'') @ endl) w1 in
      case connection_accept P Connection Socket w2 of (acceptError, connection, w3) \<Rightarrow>
        if error_ok acceptError
        then (let w4 = cerr (''FAIL: accept() unexpectedly succeeded'' @ endl) w3
              in accept_leave P connection Socket 2 w4)
        else
          (let w4 = cerr (''Accept failure detected: '' @ error_message acceptError @ endl) w3 in
           let w5 = cout (''Expected fatal-error exit code: '' @ to_string 1 @ endl) w4 in
           let w6 = cout (''Connection state after failure: '' @
                  connection_state (connection_isConnected connection) @ endl) w5
           in accept_leave P connection Socket 1 w6))"

section \<open>The tests pass\<close>

lemmas framework = all_pass_def expect_def throws_def Let_def

text \<open>What the operations do on objects that own nothing.\<close>

lemmas closed_operations = socket_defs connection_defs transport_defs client_defs server_defs
  socket_nativeHandle_def socket_listen_def connection_accept_def server_accept_def server_isRunning_def
  server_port_def transport_isConnected_def transport_send_def transport_receive_def transport_move_def
  transport_assign_def client_send_def client_move_def client_assign_def client_disconnect_def
  transport_disconnect_def connection_move_def connection_assign_def connection_disconnect_def
  socket_move_def socket_assign_def

lemma buffer_tests_pass: "all_pass buffer_tests"
  by (simp add: buffer_tests_def framework Buffer_def buffer_write_def buffer_size_def buffer_read_def
      buffer_readableSize_def buffer_clear_def vector_max_size_def)

lemma codec_tests_pass: "all_pass (endian_tests h @ encoder_tests h @ decoder_tests h)"
proof -
  have "all_pass (endian_tests Little @ encoder_tests Little @ decoder_tests Little)"
    "all_pass (endian_tests Big @ encoder_tests Big @ decoder_tests Big)" by code_simp+
  then show ?thesis by (cases h) simp_all
qed

theorem unit_tests_pass:
  "all_pass (endian_tests h @ encoder_tests h @ decoder_tests h) \<and> all_pass error_tests \<and>
   all_pass buffer_tests \<and> all_pass logger_tests \<and> all_pass packet_tests \<and> all_pass config_value_tests \<and>
   all_pass config_tests \<and> all_pass config_loader_tests \<and>
   all_pass (transport_tests P w @ client_tests P w) \<and>
   SocketStartsClosed \<and> ListenWithoutSocketFails P w \<and> ConnectionStartsDisconnected \<and>
   AcceptFailsWithoutListeningSocket P w \<and> ServerStartsStopped \<and> AcceptFailsWhenServerIsStopped P w"
proof (intro conjI codec_tests_pass buffer_tests_pass)
  show "all_pass (transport_tests P w @ client_tests P w)"
    by (simp add: framework transport_tests_def client_tests_def closed_operations)
  show SocketStartsClosed "ListenWithoutSocketFails P w" ConnectionStartsDisconnected
    "AcceptFailsWithoutListeningSocket P w" ServerStartsStopped "AcceptFailsWhenServerIsStopped P w"
    by (simp_all add: framework closed_tests_def closed_operations)
qed code_simp+

text \<open>The two programs make no system call, on any kernel, and end with the exit code they announce.\<close>

theorem test_programs_pass:
  "\<exists>es. log (snd (test_accept_failure P w)) = log w @ es \<and> (\<forall>e \<in> set es. \<exists>s. e = Out s) \<and>
    fst (test_accept_failure P w) = 0"
  "\<exists>es. log (snd (test_accept_exit_code P w)) = log w @ es \<and> (\<forall>e \<in> set es. \<exists>s. e = Out s \<or> e = Err s) \<and>
    fst (test_accept_exit_code P w) = 1"
  by (simp_all add: test_accept_failure_def test_accept_exit_code_def accept_leave_def Let_def closed_operations
      connection_destroy_def socket_destroy_def kernel_simps)

end
