(* ===== verification/Network_Tests.thy ===== *)
theory Network_Tests
  imports Servers Transports
begin

text \<open>
  The unit tests of sockets, connections and servers that use one thread and the loopback interface
  (\<open>tests/unit/test_socket.cpp\<close>, \<open>test_connection.cpp\<close>, \<open>test_server.cpp\<close>), and the program
  \<open>tests/test_receive_exit_code.cpp\<close>. A test takes the world and returns whether all its expectations
  held, with the world after the destructors of its objects; a failed \<open>ASSERT\<close> returns at once. What a
  test relies on is what the kernel answers, and that is read off the log: \<open>kernel_cooperates\<close>.
\<close>

section \<open>What the tests expect of the kernel\<close>

text \<open>
  POSIX lets most of these calls fail for want of resources, and a test of a call that succeeds can
  pass only where it does not. \<open>kernel_cooperates\<close> says, against the events of the test so far, which
  answers that takes, and no more: \<open>socket\<close> gives out a descriptor that is not in use; \<open>setsockopt\<close>,
  \<open>bind\<close> to an ephemeral port, \<open>listen\<close> on a socket bound so and \<open>getsockname\<close> of one succeed, and a
  port has been chosen then; \<open>connect\<close> succeeds to the address and port of an open listening socket and
  fails to port 0; \<open>accept\<close> gives out an unused descriptor on an open listening socket and fails on any
  other; \<open>recv\<close> fails on descriptor -1 and \<open>fcntl\<close> on one that is not open. Nothing is asked of any other
  call, a \<open>bind\<close> to a given port or a \<open>connect\<close> to a port nobody listens on, for example.
\<close>

definition unused_descriptor :: "event list \<Rightarrow> int \<Rightarrow> bool" where
  "unused_descriptor before fd \<longleftrightarrow>
     (case held {#} before of None \<Rightarrow> False | Some H \<Rightarrow> 0 \<le> fd \<and> fd \<notin># H)"

definition open_descriptor :: "event list \<Rightarrow> int \<Rightarrow> bool" where
  "open_descriptor before fd \<longleftrightarrow>
     (case held {#} before of None \<Rightarrow> False | Some H \<Rightarrow> fd \<in># H)"

text \<open>What earlier events tell of a socket: its address, its port, that it listens.\<close>

fun bound_to :: "int \<Rightarrow> u32 \<Rightarrow> event \<Rightarrow> bool" where
  "bound_to fd addr (Sys (SysBind f a) r) \<longleftrightarrow> f = fd \<and> sin_addr a = addr \<and> ret r = 0"
| "bound_to fd addr _ \<longleftrightarrow> False"

fun is_bound :: "int \<Rightarrow> event \<Rightarrow> bool" where
  "is_bound fd (Sys (SysBind f a) r) \<longleftrightarrow> f = fd \<and> ret r = 0"
| "is_bound fd _ \<longleftrightarrow> False"

fun has_port :: "int \<Rightarrow> u16 \<Rightarrow> event \<Rightarrow> bool" where
  "has_port fd p (Sys (SysGetsockname f) r) \<longleftrightarrow> f = fd \<and> ret r = 0 \<and> stored_port r = p"
| "has_port fd p _ \<longleftrightarrow> False"

fun listens :: "int \<Rightarrow> event \<Rightarrow> bool" where
  "listens fd (Sys (SysListen f n) r) \<longleftrightarrow> f = fd \<and> ret r = 0"
| "listens fd _ \<longleftrightarrow> False"

fun listens_at :: "event list \<Rightarrow> sockaddr_in \<Rightarrow> event \<Rightarrow> bool" where
  "listens_at before a (Sys (SysListen fd n) r) \<longleftrightarrow> ret r = 0 \<and> open_descriptor before fd \<and>
     list_ex (bound_to fd (sin_addr a)) before \<and> list_ex (has_port fd (sin_port a)) before"
| "listens_at before a _ \<longleftrightarrow> False"

fun cooperates :: "event list \<Rightarrow> event \<Rightarrow> bool" where
  "cooperates before (Sys SysSocket r) \<longleftrightarrow> unused_descriptor before (ret r)"
| "cooperates before (Sys (SysSetReuseAddr fd) r) \<longleftrightarrow> (open_descriptor before fd \<longrightarrow> ret r = 0)"
| "cooperates before (Sys (SysBind fd a) r) \<longleftrightarrow> (open_descriptor before fd \<and> sin_port a = 0 \<longrightarrow> ret r = 0)"
| "cooperates before (Sys (SysListen fd n) r) \<longleftrightarrow>
     (open_descriptor before fd \<and> list_ex (is_bound fd) before \<longrightarrow> ret r = 0)"
| "cooperates before (Sys (SysGetsockname fd) r) \<longleftrightarrow>
     (open_descriptor before fd \<and> list_ex (is_bound fd) before \<longrightarrow> ret r = 0 \<and> stored_port r \<noteq> 0)"
| "cooperates before (Sys (SysConnect fd a) r) \<longleftrightarrow>
     (if sin_port a = 0 then ret r < 0 else list_ex (listens_at before a) before \<longrightarrow> ret r = 0)"
| "cooperates before (Sys (SysAccept fd) r) \<longleftrightarrow>
     (if open_descriptor before fd \<and> list_ex (listens fd) before then unused_descriptor before (ret r)
      else ret r < 0)"
| "cooperates before (Sys (SysRecv fd n) r) \<longleftrightarrow> (fd = -1 \<longrightarrow> ret r < 0)"
| "cooperates before (Sys (SysGetfd fd) r) \<longleftrightarrow> (\<not> open_descriptor before fd \<longrightarrow> ret r = -1)"
| "cooperates before _ \<longleftrightarrow> True"

fun kernel_cooperates :: "event list \<Rightarrow> event list \<Rightarrow> bool" where
  "kernel_cooperates before [] \<longleftrightarrow> True"
| "kernel_cooperates before (e # es) \<longleftrightarrow> cooperates before e \<and> kernel_cooperates (before @ [e]) es"

text \<open>\<open>inet_pton\<close> accepts the loopback address and no word and no number above 255.\<close>

definition inet_pton_ok :: "'w platform \<Rightarrow> bool" where
  "inet_pton_ok P \<longleftrightarrow> inet_pton P ''127.0.0.1'' = Some (htonl (native P) 0x7F000001) \<and>
     inet_pton P ''invalid-ip'' = None \<and> inet_pton P ''256.256.256.256'' = None"

section \<open>Leaving a test\<close>

text \<open>The end of a test: the destructors of its objects, in the given order, and its result.\<close>

definition leave :: "'w platform \<Rightarrow> socket list \<Rightarrow> 'r \<Rightarrow> 'w world \<Rightarrow> 'r \<times> 'w world" where
  "leave P sockets result w = (result, fold (socket_destroy P) sockets w)"

definition leave_connections ::
    "'w platform \<Rightarrow> connection list \<Rightarrow> 'r \<Rightarrow> 'w world \<Rightarrow> 'r \<times> 'w world" where
  "leave_connections P connections result w = (result, fold (connection_destroy P) connections w)"

definition leave_servers :: "'w platform \<Rightarrow> server list \<Rightarrow> bool \<Rightarrow> 'w world \<Rightarrow> bool \<times> 'w world" where
  "leave_servers P servers result w = (result, fold (server_destroy P) servers w)"

section \<open>Sockets\<close>

definition CreatesSocketSuccessfully :: "'w platform \<Rightarrow> 'w world \<Rightarrow> bool \<times> 'w world" where
  "CreatesSocketSuccessfully P w =
     (case socket_create P Socket w of (error, socket, w1) \<Rightarrow>
        leave P [socket] (error_ok error \<and> error_code error = Success \<and> socket_isOpen socket \<and> socket_nativeHandle socket \<noteq> -1) w1)"

definition CloseReleasesSocket :: "'w platform \<Rightarrow> 'w world \<Rightarrow> bool \<times> 'w world" where
  "CloseReleasesSocket P w =
     (case socket_create P Socket w of (error, socket, w1) \<Rightarrow>
        if \<not> error_ok error then leave P [socket] False w1
        else if \<not> socket_isOpen socket then leave P [socket] False w1
        else (case socket_close P socket w1 of (socket1, w2) \<Rightarrow>
          leave P [socket1] (\<not> socket_isOpen socket1 \<and> socket_nativeHandle socket1 = -1) w2))"

definition ClosingMultipleTimesIsSafe :: "'w platform \<Rightarrow> 'w world \<Rightarrow> bool \<times> 'w world" where
  "ClosingMultipleTimesIsSafe P w =
     (case socket_create P Socket w of (error, socket, w1) \<Rightarrow>
        if \<not> error_ok error then leave P [socket] False w1
        else (case socket_close P socket w1 of (socket1, w2) \<Rightarrow>
          case socket_close P socket1 w2 of (socket2, w3) \<Rightarrow>
          case socket_close P socket2 w3 of (socket3, w4) \<Rightarrow>
          leave P [socket3] (\<not> socket_isOpen socket3 \<and> socket_nativeHandle socket3 = -1) w4))"

definition DestructorClosesAutomatically :: "'w platform \<Rightarrow> 'w world \<Rightarrow> bool \<times> 'w world" where
  "DestructorClosesAutomatically P w =
     (case socket_create P Socket w of (error, socket, w1) \<Rightarrow>
        if \<not> error_ok error then leave P [socket] False w1
        else (let fd = socket_nativeHandle socket in
              let w2 = socket_destroy P socket w1 in
              case syscall P (SysGetfd fd) w2 of (r, w3) \<Rightarrow> (fd \<noteq> -1 \<and> ret r = -1, w3)))"

definition Socket_MoveConstructorTransfersOwnership :: "'w platform \<Rightarrow> 'w world \<Rightarrow> bool \<times> 'w world" where
  "Socket_MoveConstructorTransfersOwnership P w =
     (case socket_create P Socket w of (error, first, w1) \<Rightarrow>
        if \<not> error_ok error then leave P [first] False w1
        else (let originalFd = socket_nativeHandle first in
          case socket_move first of (second, first1) \<Rightarrow>
          leave P [second, first1]
          (\<not> socket_isOpen first1 \<and> socket_nativeHandle first1 = -1 \<and>
             socket_isOpen second \<and> socket_nativeHandle second = originalFd) w1))"

definition Socket_MoveAssignmentTransfersOwnership :: "'w platform \<Rightarrow> 'w world \<Rightarrow> bool \<times> 'w world" where
  "Socket_MoveAssignmentTransfersOwnership P w =
     (case socket_create P Socket w of (error, first, w1) \<Rightarrow>
        if \<not> error_ok error then leave P [Socket, first] False w1
        else (case socket_create P Socket w1 of (error2, second, w2) \<Rightarrow>
          if \<not> error_ok error2 then leave P [second, first] False w2
          else (let firstFd = socket_nativeHandle first in
            case socket_assign False P second first w2 of (second1, first1, w3) \<Rightarrow>
            leave P [second1, first1]
          (\<not> socket_isOpen first1 \<and> socket_nativeHandle first1 = -1 \<and>
               socket_isOpen second1 \<and> socket_nativeHandle second1 = firstFd) w3)))"

definition BindSucceeds :: "'w platform \<Rightarrow> 'w world \<Rightarrow> bool \<times> 'w world" where
  "BindSucceeds P w =
     (case socket_create P Socket w of (error, socket, w1) \<Rightarrow>
        if \<not> error_ok error then leave P [socket] False w1
        else (case socket_bind P socket ''127.0.0.1'' 0 w1 of (error1, socket1, w2) \<Rightarrow>
          leave P [socket1] (error_ok error1 \<and> error_code error1 = Success \<and> socket_isOpen socket1) w2))"

definition BindInvalidAddressFails :: "'w platform \<Rightarrow> 'w world \<Rightarrow> bool \<times> 'w world" where
  "BindInvalidAddressFails P w =
     (case socket_create P Socket w of (error, socket, w1) \<Rightarrow>
        if \<not> error_ok error then leave P [socket] False w1
        else (case socket_bind P socket ''256.256.256.256'' 9000 w1 of (error1, socket1, w2) \<Rightarrow>
          leave P [socket1] (\<not> error_ok error1 \<and> error_code error1 = InvalidArgument) w2))"

definition BindInvalidPortFails :: "'w platform \<Rightarrow> 'w world \<Rightarrow> bool \<times> 'w world" where
  "BindInvalidPortFails P w =
     (case socket_create P Socket w of (error, socket, w1) \<Rightarrow>
        if \<not> error_ok error then leave P [socket] False w1
        else (case socket_bind P socket ''127.0.0.1'' 0 w1 of (error1, socket1, w2) \<Rightarrow>
          leave P [socket1] (error_ok error1) w2))"

definition ListenSucceeds :: "'w platform \<Rightarrow> 'w world \<Rightarrow> bool \<times> 'w world" where
  "ListenSucceeds P w =
     (case socket_create P Socket w of (error, socket, w1) \<Rightarrow>
        if \<not> error_ok error then leave P [socket] False w1
        else (case socket_bind P socket ''127.0.0.1'' 0 w1 of (error1, socket1, w2) \<Rightarrow>
          if \<not> error_ok error1 then leave P [socket1] False w2
          else (case socket_listen P socket1 5 w2 of (error2, w3) \<Rightarrow>
            leave P [socket1] (error_ok error2 \<and> error_code error2 = Success) w3)))"

definition ListenWithInvalidBacklogFails :: "'w platform \<Rightarrow> 'w world \<Rightarrow> bool \<times> 'w world" where
  "ListenWithInvalidBacklogFails P w =
     (case socket_create P Socket w of (error, socket, w1) \<Rightarrow>
        if \<not> error_ok error then leave P [socket] False w1
        else (case socket_bind P socket ''127.0.0.1'' 0 w1 of (error1, socket1, w2) \<Rightarrow>
          if \<not> error_ok error1 then leave P [socket1] False w2
          else (case socket_listen P socket1 (-1) w2 of (error2, w3) \<Rightarrow>
            leave P [socket1] (\<not> error_ok error2) w3)))"

definition AcceptWithoutListeningFails :: "'w platform \<Rightarrow> 'w world \<Rightarrow> bool \<times> 'w world" where
  "AcceptWithoutListeningFails P w =
     (case socket_create P Socket w of (error, server, w1) \<Rightarrow>
        if \<not> error_ok error then leave P [Socket, server] False w1
        else (case socket_accept P server Socket w1 of (error1, client, w2) \<Rightarrow>
          leave P [client, server]
          (\<not> error_ok error1 \<and> error_code error1 = SocketError) w2))"

text \<open>\<open>getBoundPort\<close>: whether its expectation held, and the port; the address is zero before the call.\<close>

definition getBoundPort :: "'w platform \<Rightarrow> int \<Rightarrow> 'w world \<Rightarrow> bool \<times> u16 \<times> 'w world" where
  "getBoundPort P socketFd w =
     (case syscall P (SysGetsockname socketFd) w of (r, w1) \<Rightarrow>
        (ret r = 0, ntohs (native P) (if ret r = 0 then stored_port r else 0), w1))"

text \<open>
  What the last two tests share: a socket that listens on the loopback interface and a client
  connected to it by the system calls themselves, whose descriptor a failed \<open>ASSERT\<close> does not close.
\<close>

definition connect_raw_client ::
    "'w platform \<Rightarrow> socket \<Rightarrow> u16 \<Rightarrow> (int \<Rightarrow> 'w world \<Rightarrow> bool \<times> 'w world) \<Rightarrow> 'w world \<Rightarrow> bool \<times> 'w world" where
  "connect_raw_client P server port rest w =
     (if port = 0 then leave P [server] False w
      else (case syscall P SysSocket w of (r, w1) \<Rightarrow>
        let clientFd = ret r in
        if clientFd = -1 then leave P [server] False w1
        else (case inet_pton P ''127.0.0.1'' of
            None \<Rightarrow> leave P [server] False w1
          | Some addr \<Rightarrow>
              (case syscall P (SysConnect clientFd \<lparr>sin_addr = addr, sin_port = htons (native P) port\<rparr>) w1 of
                 (r2, w2) \<Rightarrow>
                   if ret r2 \<noteq> 0 then leave P [server] False w2 else rest clientFd w2))))"

definition with_listening_server ::
    "'w platform \<Rightarrow> (socket \<Rightarrow> bool \<Rightarrow> int \<Rightarrow> 'w world \<Rightarrow> bool \<times> 'w world) \<Rightarrow> 'w world \<Rightarrow> bool \<times> 'w world" where
  "with_listening_server P rest w =
     (case socket_create P Socket w of (error, server, w1) \<Rightarrow>
        if \<not> error_ok error then leave P [server] False w1
        else (case socket_bind P server ''127.0.0.1'' 0 w1 of (error1, server1, w2) \<Rightarrow>
          if \<not> error_ok error1 then leave P [server1] False w2
          else (case socket_listen P server1 5 w2 of (error2, w3) \<Rightarrow>
            if \<not> error_ok error2 then leave P [server1] False w3
            else (case getBoundPort P (socket_nativeHandle server1) w3 of (named, port, w4) \<Rightarrow>
              connect_raw_client P server1 port (rest server1 named) w4))))"

definition Socket_AcceptSucceeds :: "'w platform \<Rightarrow> 'w world \<Rightarrow> bool \<times> 'w world" where
  "Socket_AcceptSucceeds P =
     with_listening_server P (\<lambda>server named clientFd w.
       case socket_accept P server Socket w of (error, accepted, w1) \<Rightarrow>
       case syscall P (SysClose clientFd) w1 of (r, w2) \<Rightarrow>
       leave P [accepted, server]
         (named \<and> error_ok error \<and> error_code error = Success \<and> socket_isOpen accepted \<and>
            socket_nativeHandle accepted \<noteq> -1 \<and> socket_nativeHandle accepted \<noteq> socket_nativeHandle server) w2)"

definition AcceptClosesExistingClientSocket :: "'w platform \<Rightarrow> 'w world \<Rightarrow> bool \<times> 'w world" where
  "AcceptClosesExistingClientSocket P =
     with_listening_server P (\<lambda>server named clientFd w.
       case socket_create P Socket w of (error, accepted, w1) \<Rightarrow>
         if \<not> error_ok error then leave P [accepted, server] False w1
         else (let oldFd = socket_nativeHandle accepted in
           case socket_accept P server accepted w1 of (error1, accepted1, w2) \<Rightarrow>
           case syscall P (SysClose clientFd) w2 of (r, w3) \<Rightarrow>
           leave P [accepted1, server]
             (named \<and> error_ok error1 \<and> socket_isOpen accepted1 \<and> socket_nativeHandle accepted1 \<noteq> oldFd) w3))"

section \<open>Connections\<close>

definition OpenCreatesSocketSuccessfully :: "'w platform \<Rightarrow> 'w world \<Rightarrow> bool \<times> 'w world" where
  "OpenCreatesSocketSuccessfully P w =
     (case connection_open P Connection w of (error, connection, w1) \<Rightarrow>
        leave_connections P [connection]
          (error_code error = Success \<and> socket_isOpen (conn_socket connection) \<and>
             \<not> connection_isConnected connection) w1)"

definition DisconnectClosesSocket :: "'w platform \<Rightarrow> 'w world \<Rightarrow> bool \<times> 'w world" where
  "DisconnectClosesSocket P w =
     (case connection_open P Connection w of (error, connection, w1) \<Rightarrow>
        if \<not> error_ok error then leave_connections P [connection] False w1
        else (case connection_disconnect P connection w1 of (connection1, w2) \<Rightarrow>
          leave_connections P [connection1]
            (\<not> connection_isConnected connection1 \<and> \<not> socket_isOpen (conn_socket connection1)) w2))"

definition DisconnectMultipleTimesIsSafe :: "'w platform \<Rightarrow> 'w world \<Rightarrow> bool \<times> 'w world" where
  "DisconnectMultipleTimesIsSafe P w =
     (case connection_open P Connection w of (error, connection, w1) \<Rightarrow>
        if \<not> error_ok error then leave_connections P [connection] False w1
        else (case connection_disconnect P connection w1 of (connection1, w2) \<Rightarrow>
          case connection_disconnect P connection1 w2 of (connection2, w3) \<Rightarrow>
          leave_connections P [connection2]
            (\<not> connection_isConnected connection2 \<and> \<not> socket_isOpen (conn_socket connection2)) w3))"

definition InvalidIPAddressReturnsError :: "'w platform \<Rightarrow> 'w world \<Rightarrow> bool \<times> 'w world" where
  "InvalidIPAddressReturnsError P w =
     (case connection_connect P Connection ''invalid-ip'' 8080 w of (error, connection, w1) \<Rightarrow>
        leave_connections P [connection]
          (error_code error = InvalidArgument \<and> \<not> connection_isConnected connection) w1)"

definition InvalidPortReturnsError :: "'w platform \<Rightarrow> 'w world \<Rightarrow> bool \<times> 'w world" where
  "InvalidPortReturnsError P w =
     (case connection_connect P Connection ''127.0.0.1'' 0 w of (error, connection, w1) \<Rightarrow>
        leave_connections P [connection]
          (error_code error = ConnectionFailed \<and> \<not> connection_isConnected connection) w1)"

definition Connection_MoveConstructorTransfersOwnership :: "'w platform \<Rightarrow> 'w world \<Rightarrow> bool \<times> 'w world" where
  "Connection_MoveConstructorTransfersOwnership P w =
     (case connection_open P Connection w of (error, connection, w1) \<Rightarrow>
        if \<not> error_ok error then leave_connections P [connection] False w1
        else (case connection_move connection of (moved, connection1) \<Rightarrow>
          leave_connections P [moved, connection1]
            (socket_isOpen (conn_socket moved) \<and> \<not> socket_isOpen (conn_socket connection1)) w1))"

definition Connection_MoveAssignmentTransfersOwnership :: "'w platform \<Rightarrow> 'w world \<Rightarrow> bool \<times> 'w world" where
  "Connection_MoveAssignmentTransfersOwnership P w =
     (case connection_open P Connection w of (error, connection, w1) \<Rightarrow>
        if \<not> error_ok error then leave_connections P [connection] False w1
        else (case connection_assign False P Connection connection w1 of (moved, connection1, w2) \<Rightarrow>
          leave_connections P [moved, connection1]
            (socket_isOpen (conn_socket moved) \<and> \<not> socket_isOpen (conn_socket connection1)) w2))"

definition DestructorReleasesResources :: "'w platform \<Rightarrow> 'w world \<Rightarrow> bool \<times> 'w world" where
  "DestructorReleasesResources P w =
     (case connection_open P Connection w of (error, connection, w1) \<Rightarrow>
        if \<not> error_ok error then leave_connections P [connection] False w1
        else leave_connections P [connection] (socket_isOpen (conn_socket connection)) w1)"

section \<open>Servers\<close>

definition StartSucceeds :: "'w platform \<Rightarrow> 'w world \<Rightarrow> bool \<times> 'w world" where
  "StartSucceeds P w =
     (case server_start P Server ''127.0.0.1'' 0 w of (error, server, w1) \<Rightarrow>
        if \<not> error_ok error then leave_servers P [server] False w1
        else leave_servers P [server] (server_isRunning server \<and> 0 < server_port server) w1)"

definition StopStopsServer :: "'w platform \<Rightarrow> 'w world \<Rightarrow> bool \<times> 'w world" where
  "StopStopsServer P w =
     (case server_start P Server ''127.0.0.1'' 0 w of (error, server, w1) \<Rightarrow>
        if \<not> error_ok error then leave_servers P [server] False w1
        else (case server_stop P server w1 of (server1, w2) \<Rightarrow>
          leave_servers P [server1]
            (server_isRunning server \<and> \<not> server_isRunning server1 \<and> server_port server1 = 0) w2))"

definition StopMultipleTimesIsSafe :: "'w platform \<Rightarrow> 'w world \<Rightarrow> bool \<times> 'w world" where
  "StopMultipleTimesIsSafe P w =
     (case server_start P Server ''127.0.0.1'' 0 w of (error, server, w1) \<Rightarrow>
        if \<not> error_ok error then leave_servers P [server] False w1
        else (case server_stop P server w1 of (server1, w2) \<Rightarrow>
          case server_stop P server1 w2 of (server2, w3) \<Rightarrow>
          leave_servers P [server2] (\<not> server_isRunning server2 \<and> server_port server2 = 0) w3))"

definition StartWithInvalidAddressFails :: "'w platform \<Rightarrow> 'w world \<Rightarrow> bool \<times> 'w world" where
  "StartWithInvalidAddressFails P w =
     (case server_start P Server ''invalid-ip'' 8080 w of (error, server, w1) \<Rightarrow>
        leave_servers P [server]
          (\<not> error_ok error \<and> error_code error = InvalidArgument \<and> \<not> server_isRunning server \<and>
             server_port server = 0) w1)"

definition StartWithInvalidPortFails :: "'w platform \<Rightarrow> 'w world \<Rightarrow> bool \<times> 'w world" where
  "StartWithInvalidPortFails P w =
     (case server_start P Server ''127.0.0.1'' 0 w of (error, server, w1) \<Rightarrow>
        if \<not> error_ok error then leave_servers P [server] False w1
        else leave_servers P [server] (server_isRunning server \<and> 0 < server_port server) w1)"

definition StartWhenAlreadyRunningFails :: "'w platform \<Rightarrow> 'w world \<Rightarrow> bool \<times> 'w world" where
  "StartWhenAlreadyRunningFails P w =
     (case server_start P Server ''127.0.0.1'' 0 w of (error, server, w1) \<Rightarrow>
        if \<not> error_ok error then leave_servers P [server] False w1
        else (let runningPort = server_port server in
          case server_start P server ''127.0.0.1'' 0 w1 of (error1, server1, w2) \<Rightarrow>
          leave_servers P [server1]
            (\<not> error_ok error1 \<and> error_code error1 = SocketError \<and> server_isRunning server1 \<and>
               server_port server1 = runningPort) w2))"

definition Server_MoveConstructorTransfersOwnership :: "'w platform \<Rightarrow> 'w world \<Rightarrow> bool \<times> 'w world" where
  "Server_MoveConstructorTransfersOwnership P w =
     (case server_start P Server ''127.0.0.1'' 0 w of (error, server, w1) \<Rightarrow>
        if \<not> error_ok error then leave_servers P [server] False w1
        else (let port = server_port server in
          case server_move server of (moved, server1) \<Rightarrow>
          leave_servers P [moved, server1]
            (server_isRunning moved \<and> server_port moved = port \<and> \<not> server_isRunning server1 \<and>
               server_port server1 = 0) w1))"

definition Server_MoveAssignmentTransfersOwnership :: "'w platform \<Rightarrow> 'w world \<Rightarrow> bool \<times> 'w world" where
  "Server_MoveAssignmentTransfersOwnership P w =
     (case server_start P Server ''127.0.0.1'' 0 w of (error, server, w1) \<Rightarrow>
        if \<not> error_ok error then leave_servers P [server] False w1
        else (let port = server_port server in
          case server_assign False P Server server w1 of (moved, server1, w2) \<Rightarrow>
          leave_servers P [moved, server1]
            (server_isRunning moved \<and> server_port moved = port \<and> \<not> server_isRunning server1 \<and>
               server_port server1 = 0) w2))"

text \<open>The tests that open descriptors only through the library, and those with a client of their own.\<close>

definition network_tests :: "'w platform \<Rightarrow> ('w world \<Rightarrow> bool \<times> 'w world) list" where
  "network_tests P =
     [CreatesSocketSuccessfully P, CloseReleasesSocket P, ClosingMultipleTimesIsSafe P, DestructorClosesAutomatically P,
      Socket_MoveConstructorTransfersOwnership P, Socket_MoveAssignmentTransfersOwnership P, BindSucceeds P,
      BindInvalidAddressFails P, BindInvalidPortFails P, ListenSucceeds P, ListenWithInvalidBacklogFails P,
      AcceptWithoutListeningFails P,
      OpenCreatesSocketSuccessfully P, DisconnectClosesSocket P, DisconnectMultipleTimesIsSafe P,
      InvalidIPAddressReturnsError P, InvalidPortReturnsError P, Connection_MoveConstructorTransfersOwnership P,
      Connection_MoveAssignmentTransfersOwnership P, DestructorReleasesResources P,
      StartSucceeds P, StopStopsServer P, StopMultipleTimesIsSafe P, StartWithInvalidAddressFails P,
      StartWithInvalidPortFails P, StartWhenAlreadyRunningFails P, Server_MoveConstructorTransfersOwnership P,
      Server_MoveAssignmentTransfersOwnership P]"

definition raw_client_tests :: "'w platform \<Rightarrow> ('w world \<Rightarrow> bool \<times> 'w world) list" where
  "raw_client_tests P = [Socket_AcceptSucceeds P, AcceptClosesExistingClientSocket P]"

section \<open>A fatal failure of recv\<close>

text \<open>
  \<open>test_receive_exit_code.cpp\<close>: a connection to a listener of its own, whose socket the program then
  closes behind the connection's back, so that \<open>Transport::receive\<close> calls \<open>recv\<close> on descriptor -1.
\<close>

definition receive_exit_failed :: "'w platform \<Rightarrow> int \<Rightarrow> string \<Rightarrow> reply \<Rightarrow> 'w world \<Rightarrow> int \<times> 'w world" where
  "receive_exit_failed P listeningFd failed r w =
     (let w1 = cerr (''FAIL: '' @ failed @ '' failed: '' @ err_text r @ endl) w in
      case syscall P (SysClose listeningFd) w1 of (_, w2) \<Rightarrow> (2, w2))"

definition receive_exit_receive :: "'w platform \<Rightarrow> connection \<Rightarrow> 'w world \<Rightarrow> int \<times> 'w world" where
  "receive_exit_receive P connection w =
     (case transport_of_connection connection of (transport, connection1) \<Rightarrow>
      case socket_close P (conn_socket (tr_connection transport)) w of (closed, w1) \<Rightarrow>
      case transport_receive P (transport\<lparr>tr_connection := (tr_connection transport)\<lparr>conn_socket := closed\<rparr>\<rparr>) [] 1 w1 of
        (receiveError, _, transport1, w2) \<Rightarrow>
        if error_ok receiveError
        then (let w3 = cerr (''FAIL: receive() unexpectedly succeeded'' @ endl) w2
              in leave_connections P [tr_connection transport1, connection1] 2 w3)
        else if error_message receiveError \<noteq> ''Receive failed''
        then (let w3 = cerr (''FAIL: unexpected receive error message: '' @ error_message receiveError @ endl) w2
              in leave_connections P [tr_connection transport1, connection1] 2 w3)
        else (let w3 = cerr (''Fatal receive/socket failure detected: '' @ error_message receiveError @ endl) w2 in
              let w4 = cout (''Connection state before process exit: '' @
                     (if transport_isConnected transport1 then ''CONNECTED'' else ''DISCONNECTED'') @ endl) w3 in
              let w5 = cout (''Expected fatal-error exit code: 1'' @ endl @ ''GAP-003.9.6 PASS'' @ endl) w4
              in leave_connections P [tr_connection transport1, connection1] 1 w5))"

definition receive_exit_connect :: "'w platform \<Rightarrow> int \<Rightarrow> u16 \<Rightarrow> 'w world \<Rightarrow> int \<times> 'w world" where
  "receive_exit_connect P listeningFd port w =
     (case connection_connect P Connection ''127.0.0.1'' port w of (connectError, connection, w1) \<Rightarrow>
        if \<not> error_ok connectError
        then (let w2 = cerr (''FAIL: test connection failed: '' @ error_message connectError @ endl) w1 in
              case syscall P (SysClose listeningFd) w2 of (_, w3) \<Rightarrow> leave_connections P [connection] 2 w3)
        else (case syscall P (SysAccept listeningFd) w1 of (r, w2) \<Rightarrow>
          let peerFd = ret r in
          if peerFd < 0
          then (let w3 = cerr (''FAIL: test peer accept() failed: '' @ err_text r @ endl) w2 in
                case connection_disconnect P connection w3 of (connection1, w4) \<Rightarrow>
                case syscall P (SysClose listeningFd) w4 of (_, w5) \<Rightarrow> leave_connections P [connection1] 2 w5)
          else (case syscall P (SysClose peerFd) w2 of (_, w3) \<Rightarrow>
                case syscall P (SysClose listeningFd) w3 of (_, w4) \<Rightarrow>
                receive_exit_receive P connection w4)))"

definition test_receive_exit_code :: "'w platform \<Rightarrow> 'w world \<Rightarrow> int \<times> 'w world" where
  "test_receive_exit_code P w =
     (let w1 = cout (''GAP-003.9.6 Fatal Receive/Socket Failure Exit-Code Test'' @ endl @
            ''-------------------------------------------------------'' @ endl) w in
      case syscall P SysSocket w1 of (r, w2) \<Rightarrow>
      let listeningFd = ret r in
      if listeningFd < 0
      then (let w3 = cerr (''FAIL: unable to create test listening socket: '' @ err_text r @ endl) w2 in (2, w3))
      else (case syscall P (SysBind listeningFd
              \<lparr>sin_addr = htonl (native P) 0x7F000001, sin_port = htons (native P) 0\<rparr>) w2 of (r3, w3) \<Rightarrow>
        if ret r3 < 0 then receive_exit_failed P listeningFd ''bind()'' r3 w3
        else (case syscall P (SysListen listeningFd 1) w3 of (r4, w4) \<Rightarrow>
          if ret r4 < 0 then receive_exit_failed P listeningFd ''listen()'' r4 w4
          else (case syscall P (SysGetsockname listeningFd) w4 of (r5, w5) \<Rightarrow>
            if ret r5 < 0 then receive_exit_failed P listeningFd ''getsockname()'' r5 w5
            else receive_exit_connect P listeningFd (ntohs (native P) (stored_port r5)) w5))))"

end
