(* ===== verification/Network_Verdicts.thy ===== *)
theory Network_Verdicts
  imports Network_Tests
begin

text \<open>
  The verdicts of the tests of \<open>Network_Tests\<close>, on every kernel. \<open>verdict goal before w x\<close> says that
  the rest \<open>x\<close> of a test, in world \<open>w\<close> after the events \<open>before\<close>, ends with a log and a result that
  fulfil \<open>goal\<close>. The collection \<open>verdict_rules\<close> has one rule for each statement of a test, and
  \<open>test_equations\<close> reduces the calls of connections and servers to those of their sockets.
\<close>

section \<open>One rule for each statement\<close>

named_theorems verdict_rules \<open>what a test logs and returns, statement by statement\<close>

definition verdict ::
    "(event list \<Rightarrow> 'r \<Rightarrow> bool) \<Rightarrow> event list \<Rightarrow> 'w world \<Rightarrow> 'r \<times> 'w world \<Rightarrow> bool" where
  "verdict goal before w x \<longleftrightarrow> (\<exists>es. log (snd x) = log w @ es \<and> goal (before @ es) (fst x))"

lemma verdict_end [verdict_rules]: "goal before b \<Longrightarrow> verdict goal before w (b, w)"
  unfolding verdict_def by (intro exI [of _ "[]"]) simp

lemma verdict_if [verdict_rules]:
  "(b \<Longrightarrow> verdict G es w x) \<Longrightarrow> (\<not> b \<Longrightarrow> verdict G es w y) \<Longrightarrow> verdict G es w (if b then x else y)"
  by simp

lemma verdict_output [verdict_rules]:
  "verdict G (es @ [Out s]) (cout s w) (f (cout s w)) \<Longrightarrow> verdict G es w (let v = cout s w in f v)"
  "verdict G (es @ [Err s]) (cerr s w) (f (cerr s w)) \<Longrightarrow> verdict G es w (let v = cerr s w in f v)"
  by (auto simp: verdict_def kernel_simps)

lemma verdict_let [verdict_rules]: "verdict G es w (f x) \<Longrightarrow> verdict G es w (let y = x in f y)"
  by simp

lemma verdict_destroy [verdict_rules]:
  assumes "\<And>r r2 w2. verdict G (es @ [Sys (SysClose fd) r, Sys c r2]) w2 (f r2 w2)" "fd \<noteq> -1"
  shows "verdict G es w (case syscall P c (socket_destroy P \<lparr>socket_fd = fd\<rparr> w) of (r, w1) \<Rightarrow> f r w1)"
proof -
  obtain r w1 where s: "syscall P (SysClose fd) w = (r, w1)" by force
  obtain r2 w2 where s2: "syscall P c w1 = (r2, w2)" by force
  have "socket_destroy P \<lparr>socket_fd = fd\<rparr> w = w1"
    using s assms(2) by (simp add: socket_destroy_def socket_close_def)
  with assms(1) [of r r2 w2] syscall_log [OF s] syscall_log [OF s2] s2 show ?thesis by (auto simp: verdict_def)
qed

lemma verdict_syscall [verdict_rules]:
  assumes "\<And>r w1. verdict G (es @ [Sys c r]) w1 (f r w1)"
  shows "verdict G es w (case syscall P c w of (r, w1) \<Rightarrow> f r w1)"
proof -
  obtain r w1 where s: "syscall P c w = (r, w1)" by force
  from assms [of r w1] syscall_log [OF s] show ?thesis unfolding s verdict_def prod.case by auto
qed

text \<open>The operations of a socket, which is closed or open on a descriptor.\<close>

lemma socket_states [simp]:
  "socket_isOpen \<lparr>socket_fd = fd\<rparr> \<longleftrightarrow> fd \<noteq> -1" "\<not> socket_isOpen Socket"
  "socket_nativeHandle \<lparr>socket_fd = fd\<rparr> = fd" "socket_nativeHandle Socket = -1"
  "socket_move \<lparr>socket_fd = fd\<rparr> = (\<lparr>socket_fd = fd\<rparr>, Socket)"
  by (simp_all add: socket_isOpen_def socket_nativeHandle_def Socket_def socket_move_def)

lemma socket_close_closed: "socket_close P Socket w = (Socket, w)"
  by (simp add: socket_close_def Socket_def)

lemma socket_listen_backlog:
  "n \<le> 0 \<Longrightarrow> fd \<noteq> -1 \<Longrightarrow>
    socket_listen P \<lparr>socket_fd = fd\<rparr> n w = (Error InvalidArgument ''Invalid listen backlog'', w)"
  by (simp add: socket_listen_def)

lemma socket_assign_equation:
  "(case socket_assign False P s t w of (s1, t1, w1) \<Rightarrow> f s1 t1 w1) =
   (case socket_close P s w of (s1, w1) \<Rightarrow> f t Socket w1)"
  by (cases s; cases t) (simp add: socket_assign_def socket_close_def Socket_def split: prod.splits)

lemma verdict_create [verdict_rules]:
  assumes "\<And>r w1. ret r = -1 \<Longrightarrow>
      verdict G (es @ [Sys SysSocket r]) w1 (f (Error SocketError (err_text r)) Socket w1)"
    and "\<And>r w1. ret r \<noteq> -1 \<Longrightarrow>
      verdict G (es @ [Sys SysSocket r]) w1 (f (Error Success '''') \<lparr>socket_fd = ret r\<rparr> w1)"
  shows "verdict G es w (case socket_create P Socket w of (e, s, w1) \<Rightarrow> f e s w1)"
proof -
  have "(case socket_create P Socket w of (e, s, w1) \<Rightarrow> f e s w1) =
    (case syscall P SysSocket w of (r, w1) \<Rightarrow>
       if ret r = -1 then f (Error SocketError (err_text r)) Socket w1
       else f (Error Success '''') \<lparr>socket_fd = ret r\<rparr> w1)"
    by (simp add: socket_create_def Socket_def socket_isOpen_def Let_def split: prod.splits)
  then show ?thesis using assms by (simp add: verdict_syscall)
qed

lemma verdict_close [verdict_rules]:
  assumes "\<And>r w1. verdict G (es @ [Sys (SysClose fd) r]) w1 (f Socket w1)" "fd \<noteq> -1"
  shows "verdict G es w (case socket_close P \<lparr>socket_fd = fd\<rparr> w of (s, w1) \<Rightarrow> f s w1)"
proof -
  have "(case socket_close P \<lparr>socket_fd = fd\<rparr> w of (s, w1) \<Rightarrow> f s w1) =
    (case syscall P (SysClose fd) w of (r, w1) \<Rightarrow> f Socket w1)"
    using assms(2) by (simp add: socket_close_def Socket_def split: prod.splits)
  then show ?thesis using assms by (simp add: verdict_syscall)
qed

lemma verdict_leave [verdict_rules]:
  "verdict G es w (b, w) \<Longrightarrow> verdict G es w (leave P [] b w)"
  "verdict G es w (leave P ss b w) \<Longrightarrow> verdict G es w (leave P (Socket # ss) b w)"
  by (simp_all add: leave_def socket_destroy_def socket_close_closed)

lemma verdict_leave_open [verdict_rules]:
  assumes "\<And>r w1. verdict G (es @ [Sys (SysClose fd) r]) w1 (leave P ss b w1)" "fd \<noteq> -1"
  shows "verdict G es w (leave P (\<lparr>socket_fd = fd\<rparr> # ss) b w)"
proof -
  have "leave P (\<lparr>socket_fd = fd\<rparr> # ss) b w =
      (case socket_close P \<lparr>socket_fd = fd\<rparr> w of (s, w1) \<Rightarrow> leave P ss b w1)"
    by (simp add: leave_def socket_destroy_def split: prod.splits)
  then show ?thesis using verdict_close [OF assms(1,2)] by simp
qed

lemma verdict_bind [verdict_rules]:
  assumes fd: "fd \<noteq> -1"
    and "\<And>r w1. ret r \<noteq> 0 \<Longrightarrow>
      verdict G (es @ [Sys (SysSetReuseAddr fd) r]) w1
        (f (Error SocketError (err_text r)) \<lparr>socket_fd = fd\<rparr> w1)"
    and "\<And>r w1. inet_pton P (c_str a) = None \<Longrightarrow>
      verdict G (es @ [Sys (SysSetReuseAddr fd) r]) w1
        (f (Error InvalidArgument ''Invalid IPv4 address'') \<lparr>socket_fd = fd\<rparr> w1)"
    and "\<And>addr r r2 w1. inet_pton P (c_str a) = Some addr \<Longrightarrow> ret r2 \<noteq> 0 \<Longrightarrow>
      verdict G (es @ [Sys (SysSetReuseAddr fd) r,
        Sys (SysBind fd \<lparr>sin_addr = addr, sin_port = htons (native P) port\<rparr>) r2]) w1
        (f (Error SocketError (err_text r2)) \<lparr>socket_fd = fd\<rparr> w1)"
    and "\<And>addr r r2 w1. inet_pton P (c_str a) = Some addr \<Longrightarrow>
      verdict G (es @ [Sys (SysSetReuseAddr fd) r,
        Sys (SysBind fd \<lparr>sin_addr = addr, sin_port = htons (native P) port\<rparr>) r2]) w1
        (f (Error Success '''') \<lparr>socket_fd = fd\<rparr> w1)"
  shows "verdict G es w (case socket_bind P \<lparr>socket_fd = fd\<rparr> a port w of (e, s, w1) \<Rightarrow> f e s w1)"
proof -
  have "(case socket_bind P \<lparr>socket_fd = fd\<rparr> a port w of (e, s, w1) \<Rightarrow> f e s w1) =
    (case syscall P (SysSetReuseAddr fd) w of (r, w1) \<Rightarrow>
       if ret r < 0 then f (Error SocketError (err_text r)) \<lparr>socket_fd = fd\<rparr> w1
       else (case inet_pton P (c_str a) of
           None \<Rightarrow> f (Error InvalidArgument ''Invalid IPv4 address'') \<lparr>socket_fd = fd\<rparr> w1
         | Some addr \<Rightarrow>
             (case syscall P (SysBind fd \<lparr>sin_addr = addr, sin_port = htons (native P) port\<rparr>) w1 of (r2, w2) \<Rightarrow>
             if ret r2 < 0 then f (Error SocketError (err_text r2)) \<lparr>socket_fd = fd\<rparr> w2
             else f (Error Success '''') \<lparr>socket_fd = fd\<rparr> w2)))"
    using fd by (simp add: socket_bind_def socket_bind_open_def split: prod.splits option.splits)
  then show ?thesis using assms by (auto split: option.splits intro!: verdict_syscall)
qed

lemma verdict_listen [verdict_rules]:
  assumes "fd \<noteq> -1" "0 < n"
    and "\<And>r w1. ret r \<noteq> 0 \<Longrightarrow>
      verdict G (es @ [Sys (SysListen fd n) r]) w1 (f (Error SocketError (err_text r)) w1)"
    and "\<And>r w1. verdict G (es @ [Sys (SysListen fd n) r]) w1 (f (Error Success '''') w1)"
  shows "verdict G es w (case socket_listen P \<lparr>socket_fd = fd\<rparr> n w of (e, w1) \<Rightarrow> f e w1)"
proof -
  have "(case socket_listen P \<lparr>socket_fd = fd\<rparr> n w of (e, w1) \<Rightarrow> f e w1) =
    (case syscall P (SysListen fd n) w of (r, w1) \<Rightarrow>
       if ret r < 0 then f (Error SocketError (err_text r)) w1 else f (Error Success '''') w1)"
    using assms(1,2) by (simp add: socket_listen_def split: prod.splits)
  then show ?thesis using assms by (auto intro!: verdict_syscall)
qed

lemma verdict_accept [verdict_rules]:
  assumes "fd \<noteq> -1"
    and "\<And>r w1. ret r < 0 \<Longrightarrow>
      verdict G (es @ [Sys (SysAccept fd) r]) w1 (f (Error SocketError (err_text r)) c w1)"
    and "\<And>r w1. 0 \<le> ret r \<Longrightarrow>
      verdict G (es @ [Sys (SysAccept fd) r]) w1
        (case socket_close P c w1 of (c1, w2) \<Rightarrow> f (Error Success '''') \<lparr>socket_fd = ret r\<rparr> w2)"
  shows "verdict G es w (case socket_accept P \<lparr>socket_fd = fd\<rparr> c w of (e, c, w1) \<Rightarrow> f e c w1)"
proof -
  have "(case socket_accept P \<lparr>socket_fd = fd\<rparr> c w of (e, c, w1) \<Rightarrow> f e c w1) =
    (case syscall P (SysAccept fd) w of (r, w1) \<Rightarrow>
       if ret r < 0 then f (Error SocketError (err_text r)) c w1
       else (case socket_close P c w1 of (c1, w2) \<Rightarrow> f (Error Success '''') \<lparr>socket_fd = ret r\<rparr> w2))"
    using assms(1) by (cases c) (simp add: socket_accept_def socket_close_def split: prod.splits)
  then show ?thesis using assms by (auto intro!: verdict_syscall)
qed

section \<open>Connections, servers and transports as their sockets\<close>

named_theorems test_equations \<open>calls of the other classes in terms of sockets\<close>

declare socket_close_closed [test_equations] socket_listen_backlog [test_equations]
  socket_assign_equation [test_equations]

lemma object_states [simp]:
  "conn_socket Connection = Socket" "\<not> connection_isConnected Connection"
  "connection_isConnected \<lparr>conn_socket = s, conn_connected = b\<rparr> \<longleftrightarrow> b"
  "sv_socket Server = Socket" "\<not> server_isRunning Server" "server_port Server = 0"
  "server_isRunning \<lparr>sv_socket = s, sv_running = b, sv_port = p\<rparr> \<longleftrightarrow> b"
  "server_port \<lparr>sv_socket = s, sv_running = b, sv_port = p\<rparr> = p"
  "\<not> transport_isConnected Transport" "tr_connection Transport = Connection"
  "transport_isConnected \<lparr>tr_connection = c\<rparr> \<longleftrightarrow> connection_isConnected c"
  by (simp_all add: Connection_def connection_isConnected_def Server_def server_isRunning_def server_port_def
      Transport_def transport_isConnected_def)

lemma leave_sockets [test_equations]:
  "leave_connections P cs b w = leave P (map conn_socket cs) b w"
  "leave_servers P ss result w = leave P (map sv_socket ss) result w"
proof -
  have "connection_destroy P = socket_destroy P \<circ> conn_socket"
    by (intro ext) (simp add: connection_destroy_def connection_disconnect_def socket_destroy_def socket_defs
        split: prod.splits)
  then show "leave_connections P cs b w = leave P (map conn_socket cs) b w"
    by (simp add: leave_connections_def leave_def fold_map)
  have "server_destroy P = socket_destroy P \<circ> sv_socket"
    by (intro ext) (simp add: server_destroy_def server_stop_def socket_destroy_def socket_defs
        split: prod.splits)
  then show "leave_servers P ss result w = leave P (map sv_socket ss) result w"
    by (simp add: leave_servers_def leave_def fold_map)
qed

lemma connection_equations [test_equations]:
  "connection_move c = (c, Connection)"
  "(case connection_open P Connection w of (e, c, w1) \<Rightarrow> f e c w1) =
   (case socket_create P Socket w of (e, s, w1) \<Rightarrow> f e \<lparr>conn_socket = s, conn_connected = False\<rparr> w1)"
  "(case connection_disconnect P c w of (c1, w1) \<Rightarrow> g c1 w1) =
   (case socket_close P (conn_socket c) w of (s, w1) \<Rightarrow> g Connection w1)"
  "(case connection_assign False P Connection c w of (m, r, w1) \<Rightarrow> h m r w1) = h c Connection w"
  by (cases c; cases "conn_socket c"; simp add: connection_move_eq connection_open_def connection_assign_def
      connection_disconnect_def Connection_def socket_assign_def socket_close_def Socket_def socket_isOpen_def
      split: prod.splits)+

lemma connect_equation [test_equations]:
  "(case connection_connect P Connection a port w of (e, c, w1) \<Rightarrow> f e c w1) =
   (case socket_create P Socket w of (e, s, w1) \<Rightarrow>
     if \<not> error_ok e then f e \<lparr>conn_socket = s, conn_connected = False\<rparr> w1
     else (case inet_pton P (c_str a) of
         None \<Rightarrow> f (Error InvalidArgument ''Invalid IPv4 address'') \<lparr>conn_socket = s, conn_connected = False\<rparr> w1
       | Some addr \<Rightarrow>
           (case syscall P (SysConnect (socket_nativeHandle s)
               \<lparr>sin_addr = addr, sin_port = htons (native P) port\<rparr>) w1 of (r, w2) \<Rightarrow>
             if ret r < 0
             then f (Error ConnectionFailed (err_text r)) \<lparr>conn_socket = s, conn_connected = False\<rparr> w2
             else f (Error Success '''') \<lparr>conn_socket = s, conn_connected = True\<rparr> w2)))"
  by (simp add: connection_connect_def connection_connect_open_def Connection_def
      split: prod.splits option.splits)

text \<open>\<open>Server::start\<close>; \<open>stopped e s\<close> is a failure that leaves the server with the socket \<open>s\<close>.\<close>

lemma start_equation [test_equations]:
  "(case server_start P Server a port w of (e, s, w1) \<Rightarrow> f e s w1) =
   (let stopped = (\<lambda>e s. f e \<lparr>sv_socket = s, sv_running = False, sv_port = 0\<rparr>) in
    case socket_create P Socket w of (e, s, w1) \<Rightarrow>
     if \<not> error_ok e then stopped e s w1
     else (case socket_bind P s a port w1 of (e2, s2, w2) \<Rightarrow>
       if \<not> error_ok e2 then (case socket_close P s2 w2 of (s3, w3) \<Rightarrow> stopped e2 s3 w3)
       else (case socket_listen P s2 SOMAXCONN w2 of (e3, w3) \<Rightarrow>
         if \<not> error_ok e3 then (case socket_close P s2 w3 of (s3, w4) \<Rightarrow> stopped e3 s3 w4)
         else (case syscall P (SysGetsockname (socket_nativeHandle s2)) w3 of (r, w4) \<Rightarrow>
           if ret r < 0
           then (case socket_close P s2 w4 of (s3, w5) \<Rightarrow> stopped (Error SocketError (err_text r)) s3 w5)
           else f (Error Success '''')
             \<lparr>sv_socket = s2, sv_running = True, sv_port = ntohs (native P) (stored_port r)\<rparr> w4))))"
  by (simp add: server_start_def server_start_listening_def server_start_failed_def Server_def Let_def
      split: prod.splits)

lemma server_equations [test_equations]:
  "server_move v = (v, Server)"
  "(case server_start P \<lparr>sv_socket = s, sv_running = True, sv_port = p\<rparr> a port w of (e, v, w1) \<Rightarrow> f e v w1) =
   f (Error SocketError ''Server is already running'') \<lparr>sv_socket = s, sv_running = True, sv_port = p\<rparr> w"
  "(case server_stop P v w of (v1, w1) \<Rightarrow> g v1 w1) =
   (case socket_close P (sv_socket v) w of (s1, w1) \<Rightarrow> g Server w1)"
  "(case server_assign False P Server v w of (m, r, w1) \<Rightarrow> h m r w1) = h v Server w"
  by (cases v; cases "sv_socket v"; simp add: server_move_eq server_start_def server_stop_eq server_assign_def
      socket_assign_def Server_def socket_close_def Socket_def split: prod.splits)+

text \<open>Receiving one byte on a connection whose socket was closed behind its back.\<close>

lemma receive_equation [test_equations]:
  "(case transport_receive P \<lparr>tr_connection = \<lparr>conn_socket = Socket, conn_connected = True\<rparr>\<rparr> [] (Suc 0) w of
      (e, bs, t, w1) \<Rightarrow> f e bs t w1) =
   (case syscall P (SysRecv (-1) 1) w of (r, w1) \<Rightarrow>
     if ret r < 0
     then f (Error SocketError ''Receive failed'') []
       \<lparr>tr_connection = \<lparr>conn_socket = Socket, conn_connected = True\<rparr>\<rparr> w1
     else if ret r = 0 then f (Error ConnectionClosed ''Connection closed by peer'') [] Transport w1
     else f (Error Success '''') (store_at 0 (stored r) [0])
       \<lparr>tr_connection = \<lparr>conn_socket = Socket, conn_connected = True\<rparr>\<rparr> w1)"
proof -
  have loop: "receive_loop P t bs (Suc 0) (nat n) v = (Error Success '''', bs, t, v)" if "0 < n" for t bs n v
    by (subst receive_loop.simps) (use that in simp)
  show ?thesis
    unfolding transport_receive_def
    by (subst receive_loop.simps)
      (auto simp: loop transport_handle_def vector_resize_def transport_disconnect_eq connection_disconnect_eq
        socket_close_closed Let_def split: prod.splits)
qed

text \<open>Ports.\<close>

lemma port_zero: "ntohs h p = 0 \<longleftrightarrow> p = 0" "htons h p = 0 \<longleftrightarrow> p = 0" "0 < ntohs h p \<longleftrightarrow> p \<noteq> 0"
proof -
  have n: "ntohs h p = 0 \<longleftrightarrow> p = 0" for p
  proof -
    have "ntohs Little 0 = 0" "ntohs Big 0 = 0" by code_simp+
    then have z: "ntohs h 0 = 0" by (cases h) simp_all
    have "surj (ntohs h)" by (rule surjI [of _ "htons h"]) (rule ntohs_htons)
    then have "inj (ntohs h)" by (rule finite_UNIV_surj_inj [rotated]) simp
    then show ?thesis using z by (metis injD)
  qed
  then show "ntohs h p = 0 \<longleftrightarrow> p = 0" "0 < ntohs h p \<longleftrightarrow> p \<noteq> 0" by (simp_all add: word_gt_0)
  show "htons h p = 0 \<longleftrightarrow> p = 0" by (metis ntohs_htons n)
qed

lemma htons_ntohs [simp]: "htons h (ntohs h p) = p"
proof -
  have "surj (ntohs h)" by (rule surjI [of _ "htons h"]) (rule ntohs_htons)
  then have "inj (ntohs h)" by (rule finite_UNIV_surj_inj [rotated]) simp
  then show ?thesis by (rule injD) (rule ntohs_htons)
qed

lemma port_equation [test_equations]:
  "(case getBoundPort P fd w of (b, p, w1) \<Rightarrow> f b p w1) =
    (case syscall P (SysGetsockname fd) w of (r, w1) \<Rightarrow>
      if ret r = 0 then f True (ntohs (native P) (stored_port r)) w1 else f False 0 w1)"
  by (simp add: getBoundPort_def port_zero [THEN iffD2] split: prod.splits)

lemma inet_pton_equations:
  assumes "inet_pton_ok P"
  shows "inet_pton P (c_str ''127.0.0.1'') = Some (htonl (native P) 0x7F000001)"
    "inet_pton P ''127.0.0.1'' = Some (htonl (native P) 0x7F000001)"
    "inet_pton P (c_str ''invalid-ip'') = None" "inet_pton P (c_str ''256.256.256.256'') = None"
  using assms by (simp_all add: inet_pton_ok_def c_str_def)

section \<open>The verdicts\<close>

lemmas test_defs = CreatesSocketSuccessfully_def CloseReleasesSocket_def ClosingMultipleTimesIsSafe_def
  DestructorClosesAutomatically_def
  Socket_MoveConstructorTransfersOwnership_def Socket_MoveAssignmentTransfersOwnership_def BindSucceeds_def
  BindInvalidAddressFails_def BindInvalidPortFails_def ListenSucceeds_def ListenWithInvalidBacklogFails_def
  AcceptWithoutListeningFails_def OpenCreatesSocketSuccessfully_def DisconnectClosesSocket_def
  DisconnectMultipleTimesIsSafe_def InvalidIPAddressReturnsError_def InvalidPortReturnsError_def
  Connection_MoveConstructorTransfersOwnership_def Connection_MoveAssignmentTransfersOwnership_def
  DestructorReleasesResources_def StartSucceeds_def StopStopsServer_def StopMultipleTimesIsSafe_def
  StartWithInvalidAddressFails_def StartWithInvalidPortFails_def StartWhenAlreadyRunningFails_def
  Server_MoveConstructorTransfersOwnership_def Server_MoveAssignmentTransfersOwnership_def
  Socket_AcceptSucceeds_def AcceptClosesExistingClientSocket_def with_listening_server_def
  connect_raw_client_def

text \<open>
  A test passes when the kernel cooperates; it leaves no descriptor open, except that a test with a
  client socket of its own may leave that one when it fails.
\<close>

definition test_goal :: "bool \<Rightarrow> event list \<Rightarrow> bool \<Rightarrow> bool" where
  "test_goal own_client es passed \<longleftrightarrow> (kernel_cooperates [] es \<longrightarrow> passed) \<and>
     (held {#} es = Some {#} \<or> own_client \<and> \<not> passed \<and> (\<exists>fd. held {#} es = Some {#fd#}))"

lemmas test_facts = test_goal_def unused_descriptor_def open_descriptor_def SOMAXCONN_def port_zero test_equations

lemma network_test_verdict:
  assumes "inet_pton_ok P" "t \<in> set (network_tests P)"
  shows "verdict (test_goal False) [] w (t w)"
proof -
  have "list_all (\<lambda>t. verdict (test_goal False) [] w (t w)) (network_tests P)"
    unfolding network_tests_def list.pred_inject test_defs
    by (intro conjI TrueI)
      (simp add: test_facts inet_pton_equations [OF assms(1)] split del: if_split cong: conj_cong | rule verdict_rules)+
  then show ?thesis using assms(2) by (simp add: list_all_iff)
qed

lemma raw_client_test_verdict:
  assumes "inet_pton_ok P" "t \<in> set (raw_client_tests P)"
  shows "verdict (test_goal True) [] w (t w)"
proof -
  have "list_all (\<lambda>t. verdict (test_goal True) [] w (t w)) (raw_client_tests P)"
    unfolding raw_client_tests_def list.pred_inject test_defs
    by (intro conjI TrueI)
      (rule verdict_rules | simp add: test_facts inet_pton_equations [OF assms(1)] cong: conj_cong)+
  then show ?thesis using assms(2) by (simp add: list_all_iff)
qed

text \<open>
  C37. The single-threaded network tests. Each of them passes in every run in which the kernel
  cooperates, that is, gives the calls the test is about the answers \<open>kernel_cooperates\<close> names. Whatever
  the kernel answers, a test uses only descriptors it holds (one asks \<open>fcntl\<close> whether a descriptor it
  closed is open), and has closed every one it opened when it ends; only the two tests with a client socket of their own may leave that one descriptor open, and
  only in a run in which they fail.
\<close>

theorem network_tests_pass:
  assumes "inet_pton_ok P" "t \<in> set (network_tests P @ raw_client_tests P)"
  shows "\<exists>es. log (snd (t w)) = log w @ es \<and> (kernel_cooperates [] es \<longrightarrow> fst (t w)) \<and>
    (held {#} es = Some {#} \<or>
     t \<in> set (raw_client_tests P) \<and> \<not> fst (t w) \<and> (\<exists>fd. held {#} es = Some {#fd#}))"
  using assms(2) network_test_verdict [OF assms(1), of t w] raw_client_test_verdict [OF assms(1), of t w]
  unfolding verdict_def test_goal_def set_append by (elim UnE) auto

text \<open>The program ends with one of its two exit codes, and with 1 when the kernel cooperates.\<close>

definition exit_goal :: "event list \<Rightarrow> int \<Rightarrow> bool" where
  "exit_goal es code \<longleftrightarrow> code \<in> {1, 2} \<and> (kernel_cooperates [] es \<longrightarrow> code = 1)"

lemma receive_exit_verdict:
  assumes "inet_pton_ok P"
  shows "verdict exit_goal [] w (test_receive_exit_code P w)"
  unfolding test_receive_exit_code_def receive_exit_failed_def receive_exit_connect_def
    receive_exit_receive_def transport_of_connection_eq
  by (rule verdict_rules | simp add: exit_goal_def test_facts inet_pton_equations [OF assms] cong: conj_cong)+

lemma receive_exit_code:
  assumes "inet_pton_ok P"
  shows "\<exists>es. log (snd (test_receive_exit_code P w)) = log w @ es \<and>
    fst (test_receive_exit_code P w) \<in> {1, 2} \<and>
    (kernel_cooperates [] es \<longrightarrow> fst (test_receive_exit_code P w) = 1)"
  using receive_exit_verdict [OF assms, of w] unfolding verdict_def exit_goal_def by simp

section \<open>Witnesses\<close>

lemma sim_inet_pton_ok: "inet_pton_ok (sim_platform Little)"
  by code_simp

theorem network_tests_pass_witness:
  "\<exists>es. log (snd (StartWhenAlreadyRunningFails (sim_platform Little) (sim_world [3] [] 0 []))) = es \<and>
     length es = 6 \<and> kernel_cooperates [] es \<and> held {#} es = Some {#} \<and>
     fst (StartWhenAlreadyRunningFails (sim_platform Little) (sim_world [3] [] 0 []))"
proof -
  let ?t = "StartWhenAlreadyRunningFails (sim_platform Little)" and ?w = "sim_world [3] [] 0 []"
  have t: "?t \<in> set (network_tests (sim_platform Little) @ raw_client_tests (sim_platform Little))"
    by (simp add: network_tests_def)
  have e: "log ?w = []" by code_simp
  have l: "length (log (snd (?t ?w))) = 6 \<and> kernel_cooperates [] (log (snd (?t ?w)))" by code_simp
  from network_tests_pass [OF sim_inet_pton_ok t, of ?w] l e show ?thesis by auto
qed

end
