(* ===== verification/Spec2Isabelle.thy ===== *)
theory Spec2Isabelle
  imports Server_Main Client_Main Byte_Buffer Logging Config_Loader Pool_Server_Properties Pool_Clients
    Pool_Refinement Pool_Settling Pool_Exchange Fault_Injection Unit_Tests Network_Verdicts
begin

text \<open>
  A verification development for this repository: PacketForge, a TCP library with one packet protocol
  and the server and client built on it (\<open>PacketForge_V1\<close>), and the thread-pool echo servers with their
  clients that preceded it (\<open>Version1\<close>, \<open>Version_2\<close>).

  The parts of PacketForge and how they interact. A \<open>Packet\<close> has a fixed 16-byte header and a payload;
  \<open>Encoder\<close> and \<open>Decoder\<close> turn it into bytes in network byte order and back (\<open>Endian\<close>). A \<open>Socket\<close> owns a
  file descriptor, a \<open>Connection\<close> owns a connected socket, a \<open>Transport\<close> owns a connection and loops over
  partial sends and receives, \<open>PacketIO\<close> frames packets on a transport. \<open>Server\<close> owns a listening socket
  and accepts connections; \<open>Client\<close> owns a transport. \<open>OpcodeDispatcher\<close> and \<open>Handler\<close> answer a request.
  \<open>server_main\<close> serves one session, \<open>client_main\<close> makes one exchange. \<open>Error\<close> values carry every failure
  of the network layer; \<open>Buffer\<close>, \<open>Logger\<close> and the configuration classes stand beside them. In the
  thread-pool server, \<open>main\<close> accepts connections and enqueues them as tasks of a \<open>ThreadPool\<close>, whose
  workers run \<open>processClient\<close>.

  Theories, with the sources they model (under \<open>src/PacketForge_V1/\<close> unless named otherwise):
    \<^item> \<open>Prelude\<close>: words, bytes, strings, numerals, C strings, standard exceptions.
    \<^item> \<open>Errors\<close> (\<open>common/error\<close>), \<open>Endian\<close> (\<open>common/endian\<close>), \<open>Packets\<close> (\<open>protocol/packet\<close>, \<open>opcode.hpp\<close>),
      \<open>Codec\<close> (\<open>protocol/encoder\<close>, \<open>decoder\<close>), \<open>Dispatch\<close> (\<open>protocol/handler\<close>, \<open>opcode_dispatcher\<close>).
    \<^item> \<open>Platform\<close>: the kernel as a parameter, the log of system calls and output, what POSIX documents,
      the ownership of descriptors. \<open>Simulation\<close>: one concrete kernel, for the witnesses. \<open>Resource\<close>:
      the contract of a movable owner. \<open>Byte_Stream\<close>: the contract of a stream that arrives in pieces.
    \<^item> \<open>Sockets\<close>, \<open>Connections\<close>, \<open>Transports\<close> (\<open>network/\<close>), \<open>Packet_IO\<close> (\<open>protocol/packet_io\<close>),
      \<open>Servers\<close> (\<open>server/server\<close>), \<open>Clients\<close> (\<open>client/client\<close>).
    \<^item> \<open>Server_Main\<close> (\<open>apps/server_main.cpp\<close>) and \<open>Client_Main\<close> (\<open>apps/client_main.cpp\<close>): \<open>main\<close> in phases, one
      definition for each, in the order of the source.
    \<^item> \<open>Exit_Status\<close>: the exit discipline of a test program, with rules that follow the syntax of a \<open>main\<close>.
      \<open>Raw_Clients\<close> (the test clients under \<open>apps/\<close> on a bare socket: \<open>packetforge_protocol_error_client\<close>,
      \<open>packetforge_dispatch_failure_client\<close>, \<open>packetforge_response_send_failure_client\<close>),
      \<open>Raw_Client_Properties\<close>: these clients and the server. \<open>Workflow_Clients\<close> (the test clients on the
      library's classes: \<open>PacketForge_integration_success_client\<close>, \<open>remote_close_client_main\<close>,
      \<open>shutdown_client_main\<close>, \<open>packetforge_receive_failure_client\<close>, \<open>packetforge_gap035_client\<close>),
      \<open>Loopback_Clients\<close> (the test clients that are their own peer: \<open>packetforge_malformed_packet_client\<close>,
      \<open>packetforge_transport_send_failure_client\<close>, \<open>packetforge_packetio_send_failure_client\<close>),
      \<open>Fault_Injection\<close>: what the eleven programs have in common, and what each test shows.
    \<^item> \<open>Byte_Buffer\<close> (\<open>common/buffer\<close>), \<open>Logging\<close> (\<open>common/logger\<close>), \<open>Configs\<close> (\<open>config/config\<close>,
      \<open>config_value\<close>), \<open>Config_Loader\<close> (\<open>config/config_loader\<close>).
    \<^item> \<open>Event_Systems\<close>: runs of concurrent systems. \<open>Thread_Pool\<close> (\<open>class ThreadPool\<close> of
      \<open>src/Version1/src/Server.cpp\<close>), \<open>Pool_Invariants\<close>, \<open>Pool_Histories\<close>, \<open>Pool_Properties\<close>: the pool.
      \<open>Pool_Server\<close>, \<open>Pool_Server_Properties\<close> (\<open>processClient\<close> and \<open>main\<close> of the same file),
      \<open>Pool_Sessions\<close> (each thread of the server against the sequential program it runs),
      \<open>Pool_Refinement\<close> (the pool as an abstract bounded queue), \<open>Pool_Settling\<close>, \<open>Pool_Clients\<close>
      (\<open>src/Version1/src/Client.cpp\<close>, \<open>src/Version_2/src/Client.cpp\<close>). \<open>src/Version_2/src/Server.cpp\<close> is
      the same text as Version1's. \<open>Pool_Exchange\<close>: the server's workers and the second client together.
    \<^item> \<open>Unit_Tests\<close> (\<open>tests/\<close>): the expectations of the repository's tests that need no kernel, on the model.
      \<open>Network_Tests\<close>: the tests of sockets, connections and servers that make system calls from one
      thread, and \<open>tests/test_receive_exit_code.cpp\<close>; \<open>Network_Verdicts\<close>: when they pass.
    \<^item> \<open>Spec2Isabelle\<close> (this theory): client and server together.

  How the model corresponds to the code. A class is a record of its members, a method is a definition
  that takes and returns the state it changes, an exception is the left of a sum, an out-parameter is
  part of the result, machine integers are words. Everything that calls the kernel takes a
  \<open>platform\<close> and a \<open>world\<close> and returns the new world, whose log holds every
  system call with its reply and every line of output; destructors are explicit calls at the ends of
  scopes. The kernel's replies are arbitrary: the one general hypothesis is \<open>kernel_ok\<close>,
  the bounds POSIX gives for the results of \<open>send\<close>, \<open>recv\<close> and
  \<open>socket\<close>; \<open>delivers\<close> says that a peer's bytes arrive, in any pieces. The
  thread pool is a system of atomic actions: a thread is its program counter, the mutex its owner, the
  condition variable the set of the threads blocked on it; every interleaving, every choice of the
  thread that a notification wakes and every spurious wake-up is a run.

  What the lemmas show. For the codec: the decoder is the documented format, round trips, machine
  independence. For the network classes: every outcome of every operation with its effect on state,
  descriptors, bytes and log; the contracts \<open>movable_resource\<close> and of byte streams are
  proved once and interpreted for socket, connection, transport, server and client; a receive is fixed
  call by call by the kernel's answers (\<open>transport_receives\<close>). For PacketIO: whole frames however the
  kernel cuts the stream, every failure with what was consumed, no byte taken too many. For the
  applications: what a session answers, exit codes, no descriptor leaked or closed twice, and one
  exchange end to end. For the test clients: exit code 1 exactly when a diagnostic was written, and that
  their checks of the server's answers and of the library's errors can fail only when the kernel does.
  For the configuration: the loader is a reference reading of the format, printed configurations load
  back, typed access follows the text. For the buffer: it is a byte queue. For the pool: mutual exclusion, the queue's bound, the fate of every task, no lost wake-up, no
  deadlock, a destructor that ends within an explicit number of steps and drains the queue, that a pool
  left alone comes to rest with every accepted task executed, and that the pool refines an abstract
  bounded queue whose actions are atomic; and for the server on it, one owner for every connection (as
  long as \<open>socket\<close> and \<open>accept\<close>, which it does not check, succeed), a
  number of its own for every answer, and that under every interleaving each worker's log is a beginning
  of rounds of the sequential loop and main's log a beginning of \<open>main\<close>; and one exchange of that server with its second client. For the network tests: they
  pass in every run in which the kernel gives the answers they are about (\<open>kernel_cooperates\<close>, read off the
  log), and on any kernel close what the library opened.

  Where code and documents disagree. The model follows the code. The properties leave out the cases
  on which a document or a comment says something else, and a lemma shows what the code does there: the
  exit code after a protocol error that was reported (\<open>reported_protocol_error_exits_1\<close>), keys and
  values the configuration document does not allow or reads as doubles (\<open>lenient_format\<close>), and \<open>clear\<close>
  of a buffer with unread bytes (\<open>clear_drops_unread\<close>).

  Bounds and termination. The send and receive loops of PacketForge terminate because every turn moves
  at least one byte or returns; they need no fuel. The loops of the second pool client may run forever
  and are partial functions, with a theorem for when they return. The server's main loop and the
  workers are event systems, whose runs have any length. A vector's or string's length is taken to fit
  a \<open>size_t\<close>, except where the code itself meets that limit (\<open>Buffer\<close>).

  Not modelled: signals other than the shutdown request, \<open>SIGPIPE\<close> in particular;
  allocation failures; of the unit tests, the three whose client connects from a second thread and the copies and moves of a configuration value; the build files and the compiler identification sources CMake generated under
  \<open>build/\<close>; calls of \<open>enqueue\<close> from inside a task, which the program does not
  make. The C++ lifetime rules for the pool (no call before its constructor or during its destructor)
  are guards of the environment.
\<close>

section \<open>The two applications together\<close>

lemma hello_request_fields:
  "packet_isValid hello_request" "pk_opcode hello_request = 1" "pk_sequenceId hello_request = 1"
  "pk_version hello_request = VERSION"
  by (simp_all add: hello_request_def packet_unfold packet_isValid_iff)

text \<open>
  C1. The greeting, end to end. Client and server run on machines of any byte orders. If the client's
  \<open>send\<close> of its request succeeds, the bytes it sent are delivered to the server's session, cut into
  any pieces, the session ends with exit code 0 without a shutdown, and the bytes it sent are
  delivered back, then the client's \<open>receive\<close> succeeds and returns a \<open>HelloResponse\<close> with the
  request's sequence number and the greeting text.
\<close>

theorem hello_exchange:
  assumes "kernel_ok Pc" "kernel_ok Ps" "client_isConnected c" "transport_isConnected t" "transport_inv t"
    "client_send Pc c hello_request wc = (e, wc1)" "error_ok e"
    "sent (transport_handle (cl_transport c)) (log wc1) =
       sent (transport_handle (cl_transport c)) (log wc) @ request"
    "delivers Ps (transport_handle t) request (kernel ws)"
    "receive_request Ps t False ws = (0, t1, False, ws1)"
    "sent (transport_handle t) (log ws1) = sent (transport_handle t) (log ws) @ response"
    "delivers Pc (transport_handle (cl_transport c)) response (kernel wc2)"
  shows "\<exists>p wc3. client_receive Pc c q wc2 = (Error Success '''', p, c, wc3) \<and>
    pk_opcode p = opcode_value HelloResponse \<and> pk_sequenceId p = pk_sequenceId hello_request \<and>
    string_of_bytes (pk_payload p) = ''Hello from PacketForge Server''"
proof -
  let ?r = "snd (dispatch hello_request)"
  have req: "encode (native Pc) hello_request = Inr request"
    using client_send_prefix [OF assms(6,1) hello_request_fields(1)] assms(7,8) by auto
  have "delivers Ps (transport_handle t) (request @ []) (kernel ws)" using assms(9) by simp
  from receive_request_delivered [OF req assms(4,5,2) this assms(10)] assms(11)
  have "encode (native Ps) ?r = Inr response" by auto
  from packetio_receive_delivers [OF this, of "cl_transport c" Pc "[]" wc2 q None] assms(3,12)
  obtain w where "packetio_receive Pc (cl_transport c) q None wc2 = (ok_result, ?r, None, cl_transport c, w)"
    by (auto simp: client_isConnected_def)
  then have "client_receive Pc c q wc2 = (ok_result, ?r, c, w)"
    using assms(3) by (simp add: client_receive_def)
  moreover have "pk_opcode ?r = opcode_value HelloResponse" "pk_sequenceId ?r = pk_sequenceId hello_request"
    "string_of_bytes (pk_payload ?r) = ''Hello from PacketForge Server''"
    by (simp_all add: dispatch_eq hello_request_fields hello_text_def)
  ultimately show ?thesis by blast
qed

theorem hello_exchange_witness:
  "\<exists>p w. client_receive (sim_platform Big) \<lparr>cl_transport = demo_transport\<rparr> Packet
      (sim_world [] [[0x50, 0x46, 0x4B, 0x54, 1, 0, 0, 2, 0, 0, 0, 1, 0, 0, 0, 29],
        bytes_of_string ''Hello from PacketForge Server''] 0 []) =
      (Error Success '''', p, \<lparr>cl_transport = demo_transport\<rparr>, w) \<and>
    string_of_bytes (pk_payload p) = ''Hello from PacketForge Server''"
proof -
  let ?c = "\<lparr>cl_transport = demo_transport\<rparr>"
  let ?wc = "sim_world [] [] 30 []"
  let ?frame = "[0x50, 0x46, 0x4B, 0x54, 1, 0, 0, 1, 0, 0, 0, 1, 0, 0, 0, 17] @ bytes_of_string ''Hello PacketForge''"
  let ?answer = "[[0x50, 0x46, 0x4B, 0x54, 1, 0, 0, 2, 0, 0, 0, 1, 0, 0, 0, 29],
    bytes_of_string ''Hello from PacketForge Server'']"
  let ?ws = "sim_world [] [?frame] 20 []" and ?wc2 = "sim_world [] ?answer 0 []"
  let ?s = "client_send (sim_platform Big) ?c hello_request ?wc"
  let ?r = "receive_request (sim_platform Little) demo_transport False ?ws"
  have c: "client_isConnected ?c" "transport_inv demo_transport" by code_simp+
  have ok: "error_ok (fst ?s)" by code_simp
  have s: "sent (transport_handle (cl_transport ?c)) (log (snd ?s)) =
      sent (transport_handle (cl_transport ?c)) (log ?wc) @ ?frame" by code_simp
  have r: "?r = (0, demo_transport, False, snd (snd (snd ?r)))" by code_simp
  have s2: "sent (transport_handle demo_transport) (log (snd (snd (snd ?r)))) =
      sent (transport_handle demo_transport) (log ?ws) @ concat ?answer" by code_simp
  have del: "delivers (sim_platform Little) (transport_handle demo_transport) ?frame (kernel ?ws)"
    using sim_delivers [of "kernel ?ws" Little 3] by (simp add: sim_world_def bytes_of_string_def)
  have del2: "delivers (sim_platform Big) (transport_handle (cl_transport ?c)) (concat ?answer) (kernel ?wc2)"
    using sim_delivers [of "kernel ?wc2" Big 3] by (simp add: sim_world_def bytes_of_string_def)
  show ?thesis
    using hello_exchange [OF sim_kernel_ok sim_kernel_ok c(1) demo_transport_simps(2) c(2)
        prod.collapse [symmetric] ok s del r s2 del2, of Packet] by blast
qed

end
